(* ===== verification/Erps_Prelude.thy ===== *)
theory Erps_Prelude
  imports Main "HOL-Library.Word" "HOL-Library.Monad_Syntax"
begin

text \<open>
  What the components share: the machine types, the C library pieces the sources call
  (\<open>memcmp\<close>, the \<open>errno\<close> constants), the loop shape \<open>for (...; !ret && ...)\<close>, and a
  weakest-precondition calculus for code that may be undefined.

  A C function that returns an \<open>int\<close> and changes state is a HOL function from the state to
  \<open>(int \<times> state) option\<close>. \<open>Some (ret, s)\<close> is a return; \<open>None\<close> stands for what has no
  result in C: a failed \<open>__ASSERT_NO_MSG\<close>, the dereference of a null pointer,
  \<open>CODE_UNREACHABLE\<close> being reached, or a recursion deeper than the fuel given to it.
\<close>

unbundle bit_operations_syntax

section \<open>Machine types and errno\<close>

type_synonym u8 = "8 word"
type_synonym u16 = "16 word"
type_synonym u32 = "32 word"

abbreviation EPERM :: int where "EPERM \<equiv> 1"
abbreviation EIO :: int where "EIO \<equiv> 5"
abbreviation ENXIO :: int where "ENXIO \<equiv> 6"
abbreviation ENOMEM :: int where "ENOMEM \<equiv> 12"
abbreviation EBUSY :: int where "EBUSY \<equiv> 16"
abbreviation ENODEV :: int where "ENODEV \<equiv> 19"
abbreviation EINVAL :: int where "EINVAL \<equiv> 22"
abbreviation ERANGE :: int where "ERANGE \<equiv> 34"
abbreviation ENODATA :: int where "ENODATA \<equiv> 61"
abbreviation ENOBUFS :: int where "ENOBUFS \<equiv> 105"

section \<open>memcmp\<close>

text \<open>
  The sign of the first difference of two byte strings, compared as unsigned bytes. The C
  standard fixes only the sign of the result, and the sources test only the sign.
\<close>

fun memcmp :: "u8 list \<Rightarrow> u8 list \<Rightarrow> int" where
  "memcmp (x # xs) (y # ys) =
     (if x < y then -1 else if y < x then 1 else memcmp xs ys)"
| "memcmp xs ys = 0"

lemma memcmp_refl [simp]: "memcmp xs xs = 0"
  by (induction xs) auto

lemma memcmp_eq_0:
  "length xs = length ys \<Longrightarrow> memcmp xs ys = 0 \<longleftrightarrow> xs = ys"
  by (induction xs ys rule: list_induct2) auto

lemma memcmp_swap: "memcmp ys xs = - memcmp xs ys"
  by (induction xs ys rule: memcmp.induct) auto

section \<open>Weakest preconditions\<close>

named_theorems wp_rules \<open>continuation-style rules: what holds after an operation\<close>

definition wp :: "('r \<times> 's) option \<Rightarrow> ('r \<Rightarrow> 's \<Rightarrow> bool) \<Rightarrow> bool" where
  "wp m Q = (case m of None \<Rightarrow> False | Some (r, s) \<Rightarrow> Q r s)"

lemma wp_None [simp]: "wp None Q = False"
  by (simp add: wp_def)

lemma wp_Some [simp]: "wp (Some (r, s)) Q = Q r s"
  by (simp add: wp_def)

lemma wp_Some_pair: "wp (Some x) Q = Q (fst x) (snd x)"
  by (cases x) simp

lemma wp_bind [simp]:
  "wp (Option.bind m f) Q = wp m (\<lambda>r s. wp (f (r, s)) Q)"
  by (cases m) (auto simp: wp_def)

lemma wp_mono:
  assumes "wp m P" and "\<And>r s. P r s \<Longrightarrow> Q r s"
  shows "wp m Q"
  using assms by (auto simp: wp_def split: option.splits)

lemma wp_eqI: "m = Some (r, s) \<Longrightarrow> Q r s \<Longrightarrow> wp m Q"
  by simp

lemma wp_iff_Some: "wp m Q \<longleftrightarrow> (\<exists>r s. m = Some (r, s) \<and> Q r s)"
  by (auto simp: wp_def split: option.splits)

lemma wp_SomeD: "wp m Q \<Longrightarrow> m = Some (r, s) \<Longrightarrow> Q r s"
  by simp

lemma wp_if: "(b \<Longrightarrow> wp m Q) \<Longrightarrow> (\<not> b \<Longrightarrow> wp m' Q) \<Longrightarrow> wp (if b then m else m') Q"
  by simp

section \<open>C control flow\<close>

text \<open>\<open>if (!ret) { ret = f(...); }\<close>: the shape most functions of the sources are made of.\<close>

definition on_ok :: "int \<Rightarrow> 's \<Rightarrow> ('s \<Rightarrow> (int \<times> 's) option) \<Rightarrow> (int \<times> 's) option" where
  "on_ok ret s f = (if ret = 0 then f s else Some (ret, s))"

lemma on_ok_0 [simp]: "on_ok 0 s f = f s"
  by (simp add: on_ok_def)

lemma on_ok_error [simp]: "ret \<noteq> 0 \<Longrightarrow> on_ok ret s f = Some (ret, s)"
  by (simp add: on_ok_def)

lemma wp_on_okI:
  "(ret = 0 \<Longrightarrow> wp (f s) Q) \<Longrightarrow> (ret \<noteq> 0 \<Longrightarrow> Q ret s) \<Longrightarrow> wp (on_ok ret s f) Q"
  by (simp add: on_ok_def)

text \<open>\<open>for (i = ...; !ret && ...; ++i) { ret = f(i); }\<close>, the indices as a list.\<close>

fun for_ok :: "nat list \<Rightarrow> int \<Rightarrow> (nat \<Rightarrow> 's \<Rightarrow> (int \<times> 's) option) \<Rightarrow> 's \<Rightarrow>
    (int \<times> 's) option" where
  "for_ok [] ret f s = Some (ret, s)"
| "for_ok (i # is) ret f s =
     (if ret = 0 then do { (ret, s) \<leftarrow> f i s; for_ok is ret f s } else Some (ret, s))"

text \<open>The loop keeps whatever its body keeps.\<close>

lemma wp_for_ok:
  assumes "J s" and "\<And>i s. i \<in> set is \<Longrightarrow> J s \<Longrightarrow> wp (f i s) (\<lambda>_. J)"
  shows "wp (for_ok is ret f s) (\<lambda>_. J)"
  using assms
proof (induction "is" arbitrary: ret s)
  case Nil
  then show ?case by simp
next
  case (Cons i "is")
  have "wp (f i s) (\<lambda>_. J)"
    using Cons.prems by simp
  moreover have "wp (for_ok is r f s') (\<lambda>_. J)" if "J s'" for r s'
    using that Cons.prems(2) by (intro Cons.IH) auto
  ultimately show ?case
    using Cons.prems(1) by (auto elim: wp_mono)
qed

section \<open>Fixed-width formats\<close>

text \<open>
  What a format of fixed width promises: values that are well formed are exactly the byte
  strings of that length. Everything that goes over the wire is read and written through an
  instance of this contract.
\<close>

locale codec =
  fixes enc :: "'a \<Rightarrow> 'b list"
    and dec :: "'b list \<Rightarrow> 'a"
    and wf :: "'a \<Rightarrow> bool"
    and width :: nat
  assumes length_enc: "wf x \<Longrightarrow> length (enc x) = width"
    and wf_dec: "length bs = width \<Longrightarrow> wf (dec bs)"
    and dec_enc: "wf x \<Longrightarrow> dec (enc x) = x"
    and enc_dec: "length bs = width \<Longrightarrow> enc (dec bs) = bs"
begin

lemma enc_inject: "wf x \<Longrightarrow> wf y \<Longrightarrow> enc x = enc y \<longleftrightarrow> x = y"
  by (metis dec_enc)

lemma dec_inject: "length xs = width \<Longrightarrow> length ys = width \<Longrightarrow> dec xs = dec ys \<longleftrightarrow> xs = ys"
  by (metis enc_dec)

lemma bij: "bij_betw enc {x. wf x} {bs. length bs = width}"
  by (rule bij_betw_byWitness [where f' = dec]) (auto simp: dec_enc enc_dec length_enc wf_dec)

text \<open>A value at the front of a longer string is read back, whatever follows it.\<close>

lemma dec_prefix: "wf x \<Longrightarrow> dec (take width (enc x @ rest)) = x"
  by (simp add: length_enc dec_enc)

end

section \<open>Addresses\<close>

text \<open>\<open>struct net_eth_addr\<close>: six bytes.\<close>

datatype net_eth_addr = Eth u8 u8 u8 u8 u8 u8

fun mac_bytes :: "net_eth_addr \<Rightarrow> u8 list" where
  "mac_bytes (Eth a b c d e f) = [a, b, c, d, e, f]"

definition mac_of_bytes :: "u8 list \<Rightarrow> net_eth_addr" where
  "mac_of_bytes bs = Eth (bs ! 0) (bs ! 1) (bs ! 2) (bs ! 3) (bs ! 4) (bs ! 5)"

definition mac_zero :: net_eth_addr where
  "mac_zero = Eth 0 0 0 0 0 0"

fun mac_last :: "net_eth_addr \<Rightarrow> u8" where
  "mac_last (Eth a b c d e f) = f"

lemma length_mac_bytes [simp]: "length (mac_bytes m) = 6"
  by (cases m) simp

lemma mac_of_bytes_mac_bytes [simp]: "mac_of_bytes (mac_bytes m) = m"
  by (cases m) (simp add: mac_of_bytes_def)

lemma mac_bytes_mac_of_bytes [simp]:
  "length bs = 6 \<Longrightarrow> mac_bytes (mac_of_bytes bs) = bs"
  by (auto simp: mac_of_bytes_def numeral_eq_Suc length_Suc_conv)

interpretation mac: codec mac_bytes mac_of_bytes "\<lambda>_. True" 6
  by unfold_locales simp_all

lemma mac_bytes_inject [simp]: "mac_bytes a = mac_bytes b \<longleftrightarrow> a = b"
  by (rule mac.enc_inject) simp_all

lemma memcmp_mac_eq_0 [simp]: "memcmp (mac_bytes a) (mac_bytes b) = 0 \<longleftrightarrow> a = b"
  by (simp add: memcmp_eq_0)

end
