(* ===== verification/Erps_Zephyr.thy ===== *)
theory Erps_Zephyr
  imports Erps_Prelude
begin

text \<open>
  The operating system the program runs on. None of it is under \<^verbatim>\<open>src/\<close>, so all of it is a
  parameter: the record \<open>zephyr\<close> holds the functions of the kernel and of the network
  stack that the sources call, and every definition that calls one takes the record.

  An external call that has an effect is recorded, with its arguments and its result, in a
  history, and the result of a call is any function of the history before it. So a driver,
  a timer wheel or a packet pool may answer in any way that depends on what has been done
  so far; \<open>WorldStep\<close> lets the environment itself move on (time passes, a cable is
  pulled) between two calls. What the program does to its environment is then what it
  appends to the history, in the order it does it. The newest entry comes first.
\<close>

type_synonym net_if = nat
type_synonym device = nat
type_synonym pkt = nat
type_synonym timepoint = nat

section \<open>Handles\<close>

text \<open>
  The delayable work items embedded in the structures, named by the node and port that
  hold them: \<open>ports[p].tx_dwork\<close>, \<open>ports[p].link_down_dwork\<close>, \<open>wtr_dwork\<close>, \<open>wtb_dwork\<close>.
\<close>

datatype work = TxWork nat nat | LinkDownWork nat nat | WtrWork nat | WtbWork nat

datatype timeout = K_NO_WAIT | K_USEC nat | K_MSEC nat | K_MINUTES nat

datatype net_verdict = NET_OK | NET_CONTINUE | NET_DROP

section \<open>External calls and their history\<close>

datatype action =
  PortSetEnabled net_if bool int       \<comment> \<open>\<open>net_eth_port_set_enabled\<close> and its result\<close>
| IfUp net_if                          \<comment> \<open>\<open>net_if_up\<close>\<close>
| IfDown net_if                        \<comment> \<open>\<open>net_if_down\<close>\<close>
| MacFlush net_if int                  \<comment> \<open>\<open>net_eth_mac_flush\<close> of dynamic entries\<close>
| VlanEnable net_if u16 int            \<comment> \<open>\<open>net_eth_vlan_enable\<close>\<close>
| WorkInit work                        \<comment> \<open>\<open>k_work_init_delayable\<close>\<close>
| WorkReschedule work timeout int      \<comment> \<open>\<open>k_work_reschedule\<close>\<close>
| WorkCancel work                      \<comment> \<open>\<open>k_work_cancel_delayable\<close>\<close>
| WorkCancelSync work                  \<comment> \<open>\<open>k_work_cancel_delayable_sync\<close>\<close>
| MutexInit nat int                    \<comment> \<open>\<open>k_mutex_init\<close> of a node's FSM mutex\<close>
| MutexLock nat int                    \<comment> \<open>\<open>k_mutex_lock\<close>\<close>
| MutexUnlock nat                      \<comment> \<open>\<open>k_mutex_unlock\<close>\<close>
| TimepointCalc timeout                \<comment> \<open>\<open>sys_timepoint_calc\<close>\<close>
| MgmtInit nat                         \<comment> \<open>\<open>net_mgmt_init_event_callback\<close>\<close>
| MgmtAdd nat                          \<comment> \<open>\<open>net_mgmt_add_event_callback\<close>\<close>
| PktRead pkt nat int                  \<comment> \<open>\<open>net_pkt_read\<close> of so many bytes\<close>
| PktCursorBackup pkt                  \<comment> \<open>\<open>net_pkt_cursor_backup\<close>\<close>
| PktCursorRestore pkt                 \<comment> \<open>\<open>net_pkt_cursor_restore\<close>\<close>
| PktUnref pkt                         \<comment> \<open>\<open>net_pkt_unref\<close>\<close>
| PktAlloc "net_if option" nat timeout "pkt option"  \<comment> \<open>\<open>net_pkt_alloc_with_buffer\<close>\<close>
| PktSetProto pkt u16                  \<comment> \<open>\<open>net_pkt_set_ll_proto_type\<close>\<close>
| PktSetSrc pkt "u8 list option" int   \<comment> \<open>\<open>net_linkaddr_copy\<close> to the source address\<close>
| PktSetDst pkt "u8 list" int          \<comment> \<open>\<open>net_linkaddr_set\<close> of the destination\<close>
| PktSetData pkt "u8 list" int         \<comment> \<open>\<open>net_pkt_set_data\<close>\<close>
| PktWrite pkt "u8 list" int           \<comment> \<open>\<open>net_pkt_write\<close>\<close>
| SendData "net_if option" pkt net_verdict  \<comment> \<open>\<open>net_if_try_send_data\<close>\<close>
| WorldStep nat                        \<comment> \<open>a step of the environment\<close>

type_synonym hist = "action list"

text \<open>\<open>struct net_eth_vlan_hdr\<close>: the fields the sources read, as they lie in the frame.\<close>

record net_eth_vlan_hdr =
  hdr_dst :: net_eth_addr
  hdr_tpid :: u16
  hdr_tci :: u16
  hdr_type :: u16

record zephyr =
  \<comment> \<open>tables built at link time\<close>
  net_if_lookup_by_dev :: "device \<Rightarrow> net_if option"
  net_if_get_device :: "net_if option \<Rightarrow> device option"
  \<comment> \<open>interfaces; a null pointer is \<open>None\<close>\<close>
  net_if_is_up :: "hist \<Rightarrow> net_if option \<Rightarrow> bool"
  net_if_get_link_addr :: "hist \<Rightarrow> net_if option \<Rightarrow> u8 list option"
  net_eth_port_set_enabled :: "hist \<Rightarrow> net_if \<Rightarrow> bool \<Rightarrow> int"
  net_eth_get_vlan_iface :: "hist \<Rightarrow> net_if \<Rightarrow> u16 \<Rightarrow> net_if option"
  net_eth_vlan_enable :: "hist \<Rightarrow> net_if \<Rightarrow> u16 \<Rightarrow> int"
  net_eth_mac_flush :: "hist \<Rightarrow> net_if \<Rightarrow> int"
  \<comment> \<open>kernel\<close>
  k_work_reschedule :: "hist \<Rightarrow> work \<Rightarrow> timeout \<Rightarrow> int"
  k_work_delayable_is_pending :: "hist \<Rightarrow> work \<Rightarrow> bool"
  k_mutex_init :: "hist \<Rightarrow> nat \<Rightarrow> int"
  k_mutex_lock :: "hist \<Rightarrow> nat \<Rightarrow> timeout \<Rightarrow> int"
  sys_timepoint_calc :: "hist \<Rightarrow> timeout \<Rightarrow> timepoint"
  sys_timepoint_expired :: "hist \<Rightarrow> timepoint \<Rightarrow> bool"
  \<comment> \<open>received packets\<close>
  net_pkt_get_len :: "hist \<Rightarrow> pkt \<Rightarrow> nat"
  net_pkt_remaining_data :: "hist \<Rightarrow> pkt \<Rightarrow> nat"
  net_pkt_read :: "hist \<Rightarrow> pkt \<Rightarrow> nat \<Rightarrow> int \<times> u8 list"
  \<comment> \<open>packets to send\<close>
  net_pkt_alloc_with_buffer :: "hist \<Rightarrow> net_if option \<Rightarrow> nat \<Rightarrow> timeout \<Rightarrow> pkt option"
  net_linkaddr_copy_src :: "hist \<Rightarrow> pkt \<Rightarrow> u8 list option \<Rightarrow> int"
  net_linkaddr_set_dst :: "hist \<Rightarrow> pkt \<Rightarrow> u8 list \<Rightarrow> int"
  net_pkt_get_data :: "hist \<Rightarrow> pkt \<Rightarrow> u8 list option"
  net_pkt_set_data :: "hist \<Rightarrow> pkt \<Rightarrow> u8 list \<Rightarrow> int"
  net_pkt_write :: "hist \<Rightarrow> pkt \<Rightarrow> u8 list \<Rightarrow> int"
  net_if_try_send_data :: "hist \<Rightarrow> net_if option \<Rightarrow> pkt \<Rightarrow> net_verdict"
  \<comment> \<open>frame format of the network stack\<close>
  sizeof_net_eth_vlan_hdr :: nat
  net_eth_vlan_hdr_of_bytes :: "u8 list \<Rightarrow> net_eth_vlan_hdr"
  net_ntohs :: "u16 \<Rightarrow> u16"
  net_eth_vlan_get_vid :: "u16 \<Rightarrow> u16"
  NET_ETH_PTYPE_VLAN :: u16
  NET_ETH_MINIMAL_FRAME_SIZE :: nat
  \<comment> \<open>build configuration\<close>
  CONFIG_NET_ERPS_PAD_RAPS_PDUS :: bool
  CONFIG_NET_ERPS_LINK_FAIL_TIMEOUT :: nat

section \<open>What a history says about the hardware\<close>

text \<open>
  Whether a port is enabled: the last \<open>net_eth_port_set_enabled\<close> on it that returned 0
  says so; \<open>None\<close> when there was none.
\<close>

fun port_enabled :: "hist \<Rightarrow> net_if \<Rightarrow> bool option" where
  "port_enabled [] i = None"
| "port_enabled (PortSetEnabled j b r # h) i =
     (if j = i \<and> r = 0 then Some b else port_enabled h i)"
| "port_enabled (a # h) i = port_enabled h i"

text \<open>
  Whether a node's FSM mutex is held: locked successfully and not unlocked since.
\<close>

fun mutex_held :: "hist \<Rightarrow> nat \<Rightarrow> bool" where
  "mutex_held [] n = False"
| "mutex_held (MutexLock m r # h) n = ((m = n \<and> r = 0) \<or> mutex_held h n)"
| "mutex_held (MutexUnlock m # h) n = (m \<noteq> n \<and> mutex_held h n)"
| "mutex_held (a # h) n = mutex_held h n"

text \<open>The timeout a work item was last given, \<open>None\<close> once it has been cancelled.\<close>

fun last_delay :: "hist \<Rightarrow> work \<Rightarrow> timeout option" where
  "last_delay [] w = None"
| "last_delay (WorkReschedule v t r # h) w =
     (if v = w \<and> 0 \<le> r then Some t else last_delay h w)"
| "last_delay (WorkCancel v # h) w = (if v = w then None else last_delay h w)"
| "last_delay (WorkCancelSync v # h) w = (if v = w then None else last_delay h w)"
| "last_delay (a # h) w = last_delay h w"

end
