(* ===== verification/Erps_Raps.thy ===== *)
theory Erps_Raps
  imports Erps_Prelude
begin

text \<open>
  The R-APS protocol header: \<^verbatim>\<open>r-aps.h\<close> and \<^verbatim>\<open>r-aps.c\<close>. Its constants, the PDU as a record,
  the PDU's memory layout (every field is a byte or an array of bytes, so the structure is
  37 bytes with no padding), the accessors, and the round trips of the layout.
\<close>

section \<open>Constants\<close>

definition RAPS_OPCODE :: u8 where "RAPS_OPCODE = 0x28"
definition RAPS_FLAGS :: u8 where "RAPS_FLAGS = 0x00"

definition RAPS_RS_SHIFT :: nat where "RAPS_RS_SHIFT = 4"
definition RAPS_SC_MASK :: u8 where "RAPS_SC_MASK = 0x0f"
definition RAPS_MEL_SHIFT :: nat where "RAPS_MEL_SHIFT = 5"

definition RAPS_SC_FLUSH_REQ :: u8 where "RAPS_SC_FLUSH_REQ = 0"

text \<open>Status bits: \<open>BIT(7)\<close>, \<open>BIT(6)\<close>, \<open>BIT(5)\<close>.\<close>

definition RAPS_RB :: u8 where "RAPS_RB = push_bit 7 1"
definition RAPS_DNF :: u8 where "RAPS_DNF = push_bit 6 1"
definition RAPS_BPR :: u8 where "RAPS_BPR = push_bit 5 1"

text \<open>
  \<open>enum raps_req_state\<close>. A received PDU can hold any of the sixteen nibbles in this field,
  so the type is the byte and the enumerators are constants of it.
\<close>

type_synonym raps_req_state = u8

definition RAPS_NR :: raps_req_state where "RAPS_NR = 0x00"
definition RAPS_MS :: raps_req_state where "RAPS_MS = 0x07"
definition RAPS_SF :: raps_req_state where "RAPS_SF = 0x0b"
definition RAPS_FS :: raps_req_state where "RAPS_FS = 0x0d"
definition RAPS_EVENT :: raps_req_state where "RAPS_EVENT = 0x0e"

lemmas raps_consts [simp] =
  RAPS_OPCODE_def RAPS_FLAGS_def RAPS_RS_SHIFT_def RAPS_SC_MASK_def RAPS_MEL_SHIFT_def
  RAPS_SC_FLUSH_REQ_def

lemmas raps_req_states [simp] =
  RAPS_NR_def RAPS_MS_def RAPS_SF_def RAPS_FS_def RAPS_EVENT_def

lemma raps_status_bits [simp]: "RAPS_RB = 0x80" "RAPS_DNF = 0x40" "RAPS_BPR = 0x20"
  by (simp_all add: RAPS_RB_def RAPS_DNF_def RAPS_BPR_def)

section \<open>The PDU\<close>

record raps_cfm_pdu_hdr =
  mel_ver :: u8
  opcode :: u8
  flags :: u8
  tlv_off :: u8

record raps_spc_info =
  rs_sc :: u8
  status :: u8
  node_id :: net_eth_addr
  rfu :: "u8 list"

record raps_pdu =
  cfm_hdr :: raps_cfm_pdu_hdr
  raps_info :: raps_spc_info
  end_tlv :: u8

text \<open>\<open>sizeof(struct raps_spc_info)\<close> and \<open>sizeof(struct raps_pdu)\<close>.\<close>

definition sizeof_raps_spc_info :: nat where "sizeof_raps_spc_info = 1 + 1 + 6 + 24"
definition sizeof_raps_pdu :: nat where "sizeof_raps_pdu = 4 + sizeof_raps_spc_info + 1"

lemma sizeof_raps [simp]: "sizeof_raps_spc_info = 32" "sizeof_raps_pdu = 37"
  by (simp_all add: sizeof_raps_spc_info_def sizeof_raps_pdu_def)

text \<open>The array \<open>rfu\<close> has 24 elements: what the type of the C structure says.\<close>

definition raps_pdu_wf :: "raps_pdu \<Rightarrow> bool" where
  "raps_pdu_wf pdu \<longleftrightarrow> length (rfu (raps_info pdu)) = 24"

section \<open>Memory layout\<close>

definition raps_cfm_hdr_bytes :: "raps_cfm_pdu_hdr \<Rightarrow> u8 list" where
  "raps_cfm_hdr_bytes h = [mel_ver h, opcode h, flags h, tlv_off h]"

definition raps_spc_info_bytes :: "raps_spc_info \<Rightarrow> u8 list" where
  "raps_spc_info_bytes i = [rs_sc i, status i] @ mac_bytes (node_id i) @ rfu i"

definition raps_pdu_bytes :: "raps_pdu \<Rightarrow> u8 list" where
  "raps_pdu_bytes pdu =
     raps_cfm_hdr_bytes (cfm_hdr pdu) @ raps_spc_info_bytes (raps_info pdu) @ [end_tlv pdu]"

definition raps_pdu_of_bytes :: "u8 list \<Rightarrow> raps_pdu" where
  "raps_pdu_of_bytes bs =
     \<lparr>cfm_hdr = \<lparr>mel_ver = bs ! 0, opcode = bs ! 1, flags = bs ! 2, tlv_off = bs ! 3\<rparr>,
      raps_info = \<lparr>rs_sc = bs ! 4, status = bs ! 5,
                   node_id = mac_of_bytes (take 6 (drop 6 bs)),
                   rfu = take 24 (drop 12 bs)\<rparr>,
      end_tlv = bs ! 36\<rparr>"

lemma length_raps_pdu_bytes [simp]:
  "raps_pdu_wf pdu \<Longrightarrow> length (raps_pdu_bytes pdu) = sizeof_raps_pdu"
  by (simp add: raps_pdu_wf_def raps_pdu_bytes_def raps_cfm_hdr_bytes_def
      raps_spc_info_bytes_def)

lemma raps_pdu_of_bytes_wf [simp]:
  "length bs = sizeof_raps_pdu \<Longrightarrow> raps_pdu_wf (raps_pdu_of_bytes bs)"
  by (simp add: raps_pdu_wf_def raps_pdu_of_bytes_def)

lemma raps_pdu_of_bytes_bytes [simp]:
  "raps_pdu_wf pdu \<Longrightarrow> raps_pdu_of_bytes (raps_pdu_bytes pdu) = pdu"
  by (cases "node_id (raps_info pdu)")
    (simp add: raps_pdu_wf_def raps_pdu_of_bytes_def raps_pdu_bytes_def
      raps_cfm_hdr_bytes_def raps_spc_info_bytes_def mac_of_bytes_def nth_append)

text \<open>A list of 37 bytes is the four header bytes, the 32 bytes of information, the end TLV.\<close>

lemma take_map_nth: "n \<le> length xs \<Longrightarrow> take n xs = map ((!) xs) [0..<n]"
  by (rule nth_equalityI) auto

lemma bytes_37_split:
  assumes "length bs = 37"
  shows "bs = [bs ! 0, bs ! 1, bs ! 2, bs ! 3, bs ! 4, bs ! 5] @ take 6 (drop 6 bs) @
    take 24 (drop 12 bs) @ [bs ! 36]"
proof -
  have "[0..<6] = [0, 1, 2, 3, 4, 5 :: nat]" by (simp add: upt_rec)
  then have head: "take 6 bs = [bs ! 0, bs ! 1, bs ! 2, bs ! 3, bs ! 4, bs ! 5]"
    using assms by (simp add: take_map_nth)
  have tail: "drop 36 bs = [bs ! 36]"
    using assms Cons_nth_drop_Suc [of 36 bs] by simp
  have "bs = take 6 bs @ take 6 (drop 6 bs) @ take 24 (drop 12 bs) @ drop 36 bs"
    using append_take_drop_id [of 6 bs] append_take_drop_id [of 6 "drop 6 bs"]
      append_take_drop_id [of 24 "drop 12 bs"] by simp
  then show ?thesis unfolding head tail by simp
qed

lemma raps_pdu_bytes_of_bytes [simp]:
  assumes "length bs = sizeof_raps_pdu"
  shows "raps_pdu_bytes (raps_pdu_of_bytes bs) = bs"
proof -
  have "length bs = 37" using assms by simp
  then have "raps_pdu_bytes (raps_pdu_of_bytes bs) =
      [bs ! 0, bs ! 1, bs ! 2, bs ! 3, bs ! 4, bs ! 5] @ take 6 (drop 6 bs) @
      take 24 (drop 12 bs) @ [bs ! 36]"
    by (simp add: raps_pdu_bytes_def raps_pdu_of_bytes_def raps_cfm_hdr_bytes_def
        raps_spc_info_bytes_def)
  with \<open>length bs = 37\<close> show ?thesis using bytes_37_split by metis
qed

interpretation pdu: codec raps_pdu_bytes raps_pdu_of_bytes raps_pdu_wf sizeof_raps_pdu
  by unfold_locales (rule length_raps_pdu_bytes raps_pdu_of_bytes_wf raps_pdu_of_bytes_bytes
      raps_pdu_bytes_of_bytes, assumption)+

section \<open>Accessors\<close>

definition raps_pdu_bpr :: "raps_pdu \<Rightarrow> bool" where
  "raps_pdu_bpr pdu \<longleftrightarrow> status (raps_info pdu) AND RAPS_BPR \<noteq> 0"

definition raps_pdu_dnf :: "raps_pdu \<Rightarrow> bool" where
  "raps_pdu_dnf pdu \<longleftrightarrow> status (raps_info pdu) AND RAPS_DNF \<noteq> 0"

definition raps_pdu_rb :: "raps_pdu \<Rightarrow> bool" where
  "raps_pdu_rb pdu \<longleftrightarrow> status (raps_info pdu) AND RAPS_RB \<noteq> 0"

definition raps_info_get_req_state :: "raps_spc_info \<Rightarrow> raps_req_state" where
  "raps_info_get_req_state info = drop_bit RAPS_RS_SHIFT (rs_sc info)"

definition raps_info_get_subcode :: "raps_spc_info \<Rightarrow> u8" where
  "raps_info_get_subcode info = rs_sc info AND RAPS_SC_MASK"

definition raps_pdu_get_req_state :: "raps_pdu \<Rightarrow> raps_req_state" where
  "raps_pdu_get_req_state pdu = raps_info_get_req_state (raps_info pdu)"

definition raps_pdu_get_subcode :: "raps_pdu \<Rightarrow> u8" where
  "raps_pdu_get_subcode pdu = raps_info_get_subcode (raps_info pdu)"

definition raps_pdu_status :: "raps_pdu \<Rightarrow> u8" where
  "raps_pdu_status pdu = status (raps_info pdu)"

definition raps_req_state_str :: "raps_req_state \<Rightarrow> string" where
  "raps_req_state_str rs =
     (if rs = RAPS_NR then ''NR''
      else if rs = RAPS_MS then ''MS''
      else if rs = RAPS_SF then ''SF''
      else if rs = RAPS_FS then ''FS''
      else if rs = RAPS_EVENT then ''EV''
      else ''<invalid>'')"

section \<open>The request byte\<close>

text \<open>\<open>(req_state << RAPS_RS_SHIFT) | subcode\<close>, as the scheduler composes it.\<close>

definition raps_rs_sc :: "raps_req_state \<Rightarrow> u8 \<Rightarrow> u8" where
  "raps_rs_sc rs sc = push_bit RAPS_RS_SHIFT rs OR sc"

lemma take_bit_nibble: "(x :: u8) < 16 \<Longrightarrow> take_bit 4 x = x"
  by (simp add: word_unat_eq_iff unsigned_take_bit_eq word_less_nat_alt take_bit_nat_eq_self_iff)

lemma nibble_compose:
  fixes rs sc :: u8
  assumes "rs < 16" and "sc < 16"
  shows "drop_bit 4 (push_bit 4 rs OR sc) = rs" and "(push_bit 4 rs OR sc) AND 15 = sc"
proof -
  have rs: "take_bit 4 rs = rs" and sc: "take_bit 4 sc = sc"
    using assms by (simp_all add: take_bit_nibble)
  have b: "bit rs n \<Longrightarrow> n < 4" "bit sc n \<Longrightarrow> n < 4" for n
    using rs sc by (metis bit_take_bit_iff)+
  have m: "(15 :: u8) = mask 4" by (simp add: mask_eq_exp_minus_1)
  show "drop_bit 4 (push_bit 4 rs OR sc) = rs"
    by (rule bit_word_eqI) (auto simp: bit_simps dest: b)
  show "(push_bit 4 rs OR sc) AND 15 = sc"
    unfolding m by (rule bit_word_eqI) (auto simp: bit_simps dest: b)
qed

text \<open>The nibbles of a request byte are what it was composed of.\<close>

lemma raps_rs_sc_nibbles:
  assumes "rs < 16" and "sc < 16" and "rs_sc info = raps_rs_sc rs sc"
  shows "raps_info_get_req_state info = rs" and "raps_info_get_subcode info = sc"
  using nibble_compose[OF assms(1,2)] assms(3)
  by (simp_all add: raps_info_get_req_state_def raps_info_get_subcode_def raps_rs_sc_def)

end
