(* ===== verification/Erps_Node.thy ===== *)
theory Erps_Node
  imports Erps_Zephyr Erps_Raps
begin

text \<open>
  The program's state: the requests of \<^verbatim>\<open>erps-internal.h\<close>, the FSM states of \<^verbatim>\<open>erps-fsm.h\<close>,
  the structures \<open>erps_link\<close> and \<open>erps_node\<close> of \<^verbatim>\<open>erps.c\<close>, the section of all nodes, and
  pointers into it. Also the accessors of \<^verbatim>\<open>erps.c\<close> that only read that state, and what it
  means for a node to be well formed.
\<close>

section \<open>Requests\<close>

datatype erps_request =
  ERPS_REQ_CLEAR | ERPS_REQ_FS | ERPS_REQ_RAPS_FS | ERPS_REQ_SF | ERPS_REQ_CLEAR_SF
| ERPS_REQ_RAPS_SF | ERPS_REQ_RAPS_MS | ERPS_REQ_MS | ERPS_REQ_WTR_EXPIRES
| ERPS_REQ_WTR_RUNNING | ERPS_REQ_WTB_EXPIRES | ERPS_REQ_WTB_RUNNING | ERPS_REQ_RAPS_NR_RB
| ERPS_REQ_RAPS_NR | ERPS_REQ_INVALID

text \<open>The value of an enumerator. Lower value, higher priority.\<close>

fun erps_request_val :: "erps_request \<Rightarrow> nat" where
  "erps_request_val ERPS_REQ_CLEAR = 0"
| "erps_request_val ERPS_REQ_FS = 1"
| "erps_request_val ERPS_REQ_RAPS_FS = 2"
| "erps_request_val ERPS_REQ_SF = 3"
| "erps_request_val ERPS_REQ_CLEAR_SF = 4"
| "erps_request_val ERPS_REQ_RAPS_SF = 5"
| "erps_request_val ERPS_REQ_RAPS_MS = 6"
| "erps_request_val ERPS_REQ_MS = 7"
| "erps_request_val ERPS_REQ_WTR_EXPIRES = 8"
| "erps_request_val ERPS_REQ_WTR_RUNNING = 9"
| "erps_request_val ERPS_REQ_WTB_EXPIRES = 10"
| "erps_request_val ERPS_REQ_WTB_RUNNING = 11"
| "erps_request_val ERPS_REQ_RAPS_NR_RB = 12"
| "erps_request_val ERPS_REQ_RAPS_NR = 13"
| "erps_request_val ERPS_REQ_INVALID = 14"

lemma erps_request_val_inject [simp]:
  "erps_request_val a = erps_request_val b \<longleftrightarrow> a = b"
  by (cases a; cases b) simp_all

text \<open>The comparison of two enumerators is the comparison of their values.\<close>

instantiation erps_request :: linorder
begin

definition less_eq_erps_request :: "erps_request \<Rightarrow> erps_request \<Rightarrow> bool" where
  "less_eq_erps_request a b \<longleftrightarrow> erps_request_val a \<le> erps_request_val b"

definition less_erps_request :: "erps_request \<Rightarrow> erps_request \<Rightarrow> bool" where
  "less_erps_request a b \<longleftrightarrow> erps_request_val a < erps_request_val b"

instance
  by standard (auto simp: less_eq_erps_request_def less_erps_request_def
      simp flip: erps_request_val_inject)

end

lemmas req_order = less_eq_erps_request_def less_erps_request_def

lemma erps_req_le_INVALID [simp]: "r \<le> ERPS_REQ_INVALID"
  by (cases r) (simp_all add: req_order)

lemma erps_req_CLEAR_le [simp]: "ERPS_REQ_CLEAR \<le> r"
  by (simp add: req_order)

section \<open>FSM states\<close>

datatype erps_node_state =
  ERPS_STATE_IDLE | ERPS_STATE_PROTECTION | ERPS_STATE_MANUAL_SWITCH
| ERPS_STATE_FORCED_SWITCH | ERPS_STATE_PENDING | ERPS_STATE_UNINIT

section \<open>Links, nodes, the section of nodes\<close>

text \<open>
  The work items of a link and of a node live in the kernel's data structures and are named
  by \<open>work\<close>; the mutex and the management callback by the node. Everything else of the two
  structures is a field here.
\<close>

record erps_link =
  failed :: bool
  blocked :: bool
  bpr :: u8
  tx_burst :: u8
  rpl :: bool
  idx :: u8
  last_node_id :: net_eth_addr
  dev :: device

record raps_pdu_mut =
  mut_rs_sc :: u8
  mut_status :: u8

record erps_node =
  revertive :: bool
  local_topreq :: erps_request
  rpl_owner :: bool
  rpl_nbr :: bool
  raps_ver :: u8
  ring_id :: u8
  raps_mel :: u8
  wtr_duration :: u8
  state :: erps_node_state
  guard_timer_duration :: u16
  ctrl_vid :: u16
  traffic_vid :: u16
  net_pkt_alloc_timeout :: u32
  pdu_mut :: raps_pdu_mut
  guard_timer_expiry :: timepoint
  ports :: "nat \<Rightarrow> erps_link"

text \<open>
  The iterable section of nodes: \<open>nodes n\<close> for \<open>n < nnodes\<close>, the ports of a node at the
  indices 0 and 1; and the history of the environment.
\<close>

record sys =
  nodes :: "nat \<Rightarrow> erps_node"
  nnodes :: nat
  hist :: hist

text \<open>\<open>struct erps_link *\<close>: the port \<open>p\<close> of the node \<open>n\<close>. A node pointer is its index.\<close>

type_synonym link_ref = "nat \<times> nat"

definition lnk :: "sys \<Rightarrow> link_ref \<Rightarrow> erps_link" where
  "lnk s l = ports (nodes s (fst l)) (snd l)"

definition upd_node :: "nat \<Rightarrow> (erps_node \<Rightarrow> erps_node) \<Rightarrow> sys \<Rightarrow> sys" where
  "upd_node n f s = s\<lparr>nodes := (nodes s)(n := f (nodes s n))\<rparr>"

definition upd_link :: "link_ref \<Rightarrow> (erps_link \<Rightarrow> erps_link) \<Rightarrow> sys \<Rightarrow> sys" where
  "upd_link l f =
     upd_node (fst l) (\<lambda>nd. nd\<lparr>ports := (ports nd)(snd l := f (ports nd (snd l)))\<rparr>)"

definition emit :: "action \<Rightarrow> sys \<Rightarrow> sys" where
  "emit a s = s\<lparr>hist := a # hist s\<rparr>"

lemmas sys_defs = lnk_def upd_node_def upd_link_def emit_def

section \<open>Accessors\<close>

text \<open>
  \<open>CONTAINER_OF(lnk - lnk->idx, struct erps_node, ports)\<close>: the node whose port array starts
  \<open>idx\<close> links before this one. When the stored index is not the link's position, the
  expression is no node's address, which the model writes as the index past the last node.
\<close>

definition erps_link_get_node :: "sys \<Rightarrow> link_ref \<Rightarrow> nat" where
  "erps_link_get_node s l = (if unat (idx (lnk s l)) = snd l then fst l else nnodes s)"

text \<open>\<open>&node->ports[node->ports == lnk]\<close>, and the null case of the C function around it.\<close>

definition erps_node_other_port :: "nat \<Rightarrow> link_ref \<Rightarrow> link_ref" where
  "erps_node_other_port n l = (n, if (n, 0) = l then 1 else 0)"

definition erps_node_other_link :: "nat \<Rightarrow> link_ref option \<Rightarrow> link_ref option" where
  "erps_node_other_link n l = map_option (erps_node_other_port n) l"

definition erps_node_get_rpl :: "sys \<Rightarrow> nat \<Rightarrow> link_ref option" where
  "erps_node_get_rpl s n = (if rpl (ports (nodes s n) 1) then Some (n, 1) else None)"

definition erps_link_is_blocked :: "sys \<Rightarrow> link_ref \<Rightarrow> bool" where
  "erps_link_is_blocked s l = blocked (lnk s l)"

definition erps_node_any_link_blocked :: "sys \<Rightarrow> nat \<Rightarrow> bool" where
  "erps_node_any_link_blocked s n \<longleftrightarrow>
     blocked (ports (nodes s n) 0) \<or> blocked (ports (nodes s n) 1)"

definition erps_node_is_rpl_owner :: "sys \<Rightarrow> nat \<Rightarrow> bool" where
  "erps_node_is_rpl_owner s n = rpl_owner (nodes s n)"

definition erps_node_is_rpl_nbr :: "sys \<Rightarrow> nat \<Rightarrow> bool" where
  "erps_node_is_rpl_nbr s n = rpl_nbr (nodes s n)"

definition erps_node_is_revertive :: "sys \<Rightarrow> nat \<Rightarrow> bool" where
  "erps_node_is_revertive s n = revertive (nodes s n)"

text \<open>
  All links, in the order \<open>STRUCT_SECTION_FOREACH\<close> and the loop over the ports visit them,
  and the lookup of the link of an interface.
\<close>

definition all_links :: "sys \<Rightarrow> link_ref list" where
  "all_links s = [(n, p). n \<leftarrow> [0..<nnodes s], p \<leftarrow> [0, 1]]"

definition erps_link_lookup_by_iface :: "zephyr \<Rightarrow> net_if option \<Rightarrow> sys \<Rightarrow> link_ref option" where
  "erps_link_lookup_by_iface z iface s =
     find (\<lambda>l. Some (dev (lnk s l)) = net_if_get_device z iface) (all_links s)"

text \<open>\<open>guard_timer_duration + 5000\<close>, in \<open>uint32_t\<close>.\<close>

definition erps_wtb_duration :: "sys \<Rightarrow> nat \<Rightarrow> u32" where
  "erps_wtb_duration s n = ucast (guard_timer_duration (nodes s n)) + 5000"

text \<open>
  The node identifier: the link-layer address of port 0's interface. \<open>Inl\<close> is the error
  code, and the output parameter is not written then.
\<close>

definition erps_link_get_node_id :: "zephyr \<Rightarrow> link_ref \<Rightarrow> sys \<Rightarrow> int + net_eth_addr" where
  "erps_link_get_node_id z l s =
     (let node = erps_link_get_node s l
      in case net_if_lookup_by_dev z (dev (ports (nodes s node) 0)) of
           None \<Rightarrow> Inl (- ENODEV)
         | Some iface \<Rightarrow>
             (case net_if_get_link_addr z (hist s) (Some iface) of
                None \<Rightarrow> Inl (- ENXIO)
              | Some addr \<Rightarrow>
                  if length addr \<noteq> 6 then Inl (- ENXIO) else Inr (mac_of_bytes addr)))"

definition erps_state_name :: "erps_node_state \<Rightarrow> string" where
  "erps_state_name st = (case st of
     ERPS_STATE_IDLE \<Rightarrow> ''IDLE''
   | ERPS_STATE_PROTECTION \<Rightarrow> ''PROTECTION''
   | ERPS_STATE_MANUAL_SWITCH \<Rightarrow> ''MANUAL_SWITCH''
   | ERPS_STATE_FORCED_SWITCH \<Rightarrow> ''FORCED_SWITCH''
   | ERPS_STATE_PENDING \<Rightarrow> ''PENDING''
   | ERPS_STATE_UNINIT \<Rightarrow> ''UNINITIALIZED'')"

definition erps_request_name :: "erps_request \<Rightarrow> string" where
  "erps_request_name req = (case req of
     ERPS_REQ_CLEAR \<Rightarrow> ''CLEAR''
   | ERPS_REQ_FS \<Rightarrow> ''FS''
   | ERPS_REQ_RAPS_FS \<Rightarrow> ''R-APS(FS)''
   | ERPS_REQ_SF \<Rightarrow> ''SF''
   | ERPS_REQ_CLEAR_SF \<Rightarrow> ''Local clear SF''
   | ERPS_REQ_RAPS_SF \<Rightarrow> ''R-APS(SF)''
   | ERPS_REQ_RAPS_MS \<Rightarrow> ''R-APS(MS)''
   | ERPS_REQ_MS \<Rightarrow> ''MS''
   | ERPS_REQ_WTR_EXPIRES \<Rightarrow> ''WTR Expires''
   | ERPS_REQ_WTR_RUNNING \<Rightarrow> ''WTR Running''
   | ERPS_REQ_WTB_EXPIRES \<Rightarrow> ''WTB Expires''
   | ERPS_REQ_WTB_RUNNING \<Rightarrow> ''WTB Running''
   | ERPS_REQ_RAPS_NR_RB \<Rightarrow> ''R-APS(NR,RB)''
   | ERPS_REQ_RAPS_NR \<Rightarrow> ''R-APS(NR)''
   | ERPS_REQ_INVALID \<Rightarrow> ''<unknown>'')"

section \<open>Calls into the environment\<close>

text \<open>
  One wrapper per external function with an effect: ask the environment for the result, then
  record the call.
\<close>

definition do_port_set_enabled :: "zephyr \<Rightarrow> net_if \<Rightarrow> bool \<Rightarrow> sys \<Rightarrow> int \<times> sys" where
  "do_port_set_enabled z i b s =
     (let r = net_eth_port_set_enabled z (hist s) i b in (r, emit (PortSetEnabled i b r) s))"

definition do_mac_flush :: "zephyr \<Rightarrow> net_if \<Rightarrow> sys \<Rightarrow> int \<times> sys" where
  "do_mac_flush z i s =
     (let r = net_eth_mac_flush z (hist s) i in (r, emit (MacFlush i r) s))"

definition do_vlan_enable :: "zephyr \<Rightarrow> net_if \<Rightarrow> u16 \<Rightarrow> sys \<Rightarrow> int \<times> sys" where
  "do_vlan_enable z i v s =
     (let r = net_eth_vlan_enable z (hist s) i v in (r, emit (VlanEnable i v r) s))"

definition do_reschedule :: "zephyr \<Rightarrow> work \<Rightarrow> timeout \<Rightarrow> sys \<Rightarrow> int \<times> sys" where
  "do_reschedule z w t s =
     (let r = k_work_reschedule z (hist s) w t in (r, emit (WorkReschedule w t r) s))"

definition do_mutex_init :: "zephyr \<Rightarrow> nat \<Rightarrow> sys \<Rightarrow> int \<times> sys" where
  "do_mutex_init z n s = (let r = k_mutex_init z (hist s) n in (r, emit (MutexInit n r) s))"

definition do_mutex_lock :: "zephyr \<Rightarrow> nat \<Rightarrow> timeout \<Rightarrow> sys \<Rightarrow> int \<times> sys" where
  "do_mutex_lock z n t s =
     (let r = k_mutex_lock z (hist s) n t in (r, emit (MutexLock n r) s))"

definition do_timepoint_calc :: "zephyr \<Rightarrow> timeout \<Rightarrow> sys \<Rightarrow> timepoint \<times> sys" where
  "do_timepoint_calc z t s = (sys_timepoint_calc z (hist s) t, emit (TimepointCalc t) s)"

lemmas env_defs = do_port_set_enabled_def do_mac_flush_def do_vlan_enable_def
  do_reschedule_def do_mutex_init_def do_mutex_lock_def do_timepoint_calc_def

section \<open>Static well-formedness\<close>

text \<open>
  The stored index of a port is its position, and the RPL is at index 1 exactly when the
  node is its owner or its neighbour, which it is not both.
\<close>

definition idx_ok :: "erps_node \<Rightarrow> bool" where
  "idx_ok nd \<longleftrightarrow> idx (ports nd 0) = 0 \<and> idx (ports nd 1) = 1"

definition role_ok :: "erps_node \<Rightarrow> bool" where
  "role_ok nd \<longleftrightarrow> (rpl (ports nd 1) \<longleftrightarrow> rpl_owner nd \<or> rpl_nbr nd) \<and>
     \<not> (rpl_owner nd \<and> rpl_nbr nd) \<and> \<not> rpl (ports nd 0)"

lemma less_2_disj: "p < 2 \<longleftrightarrow> p = 0 \<or> p = (1::nat)"
  by auto

lemma get_node_eq [simp]:
  "idx_ok (nodes s n) \<Longrightarrow> p < 2 \<Longrightarrow> erps_link_get_node s (n, p) = n"
  by (auto simp: erps_link_get_node_def idx_ok_def lnk_def less_2_disj)

lemma other_port_simps [simp]:
  "erps_node_other_port n (n, 0) = (n, 1)"
  "erps_node_other_port n (n, Suc 0) = (n, 0)"
  by (simp_all add: erps_node_other_port_def)

lemma other_port_cases:
  "p < 2 \<Longrightarrow> erps_node_other_port n (n, p) = (n, 1 - p)"
  by (auto simp: less_2_disj)

lemma other_link_simps [simp]:
  "erps_node_other_link n None = None"
  "erps_node_other_link n (Some l) = Some (erps_node_other_port n l)"
  by (simp_all add: erps_node_other_link_def)

lemma set_all_links: "set (all_links s) = {..<nnodes s} \<times> {0, 1}"
  by (auto simp: all_links_def)

text \<open>A lookup that finds a link finds one of a node of the section whose device it is.\<close>

lemma find_Some_D: "find P xs = Some x \<Longrightarrow> x \<in> set xs \<and> P x"
  by (induction xs) (auto split: if_splits)

lemma lookup_by_iface_SomeD:
  assumes "erps_link_lookup_by_iface z i s = Some (n, p)"
  shows "n < nnodes s" "p < 2" "net_if_get_device z i = Some (dev (lnk s (n, p)))"
  using find_Some_D [OF assms [unfolded erps_link_lookup_by_iface_def]]
  by (auto simp: set_all_links)

lemma lookup_by_iface_None_iff:
  "erps_link_lookup_by_iface z i s = None \<longleftrightarrow>
     (\<forall>n < nnodes s. \<forall>p < 2. net_if_get_device z i \<noteq> Some (dev (lnk s (n, p))))"
proof -
  have "erps_link_lookup_by_iface z i s = None \<longleftrightarrow>
      (\<forall>l \<in> set (all_links s). Some (dev (lnk s l)) \<noteq> net_if_get_device z i)"
    by (auto simp: erps_link_lookup_by_iface_def find_None_iff)
  also have "\<dots> \<longleftrightarrow> (\<forall>n < nnodes s. \<forall>p < 2. net_if_get_device z i \<noteq> Some (dev (lnk s (n, p))))"
    unfolding set_all_links less_2_disj by (simp add: Ball_def) metis
  finally show ?thesis .
qed

end
