(* ===== verification/Erps_Link.thy ===== *)
theory Erps_Link
  imports Erps_Node
begin

text \<open>
  The operations of \<^verbatim>\<open>erps.c\<close> the state machine is built from: blocking and unblocking links,
  flushing the forwarding database, scheduling and stopping R-APS transmission, the guard
  timer, the WTR and WTB timers, and the transition itself.

  The second half states what every one of them keeps, whatever the environment answers: the
  relation \<open>evolves\<close>, and one continuation-style rule per operation in \<open>wp_rules\<close>.
\<close>

section \<open>Links\<close>

definition erps_flush_fdb :: "zephyr \<Rightarrow> link_ref \<Rightarrow> sys \<Rightarrow> (int \<times> sys) option" where
  "erps_flush_fdb z l s =
     (case net_if_lookup_by_dev z (dev (lnk s l)) of
        None \<Rightarrow> Some (- ENODEV, s)
      | Some iface \<Rightarrow> Some (do_mac_flush z iface s))"

definition erps_link_delete_node_id_bpr :: "link_ref \<Rightarrow> sys \<Rightarrow> sys" where
  "erps_link_delete_node_id_bpr l s =
     upd_link l (\<lambda>k. k\<lparr>bpr := 0, last_node_id := mac_zero\<rparr>) s"

definition erps_link_block :: "zephyr \<Rightarrow> link_ref \<Rightarrow> sys \<Rightarrow> (int \<times> sys) option" where
  "erps_link_block z l s =
     (if blocked (lnk s l) then Some (0, s)
      else case net_if_lookup_by_dev z (dev (lnk s l)) of
        None \<Rightarrow> Some (- ENODEV, s)
      | Some iface \<Rightarrow>
          (let (ret, s) = do_port_set_enabled z iface False s
           in if ret \<noteq> 0 then Some (ret, s)
              else
                let s = upd_link l (blocked_update (\<lambda>_. True)) s;
                    node = erps_link_get_node s l;
                    oth_lnk = erps_node_other_port node l;
                    s = erps_link_delete_node_id_bpr l s;
                    s = erps_link_delete_node_id_bpr oth_lnk s
                in case net_eth_get_vlan_iface z (hist s) iface (traffic_vid (nodes s node)) of
                     None \<Rightarrow> Some (- ENODEV, s)
                   | Some vlan_iface \<Rightarrow> Some (0, emit (IfDown vlan_iface) s)))"

definition erps_link_unblock :: "zephyr \<Rightarrow> link_ref \<Rightarrow> sys \<Rightarrow> (int \<times> sys) option" where
  "erps_link_unblock z l s =
     (let s = upd_link l (failed_update (\<lambda>_. False)) s
      in if \<not> blocked (lnk s l) then Some (0, s)
         else case net_if_lookup_by_dev z (dev (lnk s l)) of
           None \<Rightarrow> Some (- ENODEV, s)
         | Some iface \<Rightarrow>
             (let (ret, s) = do_port_set_enabled z iface True s
              in if ret \<noteq> 0 then Some (ret, s)
                 else
                   let s = upd_link l (blocked_update (\<lambda>_. False)) s;
                       node = erps_link_get_node s l
                   in case net_eth_get_vlan_iface z (hist s) iface (traffic_vid (nodes s node)) of
                        None \<Rightarrow> Some (- ENODEV, s)
                      | Some vlan_iface \<Rightarrow> Some (0, emit (IfUp vlan_iface) s)))"

definition erps_link_unblock_force :: "zephyr \<Rightarrow> link_ref \<Rightarrow> sys \<Rightarrow> (int \<times> sys) option" where
  "erps_link_unblock_force z l s =
     erps_link_unblock z l (upd_link l (blocked_update (\<lambda>_. True)) s)"

definition erps_node_unblock_all :: "zephyr \<Rightarrow> nat \<Rightarrow> sys \<Rightarrow> (int \<times> sys) option" where
  "erps_node_unblock_all z n s = for_ok [0, 1] 0 (\<lambda>i. erps_link_unblock z (n, i)) s"

definition erps_node_unblock_non_failed :: "zephyr \<Rightarrow> nat \<Rightarrow> sys \<Rightarrow> (int \<times> sys) option" where
  "erps_node_unblock_non_failed z n s =
     for_ok [0, 1] 0 (\<lambda>i s. if \<not> failed (lnk s (n, i)) then erps_link_unblock z (n, i) s
                            else Some (0, s)) s"

section \<open>Transmission\<close>

text \<open>The last element of a burst has index 0, so a burst is three PDUs. Periods are in us.\<close>

definition ERPS_RAPS_BURST :: u8 where "ERPS_RAPS_BURST = 2"
definition ERPS_TX_PERIOD :: nat where "ERPS_TX_PERIOD = 5000000"
definition ERPS_TX_BURST_PERIOD :: nat where "ERPS_TX_BURST_PERIOD = 1"

text \<open>\<open>K_USEC(lnk->tx_burst ? ERPS_TX_BURST_PERIOD : ERPS_TX_PERIOD)\<close>\<close>

definition erps_tx_delay :: "u8 \<Rightarrow> timeout" where
  "erps_tx_delay burst =
     K_USEC (if burst \<noteq> 0 then ERPS_TX_BURST_PERIOD else ERPS_TX_PERIOD)"

text \<open>The loop \<open>for (i = 0; ret >= 0 && i < 2; ++i)\<close> at the end of the scheduler.\<close>

fun erps_node_sched_ports :: "zephyr \<Rightarrow> nat \<Rightarrow> nat list \<Rightarrow> int \<Rightarrow> sys \<Rightarrow> int \<times> sys" where
  "erps_node_sched_ports z n [] ret s = (ret, s)"
| "erps_node_sched_ports z n (i # is) ret s =
     (if 0 \<le> ret then
        if \<not> net_if_is_up z (hist s) (net_if_lookup_by_dev z (dev (lnk s (n, i))))
        then erps_node_sched_ports z n is ret s
        else let (ret, s) = do_reschedule z (TxWork n i) (erps_tx_delay (tx_burst (lnk s (n, i)))) s
             in erps_node_sched_ports z n is ret s
      else (ret, s))"

definition raps_req_state_valid :: "raps_req_state \<Rightarrow> bool" where
  "raps_req_state_valid rs \<longleftrightarrow> rs \<in> {RAPS_NR, RAPS_MS, RAPS_SF, RAPS_FS, RAPS_EVENT}"

definition erps_node_sched_tx ::
    "zephyr \<Rightarrow> nat \<Rightarrow> raps_req_state \<Rightarrow> u8 \<Rightarrow> u8 \<Rightarrow> sys \<Rightarrow> (int \<times> sys) option" where
  "erps_node_sched_tx z n req_state subcode stat s =
     (if \<not> raps_req_state_valid req_state then Some (- EINVAL, s)
      else if subcode \<noteq> 0 \<and> req_state \<noteq> RAPS_EVENT then Some (- EINVAL, s)
      else
        let s = emit (WorkCancelSync (TxWork n 0)) s;
            s = emit (WorkCancelSync (TxWork n 1)) s;
            rs = raps_rs_sc req_state subcode;
            mut = pdu_mut (nodes s n);
            burst = (if mut_rs_sc mut \<noteq> rs \<or> mut_status mut \<noteq> stat
                     then ERPS_RAPS_BURST else 0);
            s = upd_node n (\<lambda>nd. nd\<lparr>pdu_mut := \<lparr>mut_rs_sc = rs, mut_status = stat\<rparr>\<rparr>) s;
            s = upd_link (n, 0) (\<lambda>k. k\<lparr>tx_burst := burst\<rparr>) s;
            s = upd_link (n, 1) (\<lambda>k. k\<lparr>tx_burst := burst\<rparr>) s;
            (ret, s) = erps_node_sched_ports z n [0, 1] 0 s
        in Some (if ret < 0 then ret else 0, s))"

definition erps_node_stop_tx :: "nat \<Rightarrow> sys \<Rightarrow> sys" where
  "erps_node_stop_tx n s = emit (WorkCancel (TxWork n 1)) (emit (WorkCancel (TxWork n 0)) s)"

section \<open>Timers and the transition\<close>

definition erps_fsm_transition :: "nat \<Rightarrow> erps_node_state \<Rightarrow> sys \<Rightarrow> sys" where
  "erps_fsm_transition n next s =
     (if state (nodes s n) = next then s else upd_node n (\<lambda>nd. nd\<lparr>state := next\<rparr>) s)"

definition erps_node_start_guard_timer :: "zephyr \<Rightarrow> nat \<Rightarrow> sys \<Rightarrow> sys" where
  "erps_node_start_guard_timer z n s =
     (let (t, s) = do_timepoint_calc z (K_MSEC (unat (guard_timer_duration (nodes s n)))) s
      in upd_node n (\<lambda>nd. nd\<lparr>guard_timer_expiry := t\<rparr>) s)"

definition erps_node_stop_wtr :: "nat \<Rightarrow> sys \<Rightarrow> sys" where
  "erps_node_stop_wtr n s = emit (WorkCancel (WtrWork n)) s"

definition erps_node_stop_wtb :: "nat \<Rightarrow> sys \<Rightarrow> sys" where
  "erps_node_stop_wtb n s = emit (WorkCancel (WtbWork n)) s"

text \<open>
  Starting a timer posts WTR_RUNNING or WTB_RUNNING to the state machine the call comes from.
  The model takes the function that posts a request as an argument here and in everything
  that calls it; the state machine closes the recursion.
\<close>

type_synonym post_fun =
  "link_ref \<Rightarrow> erps_request \<Rightarrow> raps_pdu option \<Rightarrow> sys \<Rightarrow> (int \<times> sys) option"

definition erps_node_start_timer ::
    "post_fun \<Rightarrow> zephyr \<Rightarrow> nat \<Rightarrow> work \<Rightarrow> sys \<Rightarrow> (int \<times> sys) option" where
  "erps_node_start_timer post z n dwork s =
     (if k_work_delayable_is_pending z (hist s) dwork then Some (0, s)
      else
        let (req, expiry) =
              (if dwork = WtrWork n
               then (ERPS_REQ_WTR_RUNNING, K_MINUTES (unat (wtr_duration (nodes s n))))
               else (ERPS_REQ_WTB_RUNNING, K_MSEC (unat (erps_wtb_duration s n))))
        in do {
          (_, s) \<leftarrow> post (n, 0) req None s;
          let (ret, s) = do_reschedule z dwork expiry s;
          Some (if ret < 0 then ret else 0, s)
        })"

definition erps_node_start_wtr :: "post_fun \<Rightarrow> zephyr \<Rightarrow> nat \<Rightarrow> sys \<Rightarrow> (int \<times> sys) option" where
  "erps_node_start_wtr post z n = erps_node_start_timer post z n (WtrWork n)"

definition erps_node_start_wtb :: "post_fun \<Rightarrow> zephyr \<Rightarrow> nat \<Rightarrow> sys \<Rightarrow> (int \<times> sys) option" where
  "erps_node_start_wtb post z n = erps_node_start_timer post z n (WtbWork n)"

end
