(* ===== verification/Erps_Frame.thy ===== *)
theory Erps_Frame
  imports Erps_Link
begin

text \<open>
  What every operation on a node keeps, whatever the environment answers: the relation
  \<open>evolves z n s s'\<close> between the state before and after. It says that only the node \<open>n\<close>
  changed, that its configuration did not, that the history only grew, that the operation
  left every FSM mutex alone, and that it preserved each part of the dynamic invariant,
  among them that the \<open>blocked\<close> flag of a port agrees with what the driver was last told.

  The rules in \<open>wp_rules\<close> carry \<open>stable z n s0\<close>, the relation to a fixed earlier state with
  the static well-formedness, through a sequence of operations.
\<close>

section \<open>Configuration and dynamic invariants\<close>

definition node_cfg :: "erps_node \<Rightarrow> _" where
  "node_cfg nd =
     ((revertive nd, rpl_owner nd, rpl_nbr nd, raps_ver nd, ring_id nd, raps_mel nd),
      (wtr_duration nd, guard_timer_duration nd, ctrl_vid nd, traffic_vid nd,
       net_pkt_alloc_timeout nd),
      (\<lambda>p. (rpl (ports nd p), idx (ports nd p), dev (ports nd p))))"

text \<open>The local requests that \<open>local_topreq\<close> can hold.\<close>

definition topreq_ok :: "erps_node \<Rightarrow> bool" where
  "topreq_ok nd \<longleftrightarrow> local_topreq nd \<in> {ERPS_REQ_SF, ERPS_REQ_FS, ERPS_REQ_MS,
     ERPS_REQ_WTR_RUNNING, ERPS_REQ_WTB_RUNNING, ERPS_REQ_INVALID}"

text \<open>The request byte to transmit is one with subcode 0, and no burst is over three PDUs.\<close>

definition tx_ok :: "erps_node \<Rightarrow> bool" where
  "tx_ok nd \<longleftrightarrow> mut_rs_sc (pdu_mut nd) \<in> {0x00, 0x70, 0xb0, 0xd0, 0xe0} \<and>
     tx_burst (ports nd 0) \<le> ERPS_RAPS_BURST \<and> tx_burst (ports nd 1) \<le> ERPS_RAPS_BURST"

definition started :: "erps_node \<Rightarrow> bool" where
  "started nd \<longleftrightarrow> state nd \<noteq> ERPS_STATE_UNINIT"

text \<open>The \<open>blocked\<close> flag of each port is what the driver was last told successfully.\<close>

definition hw_sync :: "zephyr \<Rightarrow> sys \<Rightarrow> nat \<Rightarrow> bool" where
  "hw_sync z s n \<longleftrightarrow> (\<forall>p < 2. \<forall>i. net_if_lookup_by_dev z (dev (lnk s (n, p))) = Some i \<longrightarrow>
     port_enabled (hist s) i = Some (\<not> blocked (lnk s (n, p))))"

text \<open>No two ring ports share an interface.\<close>

definition ifaces_distinct :: "zephyr \<Rightarrow> sys \<Rightarrow> bool" where
  "ifaces_distinct z s \<longleftrightarrow> (\<forall>l \<in> set (all_links s). \<forall>k \<in> set (all_links s). \<forall>i.
     net_if_lookup_by_dev z (dev (lnk s l)) = Some i \<and>
     net_if_lookup_by_dev z (dev (lnk s k)) = Some i \<longrightarrow> l = k)"

section \<open>The relation\<close>

definition evolves :: "zephyr \<Rightarrow> nat \<Rightarrow> sys \<Rightarrow> sys \<Rightarrow> bool" where
  "evolves z n s s' \<longleftrightarrow>
     nnodes s' = nnodes s \<and>
     (\<forall>m. m \<noteq> n \<longrightarrow> nodes s' m = nodes s m) \<and>
     node_cfg (nodes s' n) = node_cfg (nodes s n) \<and>
     (\<exists>h. hist s' = h @ hist s) \<and>
     (\<forall>m. mutex_held (hist s') m = mutex_held (hist s) m) \<and>
     (topreq_ok (nodes s n) \<longrightarrow> topreq_ok (nodes s' n)) \<and>
     (tx_ok (nodes s n) \<longrightarrow> tx_ok (nodes s' n)) \<and>
     (started (nodes s n) \<longrightarrow> started (nodes s' n)) \<and>
     (ifaces_distinct z s \<and> n < nnodes s \<longrightarrow>
       (\<forall>m < nnodes s. hw_sync z s m \<longrightarrow> hw_sync z s' m))"

lemma node_cfg_idx_ok: "node_cfg a = node_cfg b \<Longrightarrow> idx_ok a = idx_ok b"
  by (auto simp: node_cfg_def idx_ok_def fun_eq_iff)

lemma node_cfg_role_ok: "node_cfg a = node_cfg b \<Longrightarrow> role_ok a = role_ok b"
  by (auto simp: node_cfg_def role_ok_def fun_eq_iff)

lemma evolves_cfg: "evolves z n s s' \<Longrightarrow> node_cfg (nodes s' m) = node_cfg (nodes s m)"
  by (cases "m = n") (auto simp: evolves_def)

lemma evolves_dev: "evolves z n s s' \<Longrightarrow> dev (lnk s' l) = dev (lnk s l)"
  using evolves_cfg [of z n s s' "fst l"]
  by (auto simp: node_cfg_def lnk_def fun_eq_iff)

lemma evolves_nnodes: "evolves z n s s' \<Longrightarrow> nnodes s' = nnodes s"
  by (simp add: evolves_def)

lemma all_linksI: "n < nnodes s \<Longrightarrow> p < 2 \<Longrightarrow> (n, p) \<in> set (all_links s)"
  by (auto simp: set_all_links less_2_disj)

lemma ifaces_distinctD:
  assumes "ifaces_distinct z s" and "n < nnodes s" "p < 2" and "m < nnodes s" "q < 2"
    and "net_if_lookup_by_dev z (dev (lnk s (n, p))) = Some i"
    and "net_if_lookup_by_dev z (dev (lnk s (m, q))) = Some i"
  shows "(m, q) = (n, p)"
  using assms(1,6,7) all_linksI [OF assms(2,3)] all_linksI [OF assms(4,5)]
  unfolding ifaces_distinct_def by metis

lemma ifaces_distinct_cong:
  assumes "\<And>l. dev (lnk s' l) = dev (lnk s l)" and "nnodes s' = nnodes s"
  shows "ifaces_distinct z s' = ifaces_distinct z s"
  using assms by (simp add: ifaces_distinct_def set_all_links)

lemma evolves_ifaces_distinct:
  "evolves z n s s' \<Longrightarrow> ifaces_distinct z s' = ifaces_distinct z s"
  by (rule ifaces_distinct_cong) (simp_all add: evolves_dev evolves_nnodes)

lemma evolves_refl [simp]: "evolves z n s s"
  by (simp add: evolves_def)

lemma evolves_trans:
  assumes "evolves z n s t" and "evolves z n t u"
  shows "evolves z n s u"
proof -
  from assms have "\<exists>h. hist u = h @ hist s"
    unfolding evolves_def by (metis append.assoc)
  moreover have "ifaces_distinct z t = ifaces_distinct z s"
    using assms(1) by (rule evolves_ifaces_distinct)
  ultimately show ?thesis
    using assms unfolding evolves_def by simp
qed

section \<open>Single steps\<close>

text \<open>An external call that neither switches a port nor takes or gives a mutex.\<close>

fun quiet :: "action \<Rightarrow> bool" where
  "quiet (PortSetEnabled i b r) = (r \<noteq> 0)"
| "quiet (MutexLock n r) = (r \<noteq> 0)"
| "quiet (MutexUnlock n) = False"
| "quiet a = True"

lemma quiet_port_enabled: "quiet a \<Longrightarrow> port_enabled (a # h) i = port_enabled h i"
  by (cases a) auto

lemma quiet_mutex_held: "quiet a \<Longrightarrow> mutex_held (a # h) n = mutex_held h n"
  by (cases a) auto

lemma emit_simps [simp]:
  "nodes (emit a s) = nodes s" "nnodes (emit a s) = nnodes s"
  "hist (emit a s) = a # hist s" "lnk (emit a s) l = lnk s l"
  by (simp_all add: emit_def lnk_def)

lemma upd_node_simps [simp]:
  "nodes (upd_node n f s) m = (if m = n then f (nodes s n) else nodes s m)"
  "nnodes (upd_node n f s) = nnodes s" "hist (upd_node n f s) = hist s"
  by (simp_all add: upd_node_def)

lemma upd_link_simps [simp]:
  "nnodes (upd_link l f s) = nnodes s" "hist (upd_link l f s) = hist s"
  "lnk (upd_link l f s) k = (if k = l then f (lnk s l) else lnk s k)"
  by (auto simp: upd_link_def lnk_def prod_eq_iff)

lemma nodes_upd_link:
  "nodes (upd_link l f s) m = (if m = fst l then (nodes s m)
     \<lparr>ports := (ports (nodes s m))(snd l := f (ports (nodes s m) (snd l)))\<rparr> else nodes s m)"
  by (simp add: upd_link_def)

lemma evolves_emit: "quiet a \<Longrightarrow> evolves z n s (emit a s)"
  by (auto simp: evolves_def hw_sync_def quiet_port_enabled quiet_mutex_held)

lemma evolves_upd_node:
  assumes "node_cfg (f (nodes s n)) = node_cfg (nodes s n)"
    and "\<And>p. blocked (ports (f (nodes s n)) p) = blocked (ports (nodes s n) p)"
    and "topreq_ok (nodes s n) \<Longrightarrow> topreq_ok (f (nodes s n))"
    and "tx_ok (nodes s n) \<Longrightarrow> tx_ok (f (nodes s n))"
    and "started (nodes s n) \<Longrightarrow> started (f (nodes s n))"
  shows "evolves z n s (upd_node n f s)"
proof -
  have "dev (lnk (upd_node n f s) l) = dev (lnk s l)" for l
    using assms(1) by (auto simp: lnk_def node_cfg_def fun_eq_iff)
  moreover have "blocked (lnk (upd_node n f s) l) = blocked (lnk s l)" for l
    using assms(2) by (auto simp: lnk_def)
  ultimately show ?thesis
    using assms by (auto simp: evolves_def hw_sync_def)
qed

lemma evolves_upd_link:
  assumes "\<And>k. rpl (f k) = rpl k" "\<And>k. idx (f k) = idx k" "\<And>k. dev (f k) = dev k"
    and "\<And>k. blocked (f k) = blocked k"
    and "\<And>k. tx_burst k \<le> ERPS_RAPS_BURST \<Longrightarrow> tx_burst (f k) \<le> ERPS_RAPS_BURST"
  shows "evolves z n s (upd_link (n, p) f s)"
  unfolding upd_link_def fst_conv snd_conv
  using assms by (intro evolves_upd_node)
    (auto simp: node_cfg_def topreq_ok_def tx_ok_def started_def fun_eq_iff)

text \<open>Switching a port in the driver together with its flag.\<close>

lemma evolves_switch:
  assumes "net_if_lookup_by_dev z (dev (lnk s (n, p))) = Some i" and "p < 2"
  shows "evolves z n s
    (upd_link (n, p) (blocked_update (\<lambda>_. \<not> b)) (emit (PortSetEnabled i b 0) s))"
    (is "evolves z n s ?s'")
proof -
  have dev: "dev (lnk ?s' l) = dev (lnk s l)" for l
    by simp
  have hw: "hw_sync z ?s' m"
    if "ifaces_distinct z s" "n < nnodes s" "m < nnodes s" "hw_sync z s m" for m
    unfolding hw_sync_def
  proof (intro allI impI)
    fix q j
    assume q: "q < 2" and "net_if_lookup_by_dev z (dev (lnk ?s' (m, q))) = Some j"
    then have j: "net_if_lookup_by_dev z (dev (lnk s (m, q))) = Some j"
      unfolding dev by simp
    show "port_enabled (hist ?s') j = Some (\<not> blocked (lnk ?s' (m, q)))"
    proof (cases "j = i")
      case True
      have "(m, q) = (n, p)"
        using that(1-3) q assms j True by (intro ifaces_distinctD) simp_all
      with True show ?thesis by simp
    next
      case False
      with j assms have "(m, q) \<noteq> (n, p)" by auto
      with False q j that(4) show ?thesis by (auto simp: hw_sync_def)
    qed
  qed
  show ?thesis
    unfolding evolves_def using hw
    by (auto simp: nodes_upd_link node_cfg_def topreq_ok_def tx_ok_def started_def fun_eq_iff)
qed

section \<open>Sequences of operations\<close>

definition stable :: "zephyr \<Rightarrow> nat \<Rightarrow> sys \<Rightarrow> sys \<Rightarrow> bool" where
  "stable z n s0 s \<longleftrightarrow> evolves z n s0 s \<and> idx_ok (nodes s n) \<and> role_ok (nodes s n)"

lemma stable_refl: "idx_ok (nodes s n) \<Longrightarrow> role_ok (nodes s n) \<Longrightarrow> stable z n s s"
  by (simp add: stable_def)

lemma stable_step: "stable z n s0 s \<Longrightarrow> evolves z n s s' \<Longrightarrow> stable z n s0 s'"
  unfolding stable_def
  by (metis evolves_trans evolves_cfg node_cfg_idx_ok node_cfg_role_ok)

lemma stable_idx_ok: "stable z n s0 s \<Longrightarrow> idx_ok (nodes s n)"
  by (simp add: stable_def)

lemma stable_role_ok: "stable z n s0 s \<Longrightarrow> role_ok (nodes s n)"
  by (simp add: stable_def)

lemma stable_evolves: "stable z n s0 s \<Longrightarrow> evolves z n s0 s"
  by (simp add: stable_def)

lemma stable_get_node: "stable z n s0 s \<Longrightarrow> p < 2 \<Longrightarrow> erps_link_get_node s (n, p) = n"
  by (simp add: stable_def)

lemma stable_emit: "stable z n s0 s \<Longrightarrow> quiet a \<Longrightarrow> stable z n s0 (emit a s)"
  by (rule stable_step [OF _ evolves_emit])

text \<open>An operation that only ever makes \<open>evolves\<close> steps may be followed by anything stable.\<close>

lemma wp_stableI:
  assumes "wp m (\<lambda>_. evolves z n s)" and "stable z n s0 s"
    and "\<And>r s'. stable z n s0 s' \<Longrightarrow> Q r s'"
  shows "wp m Q"
  using assms(1) by (rule wp_mono) (blast intro: assms(2,3) stable_step)

section \<open>The operations\<close>

lemma evolves_flush: "wp (erps_flush_fdb z l s) (\<lambda>_. evolves z n s)"
  by (auto simp: erps_flush_fdb_def do_mac_flush_def Let_def evolves_emit
      split: option.splits)

lemma evolves_delete: "evolves z n s (erps_link_delete_node_id_bpr (n, p) s)"
  unfolding erps_link_delete_node_id_bpr_def by (rule evolves_upd_link) auto

text \<open>The state right after the driver agreed to switch a port, before the VLAN interface.\<close>

definition block_switch :: "nat \<Rightarrow> nat \<Rightarrow> net_if \<Rightarrow> sys \<Rightarrow> sys" where
  "block_switch n p i s =
     erps_link_delete_node_id_bpr (n, 1 - p) (erps_link_delete_node_id_bpr (n, p)
       (upd_link (n, p) (blocked_update (\<lambda>_. True)) (emit (PortSetEnabled i False 0) s)))"

definition unblock_switch :: "nat \<Rightarrow> nat \<Rightarrow> net_if \<Rightarrow> sys \<Rightarrow> sys" where
  "unblock_switch n p i s =
     upd_link (n, p) (blocked_update (\<lambda>_. False)) (emit (PortSetEnabled i True 0) s)"

definition unfail :: "nat \<Rightarrow> nat \<Rightarrow> sys \<Rightarrow> sys" where
  "unfail n p s = upd_link (n, p) (failed_update (\<lambda>_. False)) s"

lemma idx_ok_upd_link [simp]:
  assumes "\<And>k. idx (f k) = idx k"
  shows "idx_ok (nodes (upd_link l f s) n) = idx_ok (nodes s n)"
  using assms by (simp add: idx_ok_def nodes_upd_link)

lemma traffic_vid_upd_link [simp]: "traffic_vid (nodes (upd_link l f s) n) = traffic_vid (nodes s n)"
  by (simp add: nodes_upd_link)

lemma block_eq:
  assumes "idx_ok (nodes s n)" and "p < 2"
  shows "erps_link_block z (n, p) s =
    (if blocked (lnk s (n, p)) then Some (0, s)
     else case net_if_lookup_by_dev z (dev (lnk s (n, p))) of
       None \<Rightarrow> Some (- ENODEV, s)
     | Some i \<Rightarrow>
         (let r = net_eth_port_set_enabled z (hist s) i False
          in if r \<noteq> 0 then Some (r, emit (PortSetEnabled i False r) s)
             else case net_eth_get_vlan_iface z (PortSetEnabled i False 0 # hist s) i
                       (traffic_vid (nodes s n)) of
                    None \<Rightarrow> Some (- ENODEV, block_switch n p i s)
                  | Some v \<Rightarrow> Some (0, emit (IfDown v) (block_switch n p i s))))"
  using assms
  by (simp add: erps_link_block_def do_port_set_enabled_def block_switch_def Let_def
      erps_link_delete_node_id_bpr_def other_port_cases split: option.split)

lemma unblock_eq:
  assumes "idx_ok (nodes s n)" and "p < 2"
  shows "erps_link_unblock z (n, p) s =
    (if \<not> blocked (lnk s (n, p)) then Some (0, unfail n p s)
     else case net_if_lookup_by_dev z (dev (lnk s (n, p))) of
       None \<Rightarrow> Some (- ENODEV, unfail n p s)
     | Some i \<Rightarrow>
         (let r = net_eth_port_set_enabled z (hist s) i True
          in if r \<noteq> 0 then Some (r, emit (PortSetEnabled i True r) (unfail n p s))
             else case net_eth_get_vlan_iface z (PortSetEnabled i True 0 # hist s) i
                       (traffic_vid (nodes s n)) of
                    None \<Rightarrow> Some (- ENODEV, unblock_switch n p i (unfail n p s))
                  | Some v \<Rightarrow> Some (0, emit (IfUp v) (unblock_switch n p i (unfail n p s)))))"
  using assms
  by (simp add: erps_link_unblock_def do_port_set_enabled_def unblock_switch_def unfail_def
      Let_def split: option.split)

lemma evolves_block_switch:
  assumes "net_if_lookup_by_dev z (dev (lnk s (n, p))) = Some i" and "p < 2"
  shows "evolves z n s (block_switch n p i s)"
proof -
  have "evolves z n s (upd_link (n, p) (blocked_update (\<lambda>_. True)) (emit (PortSetEnabled i False 0) s))"
    using evolves_switch [OF assms, of False] by simp
  from evolves_trans [OF evolves_trans [OF this evolves_delete] evolves_delete]
  show ?thesis unfolding block_switch_def .
qed

lemma evolves_unblock_switch:
  assumes "net_if_lookup_by_dev z (dev (lnk s (n, p))) = Some i" and "p < 2"
  shows "evolves z n s (unblock_switch n p i s)"
  unfolding unblock_switch_def using evolves_switch [OF assms, of True] by simp

lemma evolves_unfail: "evolves z n s (unfail n p s)"
  unfolding unfail_def by (rule evolves_upd_link) auto

lemma evolves_then_emit: "evolves z n s t \<Longrightarrow> quiet a \<Longrightarrow> evolves z n s (emit a t)"
  by (blast intro: evolves_trans evolves_emit)

lemma evolves_block:
  assumes "idx_ok (nodes s n)" and "p < 2"
  shows "wp (erps_link_block z (n, p) s) (\<lambda>_. evolves z n s)"
  by (auto simp: block_eq [OF assms] Let_def evolves_emit evolves_then_emit
      evolves_block_switch assms(2) split: option.split)

lemma evolves_unblock:
  assumes "idx_ok (nodes s n)" and "p < 2"
  shows "wp (erps_link_unblock z (n, p) s) (\<lambda>_. evolves z n s)"
proof -
  have "evolves z n s (unblock_switch n p i (unfail n p s))"
    if "net_if_lookup_by_dev z (dev (lnk s (n, p))) = Some i" for i
  proof (rule evolves_trans [OF evolves_unfail evolves_unblock_switch])
    show "net_if_lookup_by_dev z (dev (lnk (unfail n p s) (n, p))) = Some i"
      using that by (simp add: unfail_def)
  qed (rule assms(2))
  then show ?thesis
    by (auto simp: unblock_eq [OF assms] Let_def evolves_then_emit evolves_unfail
        split: option.split)
qed

lemma evolves_transition: "next \<noteq> ERPS_STATE_UNINIT \<Longrightarrow> evolves z n s (erps_fsm_transition n next s)"
  unfolding erps_fsm_transition_def
  by (auto intro!: evolves_upd_node simp: node_cfg_def topreq_ok_def tx_ok_def started_def)

lemma evolves_guard: "evolves z n s (erps_node_start_guard_timer z n s)"
  unfolding erps_node_start_guard_timer_def do_timepoint_calc_def Let_def prod.case
  by (rule evolves_trans [OF evolves_emit evolves_upd_node])
    (auto simp: node_cfg_def topreq_ok_def tx_ok_def started_def)

lemma dev_upd_link [simp]:
  assumes "\<And>k. dev (f k) = dev k"
  shows "dev (ports (nodes (upd_link l f s) n) p) = dev (ports (nodes s n) p)"
  using assms by (simp add: nodes_upd_link)

lemma evolves_sched_ports:
  "evolves z n s (snd (erps_node_sched_ports z n is ret s))"
proof (induction "is" arbitrary: ret s)
  case Nil
  then show ?case by simp
next
  case (Cons i "is")
  have "evolves z n s (snd (do_reschedule z w t s))" for w t
    by (simp add: do_reschedule_def Let_def evolves_emit)
  then show ?case
    using Cons.IH by (auto simp: Let_def split: prod.split intro: evolves_trans) (metis evolves_trans snd_conv)
qed

lemma raps_rs_sc_valid:
  "raps_req_state_valid rs \<Longrightarrow> raps_rs_sc rs 0 \<in> {0x00, 0x70, 0xb0, 0xd0, 0xe0}"
  by (auto simp: raps_req_state_valid_def raps_rs_sc_def)

text \<open>The state in which the scheduler enters its loop over the ports.\<close>

definition sched_prep :: "nat \<Rightarrow> u8 \<Rightarrow> u8 \<Rightarrow> sys \<Rightarrow> sys" where
  "sched_prep n rs stat s =
     (let mut = pdu_mut (nodes s n);
          burst = (if mut_rs_sc mut \<noteq> rs \<or> mut_status mut \<noteq> stat then ERPS_RAPS_BURST else 0)
      in upd_link (n, 1) (\<lambda>k. k\<lparr>tx_burst := burst\<rparr>)
          (upd_link (n, 0) (\<lambda>k. k\<lparr>tx_burst := burst\<rparr>)
            (upd_node n (\<lambda>nd. nd\<lparr>pdu_mut := \<lparr>mut_rs_sc = rs, mut_status = stat\<rparr>\<rparr>)
              (emit (WorkCancelSync (TxWork n 1)) (emit (WorkCancelSync (TxWork n 0)) s)))))"

lemma sched_tx_eq:
  assumes "raps_req_state_valid rs"
  shows "erps_node_sched_tx z n rs 0 stat s =
    (let (ret, s) = erps_node_sched_ports z n [0, 1] 0 (sched_prep n (raps_rs_sc rs 0) stat s)
     in Some (if ret < 0 then ret else 0, s))"
  using assms by (simp add: erps_node_sched_tx_def sched_prep_def Let_def split: prod.split)

lemma evolves_sched_prep:
  assumes "rs \<in> {0x00, 0x70, 0xb0, 0xd0, 0xe0}"
  shows "evolves z n s (sched_prep n rs stat s)"
proof -
  have 1: "evolves z n t (upd_node n (\<lambda>nd. nd\<lparr>pdu_mut := \<lparr>mut_rs_sc = rs, mut_status = stat\<rparr>\<rparr>) t)" for t
    using assms by (intro evolves_upd_node) (auto simp: node_cfg_def topreq_ok_def tx_ok_def started_def)
  have 2: "evolves z n t (upd_link (n, p) (\<lambda>k. k\<lparr>tx_burst := b\<rparr>) t)"
    if "b \<le> ERPS_RAPS_BURST" for t p b
    using that by (intro evolves_upd_link) auto
  have 3: "evolves z n t (emit (WorkCancelSync w) t)" for t w
    by (simp add: evolves_emit)
  show ?thesis
    unfolding sched_prep_def Let_def
    by (rule evolves_trans [OF evolves_trans [OF evolves_trans [OF evolves_trans [OF 3 3] 1] 2] 2])
      auto
qed

lemma evolves_sched_tx: "wp (erps_node_sched_tx z n rs 0 stat s) (\<lambda>_. evolves z n s)"
proof (cases "raps_req_state_valid rs")
  case True
  have "evolves z n s (snd (erps_node_sched_ports z n [0, 1] 0 (sched_prep n (raps_rs_sc rs 0) stat s)))"
    by (rule evolves_trans [OF evolves_sched_prep [OF raps_rs_sc_valid [OF True]] evolves_sched_ports])
  then show ?thesis
    unfolding sched_tx_eq [OF True]
    by (simp add: case_prod_beta Let_def del: erps_node_sched_ports.simps)
next
  case False
  then show ?thesis by (simp add: erps_node_sched_tx_def)
qed

section \<open>Rules\<close>

text \<open>Each operation may be followed by whatever holds in every stable state.\<close>

lemma wp_block [wp_rules]:
  assumes "stable z n s0 s" and "p < 2" and "\<And>r s'. stable z n s0 s' \<Longrightarrow> Q r s'"
  shows "wp (erps_link_block z (n, p) s) Q"
  using evolves_block [OF stable_idx_ok [OF assms(1)] assms(2)] assms(1,3)
  by (rule wp_stableI)

lemma wp_unblock [wp_rules]:
  assumes "stable z n s0 s" and "p < 2" and "\<And>r s'. stable z n s0 s' \<Longrightarrow> Q r s'"
  shows "wp (erps_link_unblock z (n, p) s) Q"
  using evolves_unblock [OF stable_idx_ok [OF assms(1)] assms(2)] assms(1,3)
  by (rule wp_stableI)

lemma wp_unblock_all [wp_rules]:
  assumes "stable z n s0 s" and "\<And>r s'. stable z n s0 s' \<Longrightarrow> Q r s'"
  shows "wp (erps_node_unblock_all z n s) Q"
proof -
  have "wp (erps_node_unblock_all z n s) (\<lambda>_. stable z n s0)"
    unfolding erps_node_unblock_all_def
    by (rule wp_for_ok [where J = "stable z n s0"]) (auto intro: wp_unblock assms(1))
  then show ?thesis by (rule wp_mono) (rule assms(2))
qed

lemma wp_unblock_non_failed [wp_rules]:
  assumes "stable z n s0 s" and "\<And>r s'. stable z n s0 s' \<Longrightarrow> Q r s'"
  shows "wp (erps_node_unblock_non_failed z n s) Q"
proof -
  have "wp (erps_node_unblock_non_failed z n s) (\<lambda>_. stable z n s0)"
    unfolding erps_node_unblock_non_failed_def
    by (rule wp_for_ok [where J = "stable z n s0"]) (auto intro: wp_unblock assms(1))
  then show ?thesis by (rule wp_mono) (rule assms(2))
qed

lemma wp_flush [wp_rules]:
  assumes "stable z n s0 s" and "\<And>r s'. stable z n s0 s' \<Longrightarrow> Q r s'"
  shows "wp (erps_flush_fdb z l s) Q"
  using evolves_flush assms by (rule wp_stableI)

lemma wp_sched_tx [wp_rules]:
  assumes "stable z n s0 s" and "\<And>r s'. stable z n s0 s' \<Longrightarrow> Q r s'"
  shows "wp (erps_node_sched_tx z n rs 0 stat s) Q"
  using evolves_sched_tx assms by (rule wp_stableI)

lemma stable_transition [simp, intro!]:
  "stable z n s0 s \<Longrightarrow> next \<noteq> ERPS_STATE_UNINIT \<Longrightarrow> stable z n s0 (erps_fsm_transition n next s)"
  by (blast intro: stable_step evolves_transition)

lemma stable_guard [simp, intro!]:
  "stable z n s0 s \<Longrightarrow> stable z n s0 (erps_node_start_guard_timer z n s)"
  by (blast intro: stable_step evolves_guard)

lemma stable_stops [simp, intro!]:
  assumes "stable z n s0 s"
  shows "stable z n s0 (erps_node_stop_tx n s)" "stable z n s0 (erps_node_stop_wtr n s)"
    "stable z n s0 (erps_node_stop_wtb n s)"
  using assms by (auto simp: erps_node_stop_tx_def erps_node_stop_wtr_def erps_node_stop_wtb_def
      intro!: stable_emit)

section \<open>The interface the timers need of the state machine\<close>

text \<open>
  What posting a \<open>..._RUNNING\<close> request does: it becomes the local top request when it is of no
  lower priority, and nothing else happens.
\<close>

definition note_running :: "nat \<Rightarrow> erps_request \<Rightarrow> sys \<Rightarrow> sys" where
  "note_running n req s =
     (if req \<le> local_topreq (nodes s n)
      then upd_node n (\<lambda>nd. nd\<lparr>local_topreq := req\<rparr>) s else s)"

definition running_reqs :: "erps_request set" where
  "running_reqs = {ERPS_REQ_WTR_RUNNING, ERPS_REQ_WTB_RUNNING}"

locale running_post =
  fixes post :: post_fun
  assumes post_running:
    "idx_ok (nodes s n) \<Longrightarrow> req \<in> running_reqs \<Longrightarrow>
      post (n, 0) req None s = Some (0, note_running n req s)"
begin

lemma evolves_note_running: "req \<in> running_reqs \<Longrightarrow> evolves z n s (note_running n req s)"
  unfolding note_running_def running_reqs_def
  by (auto intro!: evolves_upd_node simp: node_cfg_def topreq_ok_def tx_ok_def started_def)

lemma start_timer_eq:
  assumes "idx_ok (nodes s n)"
  shows "erps_node_start_timer post z n dwork s =
    (if k_work_delayable_is_pending z (hist s) dwork then Some (0, s)
     else
       let (req, expiry) =
             (if dwork = WtrWork n
              then (ERPS_REQ_WTR_RUNNING, K_MINUTES (unat (wtr_duration (nodes s n))))
              else (ERPS_REQ_WTB_RUNNING, K_MSEC (unat (erps_wtb_duration s n))));
           s = note_running n req s;
           ret = k_work_reschedule z (hist s) dwork expiry
       in Some (if ret < 0 then ret else 0, emit (WorkReschedule dwork expiry ret) s))"
  using post_running [OF assms] unfolding erps_node_start_timer_def
  by (auto simp: running_reqs_def Let_def do_reschedule_def)

lemma wp_start_timer:
  assumes "stable z n s0 s" and "\<And>r s'. stable z n s0 s' \<Longrightarrow> Q r s'"
  shows "wp (erps_node_start_timer post z n dwork s) Q"
proof -
  have "stable z n s0 (emit (WorkReschedule w t r) (note_running n req s))"
    if "req \<in> running_reqs" for w t r req
    using stable_step [OF assms(1) evolves_note_running [OF that]] by (rule stable_emit) simp
  then show ?thesis
    using assms by (auto simp: start_timer_eq stable_idx_ok running_reqs_def Let_def)
qed

lemma wp_start_wtr:
  assumes "stable z n s0 s" and "\<And>r s'. stable z n s0 s' \<Longrightarrow> Q r s'"
  shows "wp (erps_node_start_wtr post z n s) Q"
  unfolding erps_node_start_wtr_def using assms by (rule wp_start_timer)

lemma wp_start_wtb:
  assumes "stable z n s0 s" and "\<And>r s'. stable z n s0 s' \<Longrightarrow> Q r s'"
  shows "wp (erps_node_start_wtb post z n s) Q"
  unfolding erps_node_start_wtb_def using assms by (rule wp_start_timer)

end

end
