(* ===== verification/Erps_Fsm_Common.thy ===== *)
theory Erps_Fsm_Common
  imports Erps_Frame
begin

text \<open>
  \<^verbatim>\<open>erps-fsm-common.c\<close> and the inline functions of \<^verbatim>\<open>erps-fsm.h\<close>: the parts of request
  handling that several FSM states share. A handler whose source logs the error and returns
  it is the handler without the log.
\<close>

definition erps_fsm_fs_sf_ms ::
    "zephyr \<Rightarrow> link_ref \<Rightarrow> raps_req_state \<Rightarrow> erps_node_state \<Rightarrow> sys \<Rightarrow> (int \<times> sys) option" where
  "erps_fsm_fs_sf_ms z l req_state next_state s = do {
     let node = erps_link_get_node s l;
     let oth_lnk = erps_node_other_port node l;
     let stat = (if erps_link_is_blocked s l then RAPS_DNF else 0);
     (ret, s) \<leftarrow> (if \<not> erps_link_is_blocked s l then erps_link_block z l s else Some (0, s));
     (ret, s) \<leftarrow> on_ok ret s (erps_node_sched_tx z node req_state 0 stat);
     (ret, s) \<leftarrow> on_ok ret s (erps_link_unblock z oth_lnk);
     (ret, s) \<leftarrow> on_ok ret s (\<lambda>s. if stat = 0 then erps_flush_fdb z l s else Some (0, s));
     let s = (if ret = 0 then erps_fsm_transition node next_state s else s);
     Some (ret, s)
   }"

definition erps_fsm_fs_common :: "zephyr \<Rightarrow> link_ref \<Rightarrow> sys \<Rightarrow> (int \<times> sys) option" where
  "erps_fsm_fs_common z l = erps_fsm_fs_sf_ms z l RAPS_FS ERPS_STATE_FORCED_SWITCH"

definition erps_fsm_sf_common :: "zephyr \<Rightarrow> link_ref \<Rightarrow> sys \<Rightarrow> (int \<times> sys) option" where
  "erps_fsm_sf_common z l = erps_fsm_fs_sf_ms z l RAPS_SF ERPS_STATE_PROTECTION"

definition erps_fsm_ms_common :: "zephyr \<Rightarrow> link_ref \<Rightarrow> sys \<Rightarrow> (int \<times> sys) option" where
  "erps_fsm_ms_common z l = erps_fsm_fs_sf_ms z l RAPS_MS ERPS_STATE_MANUAL_SWITCH"

definition erps_fsm_unblock_and_stop ::
    "zephyr \<Rightarrow> link_ref \<Rightarrow> bool \<Rightarrow> erps_node_state \<Rightarrow> sys \<Rightarrow> (int \<times> sys) option" where
  "erps_fsm_unblock_and_stop z l only_non_failed next_state s = do {
     let node = erps_link_get_node s l;
     (ret, s) \<leftarrow> (if only_non_failed then erps_node_unblock_non_failed z node s
                 else erps_node_unblock_all z node s);
     let s = (if ret = 0 then erps_fsm_transition node next_state (erps_node_stop_tx node s)
              else s);
     Some (ret, s)
   }"

definition erps_fsm_raps_fs_common :: "zephyr \<Rightarrow> link_ref \<Rightarrow> sys \<Rightarrow> (int \<times> sys) option" where
  "erps_fsm_raps_fs_common z l = erps_fsm_unblock_and_stop z l False ERPS_STATE_FORCED_SWITCH"

definition erps_fsm_raps_sf_common :: "zephyr \<Rightarrow> link_ref \<Rightarrow> sys \<Rightarrow> (int \<times> sys) option" where
  "erps_fsm_raps_sf_common z l = erps_fsm_unblock_and_stop z l True ERPS_STATE_PROTECTION"

definition erps_fsm_raps_ms_common :: "zephyr \<Rightarrow> link_ref \<Rightarrow> sys \<Rightarrow> (int \<times> sys) option" where
  "erps_fsm_raps_ms_common z l = erps_fsm_unblock_and_stop z l True ERPS_STATE_MANUAL_SWITCH"

text \<open>The assertion on the PDU comes first; without a PDU there is no result.\<close>

definition erps_fsm_maybe_unblock_and_stop ::
    "zephyr \<Rightarrow> link_ref \<Rightarrow> raps_pdu option \<Rightarrow> sys \<Rightarrow> (int \<times> sys) option" where
  "erps_fsm_maybe_unblock_and_stop z l pdu s =
     (let node = erps_link_get_node s l
      in case pdu of
           None \<Rightarrow> None
         | Some pdu \<Rightarrow>
             (case erps_link_get_node_id z l s of
                Inl ret \<Rightarrow> Some (ret, s)
              | Inr mac \<Rightarrow>
                  if memcmp (mac_bytes (node_id (raps_info pdu))) (mac_bytes mac) \<le> 0
                  then Some (0, s)
                  else do {
                    (ret, s) \<leftarrow> erps_node_unblock_non_failed z node s;
                    Some (ret, if ret = 0 then erps_node_stop_tx node s else s)
                  }))"

definition erps_fsm_clear_common :: "post_fun \<Rightarrow> zephyr \<Rightarrow> link_ref \<Rightarrow> sys \<Rightarrow> (int \<times> sys) option" where
  "erps_fsm_clear_common post z l s = do {
     let node = erps_link_get_node s l;
     let rpl_owner = erps_node_is_rpl_owner s node;
     (ret, s) \<leftarrow>
       (if erps_node_any_link_blocked s node then do {
          let s = erps_node_start_guard_timer z node s;
          (ret, s) \<leftarrow> erps_node_sched_tx z node RAPS_NR 0 0 s;
          if ret = 0 \<and> rpl_owner \<and> erps_node_is_revertive s node
          then erps_node_start_wtb post z node s else Some (ret, s)
        } else Some (0, s));
     let s = (if ret = 0 then erps_fsm_transition node ERPS_STATE_PENDING s else s);
     Some (ret, s)
   }"

section \<open>What they keep\<close>

lemma other_port_stable [simp]: "p < 2 \<Longrightarrow> erps_node_other_port n (n, p) = (n, 1 - p)"
  by (rule other_port_cases)

lemma wp_fs_sf_ms [wp_rules]:
  assumes "stable z n s0 s" and "p < 2" and "next \<noteq> ERPS_STATE_UNINIT"
    and "\<And>r s'. stable z n s0 s' \<Longrightarrow> Q r s'"
  shows "wp (erps_fsm_fs_sf_ms z (n, p) rs next s) Q"
  using assms
  by (auto simp: erps_fsm_fs_sf_ms_def on_ok_def Let_def stable_get_node intro!: wp_rules)

lemma wp_unblock_and_stop [wp_rules]:
  assumes "stable z n s0 s" and "p < 2" and "next \<noteq> ERPS_STATE_UNINIT"
    and "\<And>r s'. stable z n s0 s' \<Longrightarrow> Q r s'"
  shows "wp (erps_fsm_unblock_and_stop z (n, p) b next s) Q"
  using assms
  by (auto simp: erps_fsm_unblock_and_stop_def Let_def stable_get_node intro!: wp_rules)

lemma wp_maybe_unblock_and_stop [wp_rules]:
  assumes "stable z n s0 s" and "p < 2" and "\<And>r s'. stable z n s0 s' \<Longrightarrow> Q r s'"
  shows "wp (erps_fsm_maybe_unblock_and_stop z (n, p) (Some pdu) s) Q"
  using assms
  by (auto simp: erps_fsm_maybe_unblock_and_stop_def Let_def stable_get_node
      intro!: wp_rules split: sum.split)

lemmas fsm_common_defs = erps_fsm_fs_common_def erps_fsm_sf_common_def erps_fsm_ms_common_def
  erps_fsm_raps_fs_common_def erps_fsm_raps_sf_common_def erps_fsm_raps_ms_common_def

context running_post
begin

lemma wp_clear_common:
  assumes "stable z n s0 s" and "p < 2" and "\<And>r s'. stable z n s0 s' \<Longrightarrow> Q r s'"
  shows "wp (erps_fsm_clear_common post z (n, p) s) Q"
  using assms
  by (auto simp: erps_fsm_clear_common_def Let_def stable_get_node
      intro!: wp_rules wp_start_wtb)

end

end
