(* ===== verification/Erps_Fsm_Idle.thy ===== *)
theory Erps_Fsm_Idle
  imports Erps_Fsm_Common
begin

text \<open>\<^verbatim>\<open>erps-fsm-idle.c\<close>: request handling in state A, IDLE (Table 10-2, rows 2 to 15).\<close>

definition erps_fsm_fs_idle :: "zephyr \<Rightarrow> link_ref \<Rightarrow> sys \<Rightarrow> (int \<times> sys) option" where
  "erps_fsm_fs_idle z l = erps_fsm_fs_common z l"

definition erps_fsm_raps_fs_idle :: "zephyr \<Rightarrow> link_ref \<Rightarrow> sys \<Rightarrow> (int \<times> sys) option" where
  "erps_fsm_raps_fs_idle z l = erps_fsm_raps_fs_common z l"

definition erps_fsm_sf_idle :: "zephyr \<Rightarrow> link_ref \<Rightarrow> sys \<Rightarrow> (int \<times> sys) option" where
  "erps_fsm_sf_idle z l = erps_fsm_sf_common z l"

definition erps_fsm_raps_sf_idle :: "zephyr \<Rightarrow> link_ref \<Rightarrow> sys \<Rightarrow> (int \<times> sys) option" where
  "erps_fsm_raps_sf_idle z l = erps_fsm_raps_sf_common z l"

definition erps_fsm_raps_ms_idle :: "zephyr \<Rightarrow> link_ref \<Rightarrow> sys \<Rightarrow> (int \<times> sys) option" where
  "erps_fsm_raps_ms_idle z l = erps_fsm_raps_ms_common z l"

definition erps_fsm_ms_idle :: "zephyr \<Rightarrow> link_ref \<Rightarrow> sys \<Rightarrow> (int \<times> sys) option" where
  "erps_fsm_ms_idle z l = erps_fsm_ms_common z l"

definition erps_fsm_raps_nr_rb_idle :: "zephyr \<Rightarrow> link_ref \<Rightarrow> sys \<Rightarrow> (int \<times> sys) option" where
  "erps_fsm_raps_nr_rb_idle z l s = do {
     let node = erps_link_get_node s l;
     let rpl_lnk = erps_node_get_rpl s node;
     let non_rpl = erps_node_other_link node rpl_lnk;
     (ret, s) \<leftarrow> (case non_rpl of None \<Rightarrow> Some (0, s)
                 | Some non_rpl \<Rightarrow> erps_link_unblock z non_rpl s);
     let s = (if ret = 0 \<and> \<not> erps_node_is_rpl_owner s node then erps_node_stop_tx node s
              else s);
     Some (ret, s)
   }"

definition erps_fsm_raps_nr_idle ::
    "zephyr \<Rightarrow> link_ref \<Rightarrow> raps_pdu option \<Rightarrow> sys \<Rightarrow> (int \<times> sys) option" where
  "erps_fsm_raps_nr_idle z l pdu s =
     (let node = erps_link_get_node s l
      in if erps_node_is_rpl_owner s node \<or> erps_node_is_rpl_nbr s node then Some (0, s)
         else erps_fsm_maybe_unblock_and_stop z l pdu s)"

definition erps_fsm_post_idle ::
    "zephyr \<Rightarrow> link_ref \<Rightarrow> erps_request \<Rightarrow> raps_pdu option \<Rightarrow> sys \<Rightarrow> (int \<times> sys) option" where
  "erps_fsm_post_idle z l req pdu s = (case req of
     ERPS_REQ_CLEAR \<Rightarrow> Some (0, s)
   | ERPS_REQ_FS \<Rightarrow> erps_fsm_fs_idle z l s
   | ERPS_REQ_RAPS_FS \<Rightarrow> erps_fsm_raps_fs_idle z l s
   | ERPS_REQ_SF \<Rightarrow> erps_fsm_sf_idle z l s
   | ERPS_REQ_CLEAR_SF \<Rightarrow> Some (0, s)
   | ERPS_REQ_RAPS_SF \<Rightarrow> erps_fsm_raps_sf_idle z l s
   | ERPS_REQ_RAPS_MS \<Rightarrow> erps_fsm_raps_ms_idle z l s
   | ERPS_REQ_MS \<Rightarrow> erps_fsm_ms_idle z l s
   | ERPS_REQ_WTR_EXPIRES \<Rightarrow> Some (0, s)
   | ERPS_REQ_WTR_RUNNING \<Rightarrow> Some (0, s)
   | ERPS_REQ_WTB_EXPIRES \<Rightarrow> Some (0, s)
   | ERPS_REQ_WTB_RUNNING \<Rightarrow> Some (0, s)
   | ERPS_REQ_RAPS_NR_RB \<Rightarrow> erps_fsm_raps_nr_rb_idle z l s
   | ERPS_REQ_RAPS_NR \<Rightarrow> erps_fsm_raps_nr_idle z l pdu s
   | ERPS_REQ_INVALID \<Rightarrow> Some (- EINVAL, s))"

lemmas fsm_idle_defs = erps_fsm_fs_idle_def erps_fsm_raps_fs_idle_def erps_fsm_sf_idle_def
  erps_fsm_raps_sf_idle_def erps_fsm_raps_ms_idle_def erps_fsm_ms_idle_def

lemma wp_raps_nr_rb_idle:
  assumes "stable z n s0 s" and "p < 2" and "\<And>r s'. stable z n s0 s' \<Longrightarrow> Q r s'"
  shows "wp (erps_fsm_raps_nr_rb_idle z (n, p) s) Q"
  using assms
  by (auto simp: erps_fsm_raps_nr_rb_idle_def erps_node_get_rpl_def Let_def stable_get_node
      intro!: wp_rules split: option.split)

lemma wp_post_idle [wp_rules]:
  assumes "stable z n s0 s" and "p < 2" and "req = ERPS_REQ_RAPS_NR \<Longrightarrow> pdu \<noteq> None"
    and "\<And>r s'. stable z n s0 s' \<Longrightarrow> Q r s'"
  shows "wp (erps_fsm_post_idle z (n, p) req pdu s) Q"
  using assms
  by (cases req)
    (auto simp: erps_fsm_post_idle_def fsm_idle_defs fsm_common_defs erps_fsm_raps_nr_idle_def
      Let_def intro!: wp_rules wp_raps_nr_rb_idle)

end
