(* ===== verification/Erps_Fsm_Protection.thy ===== *)
theory Erps_Fsm_Protection
  imports Erps_Fsm_Common
begin

text \<open>
  \<^verbatim>\<open>erps-fsm-protection.c\<close>: request handling in state B, PROTECTION (Table 10-2, rows 16
  to 29).
\<close>

definition erps_fsm_fs_protection :: "zephyr \<Rightarrow> link_ref \<Rightarrow> sys \<Rightarrow> (int \<times> sys) option" where
  "erps_fsm_fs_protection z l = erps_fsm_fs_common z l"

definition erps_fsm_raps_fs_protection :: "zephyr \<Rightarrow> link_ref \<Rightarrow> sys \<Rightarrow> (int \<times> sys) option" where
  "erps_fsm_raps_fs_protection z l = erps_fsm_raps_fs_common z l"

definition erps_fsm_sf_protection :: "zephyr \<Rightarrow> link_ref \<Rightarrow> sys \<Rightarrow> (int \<times> sys) option" where
  "erps_fsm_sf_protection z l = erps_fsm_sf_common z l"

definition erps_fsm_clear_sf_protection ::
    "post_fun \<Rightarrow> zephyr \<Rightarrow> link_ref \<Rightarrow> sys \<Rightarrow> (int \<times> sys) option" where
  "erps_fsm_clear_sf_protection post z l s = do {
     let node = erps_link_get_node s l;
     let s = erps_node_start_guard_timer z node s;
     (ret, s) \<leftarrow> erps_node_sched_tx z node RAPS_NR 0 0 s;
     let rpl_owner = erps_node_is_rpl_owner s node;
     (ret, s) \<leftarrow> (if ret = 0 \<and> rpl_owner \<and> erps_node_is_revertive s node
                 then erps_node_start_wtr post z node s else Some (ret, s));
     let s = (if ret = 0 then erps_fsm_transition node ERPS_STATE_PENDING s else s);
     Some (ret, s)
   }"

definition erps_fsm_raps_nr_protection ::
    "post_fun \<Rightarrow> zephyr \<Rightarrow> link_ref \<Rightarrow> bool \<Rightarrow> sys \<Rightarrow> (int \<times> sys) option" where
  "erps_fsm_raps_nr_protection post z l rb s = do {
     let node = erps_link_get_node s l;
     let rpl_owner = erps_node_is_rpl_owner s node;
     (ret, s) \<leftarrow> (if \<not> rb \<and> rpl_owner \<and> erps_node_is_revertive s node
                 then erps_node_start_wtr post z node s else Some (0, s));
     let s = (if ret = 0 then erps_fsm_transition node ERPS_STATE_PENDING s else s);
     Some (ret, s)
   }"

definition erps_fsm_post_protection ::
    "post_fun \<Rightarrow> zephyr \<Rightarrow> link_ref \<Rightarrow> erps_request \<Rightarrow> sys \<Rightarrow> (int \<times> sys) option" where
  "erps_fsm_post_protection post z l req s = (case req of
     ERPS_REQ_CLEAR \<Rightarrow> Some (0, s)
   | ERPS_REQ_FS \<Rightarrow> erps_fsm_fs_protection z l s
   | ERPS_REQ_RAPS_FS \<Rightarrow> erps_fsm_raps_fs_protection z l s
   | ERPS_REQ_SF \<Rightarrow> erps_fsm_sf_protection z l s
   | ERPS_REQ_CLEAR_SF \<Rightarrow> erps_fsm_clear_sf_protection post z l s
   | ERPS_REQ_RAPS_SF \<Rightarrow> Some (0, s)
   | ERPS_REQ_RAPS_MS \<Rightarrow> Some (0, s)
   | ERPS_REQ_MS \<Rightarrow> Some (0, s)
   | ERPS_REQ_WTR_EXPIRES \<Rightarrow> Some (0, s)
   | ERPS_REQ_WTR_RUNNING \<Rightarrow> Some (0, s)
   | ERPS_REQ_WTB_EXPIRES \<Rightarrow> Some (0, s)
   | ERPS_REQ_WTB_RUNNING \<Rightarrow> Some (0, s)
   | ERPS_REQ_RAPS_NR_RB \<Rightarrow> erps_fsm_raps_nr_protection post z l True s
   | ERPS_REQ_RAPS_NR \<Rightarrow> erps_fsm_raps_nr_protection post z l False s
   | ERPS_REQ_INVALID \<Rightarrow> Some (- EINVAL, s))"

lemmas fsm_protection_defs = erps_fsm_fs_protection_def erps_fsm_raps_fs_protection_def
  erps_fsm_sf_protection_def

context running_post
begin

lemma wp_post_protection:
  assumes "stable z n s0 s" and "p < 2" and "\<And>r s'. stable z n s0 s' \<Longrightarrow> Q r s'"
  shows "wp (erps_fsm_post_protection post z (n, p) req s) Q"
  using assms
  by (cases req)
    (auto simp: erps_fsm_post_protection_def fsm_protection_defs fsm_common_defs
      erps_fsm_clear_sf_protection_def erps_fsm_raps_nr_protection_def Let_def stable_get_node
      intro!: wp_rules wp_start_wtr)

end

end
