(* ===== verification/Erps_Fsm_Manual.thy ===== *)
theory Erps_Fsm_Manual
  imports Erps_Fsm_Common
begin

text \<open>
  \<^verbatim>\<open>erps-fsm-manual-switch.c\<close>: request handling in state C, MANUAL SWITCH (Table 10-2,
  rows 30 to 43).
\<close>

definition erps_fsm_clear_ms :: "post_fun \<Rightarrow> zephyr \<Rightarrow> link_ref \<Rightarrow> sys \<Rightarrow> (int \<times> sys) option" where
  "erps_fsm_clear_ms post z l = erps_fsm_clear_common post z l"

definition erps_fsm_fs_ms :: "zephyr \<Rightarrow> link_ref \<Rightarrow> sys \<Rightarrow> (int \<times> sys) option" where
  "erps_fsm_fs_ms z l = erps_fsm_fs_common z l"

definition erps_fsm_raps_fs_ms :: "zephyr \<Rightarrow> link_ref \<Rightarrow> sys \<Rightarrow> (int \<times> sys) option" where
  "erps_fsm_raps_fs_ms z l = erps_fsm_raps_fs_common z l"

definition erps_fsm_sf_ms :: "zephyr \<Rightarrow> link_ref \<Rightarrow> sys \<Rightarrow> (int \<times> sys) option" where
  "erps_fsm_sf_ms z l = erps_fsm_sf_common z l"

definition erps_fsm_raps_sf_ms :: "zephyr \<Rightarrow> link_ref \<Rightarrow> sys \<Rightarrow> (int \<times> sys) option" where
  "erps_fsm_raps_sf_ms z l = erps_fsm_raps_sf_common z l"

text \<open>The pair after the inner block is the return code and the state to go to next.\<close>

definition erps_fsm_raps_ms_ms ::
    "post_fun \<Rightarrow> zephyr \<Rightarrow> link_ref \<Rightarrow> sys \<Rightarrow> (int \<times> sys) option" where
  "erps_fsm_raps_ms_ms post z l s = do {
     let node = erps_link_get_node s l;
     ((ret, next), s) \<leftarrow>
       (if erps_node_any_link_blocked s node then do {
          let s = erps_node_start_guard_timer z node s;
          (ret, s) \<leftarrow> erps_node_sched_tx z node RAPS_NR 0 0 s;
          let rpl_owner = erps_node_is_rpl_owner s node;
          if ret = 0 \<and> rpl_owner \<and> erps_node_is_revertive s node
          then do {
            (ret, s) \<leftarrow> erps_node_start_wtb post z node s;
            Some ((ret, ERPS_STATE_PENDING), s)
          }
          else Some ((ret, ERPS_STATE_MANUAL_SWITCH), s)
        } else Some ((0, ERPS_STATE_MANUAL_SWITCH), s));
     let s = (if ret = 0 then erps_fsm_transition node next s else s);
     Some (ret, s)
   }"

definition erps_fsm_raps_nr_ms ::
    "post_fun \<Rightarrow> zephyr \<Rightarrow> link_ref \<Rightarrow> bool \<Rightarrow> sys \<Rightarrow> (int \<times> sys) option" where
  "erps_fsm_raps_nr_ms post z l rb s = do {
     let node = erps_link_get_node s l;
     let rpl_owner = erps_node_is_rpl_owner s node;
     (ret, s) \<leftarrow> (if \<not> rb \<and> rpl_owner \<and> erps_node_is_revertive s node
                 then erps_node_start_wtb post z node s else Some (0, s));
     let s = (if ret = 0 then erps_fsm_transition node ERPS_STATE_PENDING s else s);
     Some (ret, s)
   }"

definition erps_fsm_post_manual_switch ::
    "post_fun \<Rightarrow> zephyr \<Rightarrow> link_ref \<Rightarrow> erps_request \<Rightarrow> sys \<Rightarrow> (int \<times> sys) option" where
  "erps_fsm_post_manual_switch post z l req s = (case req of
     ERPS_REQ_CLEAR \<Rightarrow> erps_fsm_clear_ms post z l s
   | ERPS_REQ_FS \<Rightarrow> erps_fsm_fs_ms z l s
   | ERPS_REQ_RAPS_FS \<Rightarrow> erps_fsm_raps_fs_ms z l s
   | ERPS_REQ_SF \<Rightarrow> erps_fsm_sf_ms z l s
   | ERPS_REQ_CLEAR_SF \<Rightarrow> Some (0, s)
   | ERPS_REQ_RAPS_SF \<Rightarrow> erps_fsm_raps_sf_ms z l s
   | ERPS_REQ_RAPS_MS \<Rightarrow> erps_fsm_raps_ms_ms post z l s
   | ERPS_REQ_MS \<Rightarrow> Some (0, s)
   | ERPS_REQ_WTR_EXPIRES \<Rightarrow> Some (0, s)
   | ERPS_REQ_WTR_RUNNING \<Rightarrow> Some (0, s)
   | ERPS_REQ_WTB_EXPIRES \<Rightarrow> Some (0, s)
   | ERPS_REQ_WTB_RUNNING \<Rightarrow> Some (0, s)
   | ERPS_REQ_RAPS_NR_RB \<Rightarrow> erps_fsm_raps_nr_ms post z l True s
   | ERPS_REQ_RAPS_NR \<Rightarrow> erps_fsm_raps_nr_ms post z l False s
   | ERPS_REQ_INVALID \<Rightarrow> Some (- EINVAL, s))"

lemmas fsm_manual_defs = erps_fsm_clear_ms_def erps_fsm_fs_ms_def erps_fsm_raps_fs_ms_def
  erps_fsm_sf_ms_def erps_fsm_raps_sf_ms_def

context running_post
begin

lemma wp_raps_ms_ms:
  assumes "stable z n s0 s" and "p < 2" and "\<And>r s'. stable z n s0 s' \<Longrightarrow> Q r s'"
  shows "wp (erps_fsm_raps_ms_ms post z (n, p) s) Q"
  using assms
  by (auto simp: erps_fsm_raps_ms_ms_def Let_def stable_get_node intro!: wp_rules wp_start_wtb)

lemma wp_post_manual_switch:
  assumes "stable z n s0 s" and "p < 2" and "\<And>r s'. stable z n s0 s' \<Longrightarrow> Q r s'"
  shows "wp (erps_fsm_post_manual_switch post z (n, p) req s) Q"
  using assms
  by (cases req)
    (auto simp: erps_fsm_post_manual_switch_def fsm_manual_defs fsm_common_defs
      erps_fsm_raps_nr_ms_def Let_def stable_get_node
      intro!: wp_rules wp_start_wtb wp_raps_ms_ms wp_clear_common)

end

end
