(* ===== verification/Erps_Fsm_Forced.thy ===== *)
theory Erps_Fsm_Forced
  imports Erps_Fsm_Common
begin

text \<open>
  \<^verbatim>\<open>erps-fsm-forced-switch.c\<close>: request handling in state D, FORCED SWITCH (Table 10-2,
  rows 44 to 57).
\<close>

definition erps_fsm_clear_fs :: "post_fun \<Rightarrow> zephyr \<Rightarrow> link_ref \<Rightarrow> sys \<Rightarrow> (int \<times> sys) option" where
  "erps_fsm_clear_fs post z l = erps_fsm_clear_common post z l"

definition erps_fsm_fs_fs :: "zephyr \<Rightarrow> link_ref \<Rightarrow> sys \<Rightarrow> (int \<times> sys) option" where
  "erps_fsm_fs_fs z l s = do {
     let node = erps_link_get_node s l;
     (ret, s) \<leftarrow> erps_link_block z l s;
     (ret, s) \<leftarrow> on_ok ret s (erps_node_sched_tx z node RAPS_FS 0 0);
     on_ok ret s (erps_flush_fdb z l)
   }"

definition erps_fsm_raps_nr_fs ::
    "post_fun \<Rightarrow> zephyr \<Rightarrow> link_ref \<Rightarrow> bool \<Rightarrow> sys \<Rightarrow> (int \<times> sys) option" where
  "erps_fsm_raps_nr_fs post z l rb s = do {
     let node = erps_link_get_node s l;
     let rpl_owner = erps_node_is_rpl_owner s node;
     (ret, s) \<leftarrow> (if \<not> rb \<and> rpl_owner \<and> erps_node_is_revertive s node
                 then erps_node_start_wtb post z node s else Some (0, s));
     let s = (if ret = 0 then erps_fsm_transition node ERPS_STATE_PENDING s else s);
     Some (ret, s)
   }"

definition erps_fsm_post_forced_switch ::
    "post_fun \<Rightarrow> zephyr \<Rightarrow> link_ref \<Rightarrow> erps_request \<Rightarrow> sys \<Rightarrow> (int \<times> sys) option" where
  "erps_fsm_post_forced_switch post z l req s = (case req of
     ERPS_REQ_CLEAR \<Rightarrow> erps_fsm_clear_fs post z l s
   | ERPS_REQ_FS \<Rightarrow> erps_fsm_fs_fs z l s
   | ERPS_REQ_RAPS_FS \<Rightarrow> Some (0, s)
   | ERPS_REQ_SF \<Rightarrow> Some (0, s)
   | ERPS_REQ_CLEAR_SF \<Rightarrow> Some (0, s)
   | ERPS_REQ_RAPS_SF \<Rightarrow> Some (0, s)
   | ERPS_REQ_RAPS_MS \<Rightarrow> Some (0, s)
   | ERPS_REQ_MS \<Rightarrow> Some (0, s)
   | ERPS_REQ_WTR_EXPIRES \<Rightarrow> Some (0, s)
   | ERPS_REQ_WTR_RUNNING \<Rightarrow> Some (0, s)
   | ERPS_REQ_WTB_EXPIRES \<Rightarrow> Some (0, s)
   | ERPS_REQ_WTB_RUNNING \<Rightarrow> Some (0, s)
   | ERPS_REQ_RAPS_NR_RB \<Rightarrow> erps_fsm_raps_nr_fs post z l True s
   | ERPS_REQ_RAPS_NR \<Rightarrow> erps_fsm_raps_nr_fs post z l False s
   | ERPS_REQ_INVALID \<Rightarrow> Some (- EINVAL, s))"

context running_post
begin

lemma wp_post_forced_switch:
  assumes "stable z n s0 s" and "p < 2" and "\<And>r s'. stable z n s0 s' \<Longrightarrow> Q r s'"
  shows "wp (erps_fsm_post_forced_switch post z (n, p) req s) Q"
  using assms
  by (cases req)
    (auto simp: erps_fsm_post_forced_switch_def erps_fsm_clear_fs_def erps_fsm_fs_fs_def
      erps_fsm_raps_nr_fs_def on_ok_def Let_def stable_get_node
      intro!: wp_rules wp_start_wtb wp_clear_common)

end

end
