(* ===== verification/Erps_Fsm_Pending.thy ===== *)
theory Erps_Fsm_Pending
  imports Erps_Fsm_Common
begin

text \<open>
  \<^verbatim>\<open>erps-fsm-pending.c\<close>: request handling in state E, PENDING (Table 10-2, rows 58 to 71).
\<close>

text \<open>\<open>if (erps_node_is_rpl_owner(node)) { stop_wtr; stop_wtb; }\<close>, which six handlers have.\<close>

definition erps_stop_timers_if_owner :: "nat \<Rightarrow> sys \<Rightarrow> sys" where
  "erps_stop_timers_if_owner n s =
     (if erps_node_is_rpl_owner s n then erps_node_stop_wtb n (erps_node_stop_wtr n s) else s)"

text \<open>
  What \<open>erps_fsm_clear_pending\<close> and \<open>erps_fsm_timer_expires_pending\<close> both do with the RPL:
  block it, announce NR,RB, unblock the other link, flush unless it was blocked already.
\<close>

definition erps_pending_block_rpl ::
    "zephyr \<Rightarrow> link_ref \<Rightarrow> nat \<Rightarrow> link_ref \<Rightarrow> link_ref \<Rightarrow> sys \<Rightarrow> (int \<times> sys) option" where
  "erps_pending_block_rpl z l node rpl_lnk non_rpl s = do {
     let was_blocked = erps_link_is_blocked s rpl_lnk;
     let stat = (if was_blocked then RAPS_RB OR RAPS_DNF
                 else (RAPS_RB OR RAPS_DNF) AND NOT RAPS_DNF);
     (ret, s) \<leftarrow> (if \<not> was_blocked then erps_link_block z rpl_lnk s else Some (0, s));
     (ret, s) \<leftarrow> on_ok ret s (erps_node_sched_tx z node RAPS_NR 0 stat);
     (ret, s) \<leftarrow> on_ok ret s (erps_link_unblock z non_rpl);
     on_ok ret s (\<lambda>s. if stat AND RAPS_DNF = 0 then erps_flush_fdb z l s else Some (0, s))
   }"

definition erps_fsm_clear_pending :: "zephyr \<Rightarrow> link_ref \<Rightarrow> sys \<Rightarrow> (int \<times> sys) option" where
  "erps_fsm_clear_pending z l s = do {
     let node = erps_link_get_node s l;
     let rpl_lnk = erps_node_get_rpl s node;
     let non_rpl = erps_node_other_link node rpl_lnk;
     let s = erps_stop_timers_if_owner node s;
     (ret, s) \<leftarrow> (case (rpl_lnk, non_rpl) of
                    (None, _) \<Rightarrow> Some (0, s)
                  | (Some rpl_lnk, None) \<Rightarrow> None
                  | (Some rpl_lnk, Some non_rpl) \<Rightarrow> erps_pending_block_rpl z l node rpl_lnk non_rpl s);
     let s = (if ret = 0 then erps_fsm_transition node ERPS_STATE_IDLE s else s);
     Some (ret, s)
   }"

definition erps_fsm_fs_pending :: "zephyr \<Rightarrow> link_ref \<Rightarrow> sys \<Rightarrow> (int \<times> sys) option" where
  "erps_fsm_fs_pending z l s = do {
     let node = erps_link_get_node s l;
     (ret, s) \<leftarrow> erps_fsm_fs_common z l s;
     Some (ret, if ret = 0 then erps_stop_timers_if_owner node s else s)
   }"

definition erps_fsm_raps_fs_pending :: "zephyr \<Rightarrow> link_ref \<Rightarrow> sys \<Rightarrow> (int \<times> sys) option" where
  "erps_fsm_raps_fs_pending z l s = do {
     let node = erps_link_get_node s l;
     (ret, s) \<leftarrow> erps_fsm_raps_fs_common z l s;
     Some (ret, if ret = 0 then erps_stop_timers_if_owner node s else s)
   }"

definition erps_fsm_sf_pending :: "zephyr \<Rightarrow> link_ref \<Rightarrow> sys \<Rightarrow> (int \<times> sys) option" where
  "erps_fsm_sf_pending z l s = do {
     let node = erps_link_get_node s l;
     (ret, s) \<leftarrow> erps_fsm_sf_common z l s;
     Some (ret, if ret = 0 then erps_stop_timers_if_owner node s else s)
   }"

definition erps_fsm_raps_sf_pending :: "zephyr \<Rightarrow> link_ref \<Rightarrow> sys \<Rightarrow> (int \<times> sys) option" where
  "erps_fsm_raps_sf_pending z l s = do {
     let node = erps_link_get_node s l;
     (ret, s) \<leftarrow> erps_fsm_raps_sf_common z l s;
     Some (ret, if ret = 0 then erps_stop_timers_if_owner node s else s)
   }"

definition erps_fsm_raps_ms_pending :: "zephyr \<Rightarrow> link_ref \<Rightarrow> sys \<Rightarrow> (int \<times> sys) option" where
  "erps_fsm_raps_ms_pending z l s = do {
     let node = erps_link_get_node s l;
     (ret, s) \<leftarrow> erps_fsm_raps_ms_common z l s;
     Some (ret, if ret = 0 then erps_stop_timers_if_owner node s else s)
   }"

definition erps_fsm_ms_pending :: "zephyr \<Rightarrow> link_ref \<Rightarrow> sys \<Rightarrow> (int \<times> sys) option" where
  "erps_fsm_ms_pending z l s =
     (let node = erps_link_get_node s l
      in erps_fsm_ms_common z l (erps_stop_timers_if_owner node s))"

definition erps_fsm_timer_expires_pending :: "zephyr \<Rightarrow> link_ref \<Rightarrow> sys \<Rightarrow> (int \<times> sys) option" where
  "erps_fsm_timer_expires_pending z l s = do {
     let node = erps_link_get_node s l;
     rpl_lnk \<leftarrow> erps_node_get_rpl s node;
     non_rpl \<leftarrow> erps_node_other_link node (Some rpl_lnk);
     (ret, s) \<leftarrow> erps_pending_block_rpl z l node rpl_lnk non_rpl s;
     let s = (if ret = 0 then erps_fsm_transition node ERPS_STATE_IDLE s else s);
     Some (ret, s)
   }"

definition erps_fsm_wtr_expires_pending :: "zephyr \<Rightarrow> link_ref \<Rightarrow> sys \<Rightarrow> (int \<times> sys) option" where
  "erps_fsm_wtr_expires_pending z l s =
     (let node = erps_link_get_node s l
      in if erps_node_is_rpl_owner s node
         then erps_fsm_timer_expires_pending z l (erps_node_stop_wtb node s)
         else Some (0, s))"

definition erps_fsm_wtb_expires_pending :: "zephyr \<Rightarrow> link_ref \<Rightarrow> sys \<Rightarrow> (int \<times> sys) option" where
  "erps_fsm_wtb_expires_pending z l s =
     (let node = erps_link_get_node s l
      in if erps_node_is_rpl_owner s node
         then erps_fsm_timer_expires_pending z l (erps_node_stop_wtr node s)
         else Some (0, s))"

text \<open>
  The \<open>switch\<close> on \<open>(rpl_owner << 1) | rpl_nbr\<close>; its \<open>default\<close> is \<open>CODE_UNREACHABLE\<close>, and the
  two assertions of the neighbour's case come before anything is done.
\<close>

definition erps_fsm_raps_nr_rb_pending :: "zephyr \<Rightarrow> link_ref \<Rightarrow> sys \<Rightarrow> (int \<times> sys) option" where
  "erps_fsm_raps_nr_rb_pending z l s = do {
     let node = erps_link_get_node s l;
     let rpl_nbr = erps_node_is_rpl_nbr s node;
     let rpl_owner = erps_node_is_rpl_owner s node;
     (ret, s) \<leftarrow>
       (case (rpl_owner, rpl_nbr) of
          (True, False) \<Rightarrow> Some (0, erps_node_stop_wtb node (erps_node_stop_wtr node s))
        | (False, False) \<Rightarrow> do {
            (ret, s) \<leftarrow> erps_node_unblock_all z node s;
            Some (ret, if ret = 0 then erps_node_stop_tx node s else s)
          }
        | (False, True) \<Rightarrow> do {
            rpl_lnk \<leftarrow> erps_node_get_rpl s node;
            non_rpl \<leftarrow> erps_node_other_link node (Some rpl_lnk);
            (ret, s) \<leftarrow> erps_link_block z rpl_lnk s;
            (ret, s) \<leftarrow> on_ok ret s (erps_link_unblock z non_rpl);
            Some (ret, if ret = 0 then erps_node_stop_tx node s else s)
          }
        | (True, True) \<Rightarrow> None);
     let s = (if ret = 0 then erps_fsm_transition node ERPS_STATE_IDLE s else s);
     Some (ret, s)
   }"

definition erps_fsm_raps_nr_pending ::
    "zephyr \<Rightarrow> link_ref \<Rightarrow> raps_pdu option \<Rightarrow> sys \<Rightarrow> (int \<times> sys) option" where
  "erps_fsm_raps_nr_pending z l pdu = erps_fsm_maybe_unblock_and_stop z l pdu"

definition erps_fsm_post_pending ::
    "zephyr \<Rightarrow> link_ref \<Rightarrow> erps_request \<Rightarrow> raps_pdu option \<Rightarrow> sys \<Rightarrow> (int \<times> sys) option" where
  "erps_fsm_post_pending z l req pdu s = (case req of
     ERPS_REQ_CLEAR \<Rightarrow> erps_fsm_clear_pending z l s
   | ERPS_REQ_FS \<Rightarrow> erps_fsm_fs_pending z l s
   | ERPS_REQ_RAPS_FS \<Rightarrow> erps_fsm_raps_fs_pending z l s
   | ERPS_REQ_SF \<Rightarrow> erps_fsm_sf_pending z l s
   | ERPS_REQ_CLEAR_SF \<Rightarrow> Some (0, s)
   | ERPS_REQ_RAPS_SF \<Rightarrow> erps_fsm_raps_sf_pending z l s
   | ERPS_REQ_RAPS_MS \<Rightarrow> erps_fsm_raps_ms_pending z l s
   | ERPS_REQ_MS \<Rightarrow> erps_fsm_ms_pending z l s
   | ERPS_REQ_WTR_EXPIRES \<Rightarrow> erps_fsm_wtr_expires_pending z l s
   | ERPS_REQ_WTR_RUNNING \<Rightarrow> Some (0, s)
   | ERPS_REQ_WTB_EXPIRES \<Rightarrow> erps_fsm_wtb_expires_pending z l s
   | ERPS_REQ_WTB_RUNNING \<Rightarrow> Some (0, s)
   | ERPS_REQ_RAPS_NR_RB \<Rightarrow> erps_fsm_raps_nr_rb_pending z l s
   | ERPS_REQ_RAPS_NR \<Rightarrow> erps_fsm_raps_nr_pending z l pdu s
   | ERPS_REQ_INVALID \<Rightarrow> Some (- EINVAL, s))"

section \<open>What they keep\<close>

lemma stable_stop_timers [simp, intro!]:
  "stable z n s0 s \<Longrightarrow> stable z n s0 (erps_stop_timers_if_owner n s)"
  by (simp add: erps_stop_timers_if_owner_def)

lemma owner_get_rpl:
  assumes "stable z n s0 s"
  shows "erps_node_get_rpl s n =
    (if erps_node_is_rpl_owner s n \<or> erps_node_is_rpl_nbr s n then Some (n, 1) else None)"
  using stable_role_ok [OF assms]
  by (auto simp: erps_node_get_rpl_def role_ok_def erps_node_is_rpl_owner_def
      erps_node_is_rpl_nbr_def)

lemma not_owner_and_nbr:
  "stable z n s0 s \<Longrightarrow> \<not> (erps_node_is_rpl_owner s n \<and> erps_node_is_rpl_nbr s n)"
  by (auto dest!: stable_role_ok simp: role_ok_def erps_node_is_rpl_owner_def
      erps_node_is_rpl_nbr_def)

lemma is_rpl_owner_stops [simp]:
  "erps_node_is_rpl_owner (erps_node_stop_wtr m s) n = erps_node_is_rpl_owner s n"
  "erps_node_is_rpl_owner (erps_node_stop_wtb m s) n = erps_node_is_rpl_owner s n"
  by (simp_all add: erps_node_is_rpl_owner_def erps_node_stop_wtr_def erps_node_stop_wtb_def)

lemma wp_pending_block_rpl [wp_rules]:
  assumes "stable z n s0 s" and "q < 2" and "r < 2" and "\<And>r s'. stable z n s0 s' \<Longrightarrow> Q r s'"
  shows "wp (erps_pending_block_rpl z l n (n, q) (n, r) s) Q"
  using assms
  by (auto simp: erps_pending_block_rpl_def on_ok_def Let_def intro!: wp_rules)

lemma wp_clear_pending:
  assumes "stable z n s0 s" and "p < 2" and "\<And>r s'. stable z n s0 s' \<Longrightarrow> Q r s'"
  shows "wp (erps_fsm_clear_pending z (n, p) s) Q"
  using assms
  by (auto simp: erps_fsm_clear_pending_def Let_def stable_get_node owner_get_rpl
      intro!: wp_rules)

lemma wp_timer_expires_pending:
  assumes "stable z n s0 s" and "p < 2" and "erps_node_is_rpl_owner s n"
    and "\<And>r s'. stable z n s0 s' \<Longrightarrow> Q r s'"
  shows "wp (erps_fsm_timer_expires_pending z (n, p) s) Q"
  using assms
  by (auto simp: erps_fsm_timer_expires_pending_def Let_def stable_get_node owner_get_rpl
      intro!: wp_rules)

lemma wp_raps_nr_rb_pending:
  assumes "stable z n s0 s" and "p < 2" and "\<And>r s'. stable z n s0 s' \<Longrightarrow> Q r s'"
  shows "wp (erps_fsm_raps_nr_rb_pending z (n, p) s) Q"
  using assms not_owner_and_nbr [OF assms(1)]
  by (auto simp: erps_fsm_raps_nr_rb_pending_def Let_def stable_get_node owner_get_rpl on_ok_def
      intro!: wp_rules split: bool.split)

lemma wp_post_pending [wp_rules]:
  assumes "stable z n s0 s" and "p < 2" and "req = ERPS_REQ_RAPS_NR \<Longrightarrow> pdu \<noteq> None"
    and "\<And>r s'. stable z n s0 s' \<Longrightarrow> Q r s'"
  shows "wp (erps_fsm_post_pending z (n, p) req pdu s) Q"
  using assms
  by (cases req)
    (auto simp: erps_fsm_post_pending_def erps_fsm_fs_pending_def erps_fsm_raps_fs_pending_def
      erps_fsm_sf_pending_def erps_fsm_raps_sf_pending_def erps_fsm_raps_ms_pending_def
      erps_fsm_ms_pending_def erps_fsm_wtr_expires_pending_def erps_fsm_wtb_expires_pending_def
      erps_fsm_raps_nr_pending_def fsm_common_defs Let_def stable_get_node
      intro!: wp_rules wp_clear_pending wp_timer_expires_pending wp_raps_nr_rb_pending)

end
