(* ===== verification/Erps_Fsm.thy ===== *)
theory Erps_Fsm
  imports Erps_Fsm_Idle Erps_Fsm_Protection Erps_Fsm_Manual Erps_Fsm_Forced Erps_Fsm_Pending
begin

text \<open>
  The state machine as a whole: the priority logic of \<^verbatim>\<open>erps.c\<close> (Sections 10.1.1 and 10.1.9),
  the dispatch on the FSM state, and the ways in: \<open>erps_fsm_post\<close> under the node's mutex,
  \<open>net_erps_fsm_post\<close> by interface, \<open>net_erps_ctl\<close> of \<^verbatim>\<open>erps-ctl.c\<close> for external events.

  Starting a timer posts a \<open>..._RUNNING\<close> request from inside a handler. The model closes this
  recursion with fuel, and \<open>post_fuel_enough\<close> says that 2 is enough: a
  \<open>..._RUNNING\<close> request never starts a timer.
\<close>

section \<open>Priority logic\<close>

definition erps_local_clear_valid :: "sys \<Rightarrow> nat \<Rightarrow> erps_request \<Rightarrow> bool" where
  "erps_local_clear_valid s n req =
     (case local_topreq (nodes s n) of
        ERPS_REQ_FS \<Rightarrow> True
      | ERPS_REQ_MS \<Rightarrow> True
      | _ \<Rightarrow> (case min req (local_topreq (nodes s n)) of
               ERPS_REQ_RAPS_FS \<Rightarrow> False
             | ERPS_REQ_RAPS_MS \<Rightarrow> False
             | _ \<Rightarrow> erps_node_is_rpl_owner s n))"

definition erps_fsm_resolve_req_prio :: "nat \<Rightarrow> erps_request \<Rightarrow> sys \<Rightarrow> int \<times> sys" where
  "erps_fsm_resolve_req_prio n req s =
     (if req = ERPS_REQ_CLEAR \<and> \<not> erps_local_clear_valid s n req then (- EBUSY, s)
      else
        let s = (if req = ERPS_REQ_CLEAR_SF \<and> local_topreq (nodes s n) = ERPS_REQ_SF
                 then upd_node n (\<lambda>nd. nd\<lparr>local_topreq := ERPS_REQ_INVALID\<rparr>) s else s)
        in if req \<le> local_topreq (nodes s n)
           then (0, upd_node n (\<lambda>nd. nd\<lparr>local_topreq :=
                   (if req \<in> {ERPS_REQ_SF, ERPS_REQ_FS, ERPS_REQ_MS, ERPS_REQ_WTR_RUNNING,
                              ERPS_REQ_WTB_RUNNING}
                    then req else ERPS_REQ_INVALID)\<rparr>) s)
           else (- EBUSY, s))"

section \<open>Dispatch\<close>

definition erps_fsm_post_body ::
    "post_fun \<Rightarrow> zephyr \<Rightarrow> link_ref \<Rightarrow> erps_request \<Rightarrow> raps_pdu option \<Rightarrow> sys \<Rightarrow>
      (int \<times> sys) option" where
  "erps_fsm_post_body post z l req pdu s =
     (let node = erps_link_get_node s l;
          s = (if req = ERPS_REQ_CLEAR_SF
               then emit (WorkCancel (LinkDownWork (fst l) (snd l))) s else s);
          (ret, s) = erps_fsm_resolve_req_prio node req s
      in if ret = - EBUSY then Some (0, s)
         else
           let s = (if req = ERPS_REQ_SF then upd_link l (failed_update (\<lambda>_. True)) s else s)
           in if req = ERPS_REQ_CLEAR_SF \<and> rpl (lnk s l) \<and>
                 state (nodes s node) \<noteq> ERPS_STATE_PROTECTION
              then Some (0, s)
              else (case state (nodes s node) of
                  ERPS_STATE_IDLE \<Rightarrow> erps_fsm_post_idle z l req pdu s
                | ERPS_STATE_PROTECTION \<Rightarrow> erps_fsm_post_protection post z l req s
                | ERPS_STATE_MANUAL_SWITCH \<Rightarrow> erps_fsm_post_manual_switch post z l req s
                | ERPS_STATE_FORCED_SWITCH \<Rightarrow> erps_fsm_post_forced_switch post z l req s
                | ERPS_STATE_PENDING \<Rightarrow> erps_fsm_post_pending z l req pdu s
                | ERPS_STATE_UNINIT \<Rightarrow>
                    if req = ERPS_REQ_WTR_RUNNING then Some (0, s) else Some (ret, s)))"

fun erps_fsm_post_locked_fuel :: "nat \<Rightarrow> zephyr \<Rightarrow> post_fun" where
  "erps_fsm_post_locked_fuel 0 z l req pdu s = None"
| "erps_fsm_post_locked_fuel (Suc k) z l req pdu s =
     erps_fsm_post_body (erps_fsm_post_locked_fuel k z) z l req pdu s"

definition erps_fsm_post_locked :: "zephyr \<Rightarrow> post_fun" where
  "erps_fsm_post_locked z = erps_fsm_post_locked_fuel 2 z"

section \<open>Ways in\<close>

definition erps_fsm_post :: "zephyr \<Rightarrow> post_fun" where
  "erps_fsm_post z l req pdu s =
     (let node = erps_link_get_node s l;
          (ret, s) = do_mutex_lock z node (K_MSEC 250) s
      in if ret \<noteq> 0 then Some (ret, s)
         else do {
           (ret, s) \<leftarrow> erps_fsm_post_locked z l req pdu s;
           Some (ret, emit (MutexUnlock node) s)
         })"

definition net_erps_fsm_post ::
    "zephyr \<Rightarrow> net_if option \<Rightarrow> erps_request \<Rightarrow> sys \<Rightarrow> (int \<times> sys) option" where
  "net_erps_fsm_post z iface req s =
     (case erps_link_lookup_by_iface z iface s of
        None \<Rightarrow> Some (- ENODEV, s)
      | Some l \<Rightarrow> erps_fsm_post z l req None s)"

text \<open>
  \<open>enum erps_event\<close>, with a value outside the enumeration, which C allows the caller to pass.
\<close>

datatype erps_event = ERPS_SIGNAL_FAIL | ERPS_CLEAR_SIGNAL_FAIL | ERPS_ADM_CLEAR
  | ERPS_ADM_FORCED_SWITCH | ERPS_ADM_MANUAL_SWITCH | ERPS_EVENT_OTHER int

definition net_erps_ctl :: "zephyr \<Rightarrow> net_if option \<Rightarrow> erps_event \<Rightarrow> sys \<Rightarrow> (int \<times> sys) option" where
  "net_erps_ctl z iface ev s = (case ev of
     ERPS_SIGNAL_FAIL \<Rightarrow> net_erps_fsm_post z iface ERPS_REQ_SF s
   | ERPS_CLEAR_SIGNAL_FAIL \<Rightarrow> net_erps_fsm_post z iface ERPS_REQ_CLEAR_SF s
   | ERPS_ADM_CLEAR \<Rightarrow> net_erps_fsm_post z iface ERPS_REQ_CLEAR s
   | ERPS_ADM_FORCED_SWITCH \<Rightarrow> net_erps_fsm_post z iface ERPS_REQ_FS s
   | ERPS_ADM_MANUAL_SWITCH \<Rightarrow> net_erps_fsm_post z iface ERPS_REQ_MS s
   | ERPS_EVENT_OTHER _ \<Rightarrow> Some (- EINVAL, s))"

section \<open>The recursion\<close>

text \<open>A \<open>..._RUNNING\<close> request does not reach the function it is given.\<close>

lemma post_body_running:
  assumes "idx_ok (nodes s n)" and "req \<in> running_reqs"
  shows "erps_fsm_post_body post z (n, 0) req None s = Some (0, note_running n req s)"
  using assms
  by (auto simp: erps_fsm_post_body_def erps_fsm_resolve_req_prio_def note_running_def
      running_reqs_def erps_fsm_post_idle_def erps_fsm_post_protection_def
      erps_fsm_post_manual_switch_def erps_fsm_post_forced_switch_def erps_fsm_post_pending_def
      Let_def split: erps_node_state.split)

lemma post_body_running_any:
  assumes "req \<in> running_reqs"
  shows "erps_fsm_post_body post z l req None s = erps_fsm_post_body post' z l req None s"
  using assms
  by (auto simp: erps_fsm_post_body_def running_reqs_def erps_fsm_post_protection_def
      erps_fsm_post_manual_switch_def erps_fsm_post_forced_switch_def
      Let_def split: erps_node_state.split prod.split)

lemma start_timer_cong:
  assumes "\<And>n req s. req \<in> running_reqs \<Longrightarrow> post (n, 0) req None s = post' (n, 0) req None s"
  shows "erps_node_start_wtr post = erps_node_start_wtr post'"
    and "erps_node_start_wtb post = erps_node_start_wtb post'"
  using assms
  by (auto simp: fun_eq_iff erps_node_start_wtr_def erps_node_start_wtb_def
      erps_node_start_timer_def running_reqs_def)

lemma post_body_cong:
  assumes "\<And>n req s. req \<in> running_reqs \<Longrightarrow> post (n, 0) req None s = post' (n, 0) req None s"
  shows "erps_fsm_post_body post z l req pdu s = erps_fsm_post_body post' z l req pdu s"
proof -
  have tc: "erps_node_start_wtr post = erps_node_start_wtr post'"
    "erps_node_start_wtb post = erps_node_start_wtb post'"
    by (rule start_timer_cong, rule assms, assumption)+
  have cc: "erps_fsm_clear_common post z l s = erps_fsm_clear_common post' z l s" for s
    unfolding erps_fsm_clear_common_def tc by (rule refl)
  have p: "erps_fsm_post_protection post z l req s = erps_fsm_post_protection post' z l req s" for s
    unfolding erps_fsm_post_protection_def erps_fsm_clear_sf_protection_def
      erps_fsm_raps_nr_protection_def tc by (rule refl)
  have m: "erps_fsm_post_manual_switch post z l req s = erps_fsm_post_manual_switch post' z l req s"
    for s
    unfolding erps_fsm_post_manual_switch_def erps_fsm_clear_ms_def erps_fsm_raps_ms_ms_def
      erps_fsm_raps_nr_ms_def tc cc by (rule refl)
  have f: "erps_fsm_post_forced_switch post z l req s = erps_fsm_post_forced_switch post' z l req s"
    for s
    unfolding erps_fsm_post_forced_switch_def erps_fsm_clear_fs_def erps_fsm_raps_nr_fs_def tc cc
    by (rule refl)
  show ?thesis
    unfolding erps_fsm_post_body_def p m f by (rule refl)
qed

text \<open>The state machine provides the interface its timers need.\<close>

interpretation running: running_post "erps_fsm_post_locked_fuel (Suc k) z" for z k
  by unfold_locales (simp add: post_body_running)

text \<open>Fuel 2 is enough: more never changes a result.\<close>

lemma post_fuel_enough: "erps_fsm_post_locked_fuel (k + 2) z = erps_fsm_post_locked z"
proof (intro ext)
  fix l req pdu s
  have "erps_fsm_post_locked_fuel (Suc k) z (n, 0) r None t =
      erps_fsm_post_locked_fuel (Suc 0) z (n, 0) r None t" if "r \<in> running_reqs" for n r t
    unfolding erps_fsm_post_locked_fuel.simps using that by (rule post_body_running_any)
  then have "erps_fsm_post_body (erps_fsm_post_locked_fuel (Suc k) z) z l req pdu s =
      erps_fsm_post_body (erps_fsm_post_locked_fuel (Suc 0) z) z l req pdu s"
    by (rule post_body_cong)
  then show "erps_fsm_post_locked_fuel (k + 2) z l req pdu s = erps_fsm_post_locked z l req pdu s"
    by (simp only: erps_fsm_post_locked_def numeral_2_eq_2 add_Suc_right add_0_right
        erps_fsm_post_locked_fuel.simps)
qed

section \<open>What posting keeps\<close>

lemma evolves_topreq:
  assumes "r \<in> {ERPS_REQ_SF, ERPS_REQ_FS, ERPS_REQ_MS, ERPS_REQ_WTR_RUNNING,
    ERPS_REQ_WTB_RUNNING, ERPS_REQ_INVALID}"
  shows "evolves z n s (upd_node n (\<lambda>nd. nd\<lparr>local_topreq := r\<rparr>) s)"
  using assms
  by (intro evolves_upd_node) (auto simp: node_cfg_def topreq_ok_def tx_ok_def started_def)

lemma evolves_resolve: "evolves z n s (snd (erps_fsm_resolve_req_prio n req s))"
proof -
  define t where "t = (if req = ERPS_REQ_CLEAR_SF \<and> local_topreq (nodes s n) = ERPS_REQ_SF
     then upd_node n (\<lambda>nd. nd\<lparr>local_topreq := ERPS_REQ_INVALID\<rparr>) s else s)"
  have t: "evolves z n s t"
    unfolding t_def by (auto intro: evolves_topreq)
  have "evolves z n t (upd_node n (\<lambda>nd. nd\<lparr>local_topreq :=
      (if req \<in> {ERPS_REQ_SF, ERPS_REQ_FS, ERPS_REQ_MS, ERPS_REQ_WTR_RUNNING,
                 ERPS_REQ_WTB_RUNNING} then req else ERPS_REQ_INVALID)\<rparr>) t)"
    by (rule evolves_topreq) auto
  with t show ?thesis
    unfolding erps_fsm_resolve_req_prio_def Let_def t_def [symmetric]
    by (auto intro: evolves_trans)
qed

lemma resolve_ret: "fst (erps_fsm_resolve_req_prio n req s) \<in> {0, - EBUSY}"
  by (simp add: erps_fsm_resolve_req_prio_def Let_def)

lemma evolves_mark_failed: "evolves z n s (upd_link (n, p) (failed_update (\<lambda>_. b)) s)"
  by (rule evolves_upd_link) auto

lemma wp_post_body:
  assumes "running_post post" and "stable z n s0 s" and "p < 2"
    and "req = ERPS_REQ_RAPS_NR \<Longrightarrow> pdu \<noteq> None"
    and Q: "\<And>r s'. stable z n s0 s' \<Longrightarrow> Q r s'"
  shows "wp (erps_fsm_post_body post z (n, p) req pdu s) Q"
proof -
  define t where "t = (if req = ERPS_REQ_CLEAR_SF
    then emit (WorkCancel (LinkDownWork n p)) s else s)"
  obtain ret u where u: "erps_fsm_resolve_req_prio n req t = (ret, u)" by fastforce
  define v where "v = (if req = ERPS_REQ_SF then upd_link (n, p) (failed_update (\<lambda>_. True)) u else u)"
  have st: "stable z n s0 t"
    unfolding t_def using assms(2) by (auto intro: stable_emit)
  then have su: "stable z n s0 u"
    using stable_step [OF st evolves_resolve [of z n t req]] u by simp
  then have sv: "stable z n s0 v"
    unfolding v_def by (auto intro: stable_step evolves_mark_failed)
  note wps = running_post.wp_post_protection [OF assms(1)]
    running_post.wp_post_manual_switch [OF assms(1)]
    running_post.wp_post_forced_switch [OF assms(1)]
  have "erps_fsm_post_body post z (n, p) req pdu s =
    (if ret = - EBUSY then Some (0, u)
     else if req = ERPS_REQ_CLEAR_SF \<and> rpl (lnk v (n, p)) \<and>
             state (nodes v n) \<noteq> ERPS_STATE_PROTECTION
     then Some (0, v)
     else (case state (nodes v n) of
         ERPS_STATE_IDLE \<Rightarrow> erps_fsm_post_idle z (n, p) req pdu v
       | ERPS_STATE_PROTECTION \<Rightarrow> erps_fsm_post_protection post z (n, p) req v
       | ERPS_STATE_MANUAL_SWITCH \<Rightarrow> erps_fsm_post_manual_switch post z (n, p) req v
       | ERPS_STATE_FORCED_SWITCH \<Rightarrow> erps_fsm_post_forced_switch post z (n, p) req v
       | ERPS_STATE_PENDING \<Rightarrow> erps_fsm_post_pending z (n, p) req pdu v
       | ERPS_STATE_UNINIT \<Rightarrow>
           if req = ERPS_REQ_WTR_RUNNING then Some (0, v) else Some (ret, v)))"
    unfolding erps_fsm_post_body_def stable_get_node [OF assms(2,3)] Let_def fst_conv snd_conv
      t_def [symmetric] u prod.case v_def [symmetric] by (rule refl)
  then show ?thesis
    using su sv assms(3,4)
    by (auto intro!: wp_rules wps Q split: erps_node_state.split)
qed

lemma wp_post_locked:
  assumes "stable z n s0 s" and "p < 2" and "req = ERPS_REQ_RAPS_NR \<Longrightarrow> pdu \<noteq> None"
    and "\<And>r s'. stable z n s0 s' \<Longrightarrow> Q r s'"
  shows "wp (erps_fsm_post_locked z (n, p) req pdu s) Q"
  using wp_post_body [OF running.running_post_axioms assms]
  by (simp add: erps_fsm_post_locked_def numeral_2_eq_2)

end
