(* ===== verification/Erps_Tx.thy ===== *)
theory Erps_Tx
  imports Erps_Fsm
begin

text \<open>
  The transmit path of \<^verbatim>\<open>erps.c\<close>: composing an R-APS PDU in a packet, sending it on the control
  VLAN, and the work item that sends one PDU and schedules the next. None of it can be
  undefined, so these functions return their result without \<open>option\<close>.
\<close>

section \<open>Calls\<close>

definition do_pkt_alloc ::
    "zephyr \<Rightarrow> net_if option \<Rightarrow> nat \<Rightarrow> timeout \<Rightarrow> sys \<Rightarrow> pkt option \<times> sys" where
  "do_pkt_alloc z i n t s =
     (let r = net_pkt_alloc_with_buffer z (hist s) i n t in (r, emit (PktAlloc i n t r) s))"

definition do_set_src :: "zephyr \<Rightarrow> pkt \<Rightarrow> u8 list option \<Rightarrow> sys \<Rightarrow> int \<times> sys" where
  "do_set_src z pkt a s =
     (let r = net_linkaddr_copy_src z (hist s) pkt a in (r, emit (PktSetSrc pkt a r) s))"

definition do_set_dst :: "zephyr \<Rightarrow> pkt \<Rightarrow> u8 list \<Rightarrow> sys \<Rightarrow> int \<times> sys" where
  "do_set_dst z pkt a s =
     (let r = net_linkaddr_set_dst z (hist s) pkt a in (r, emit (PktSetDst pkt a r) s))"

definition do_set_data :: "zephyr \<Rightarrow> pkt \<Rightarrow> u8 list \<Rightarrow> sys \<Rightarrow> int \<times> sys" where
  "do_set_data z pkt bs s =
     (let r = net_pkt_set_data z (hist s) pkt bs in (r, emit (PktSetData pkt bs r) s))"

definition do_pkt_write :: "zephyr \<Rightarrow> pkt \<Rightarrow> u8 list \<Rightarrow> sys \<Rightarrow> int \<times> sys" where
  "do_pkt_write z pkt bs s =
     (let r = net_pkt_write z (hist s) pkt bs in (r, emit (PktWrite pkt bs r) s))"

definition do_send :: "zephyr \<Rightarrow> net_if option \<Rightarrow> pkt \<Rightarrow> sys \<Rightarrow> net_verdict \<times> sys" where
  "do_send z i pkt s =
     (let r = net_if_try_send_data z (hist s) i pkt in (r, emit (SendData i pkt r) s))"

section \<open>The destination\<close>

text \<open>The ring's multicast address: the last byte is the ring identifier.\<close>

definition ERPS_MCAST_MAC :: net_eth_addr where
  "ERPS_MCAST_MAC = Eth 0x01 0x19 0xa7 0x00 0x00 0x01"

fun mac_set_last :: "net_eth_addr \<Rightarrow> u8 \<Rightarrow> net_eth_addr" where
  "mac_set_last (Eth a b c d e f) x = Eth a b c d e x"

definition erps_node_dst_mac :: "sys \<Rightarrow> nat \<Rightarrow> net_eth_addr" where
  "erps_node_dst_mac s n = mac_set_last ERPS_MCAST_MAC (ring_id (nodes s n))"

section \<open>Composing and sending\<close>

text \<open>
  The PDU the function leaves in the packet, given what the packet's data area held: every
  field but \<open>end_tlv\<close> is written.
\<close>

definition erps_raps_fill :: "erps_node \<Rightarrow> net_eth_addr \<Rightarrow> raps_pdu \<Rightarrow> raps_pdu" where
  "erps_raps_fill nd mac pdu =
     pdu\<lparr>cfm_hdr := \<lparr>mel_ver = push_bit RAPS_MEL_SHIFT (raps_mel nd) OR raps_ver nd,
                     opcode = RAPS_OPCODE, flags = RAPS_FLAGS,
                     tlv_off = of_nat sizeof_raps_spc_info\<rparr>,
         raps_info := \<lparr>rs_sc = mut_rs_sc (pdu_mut nd),
                       status = (if state nd = ERPS_STATE_PROTECTION \<and> blocked (ports nd 1)
                                 then mut_status (pdu_mut nd) OR RAPS_BPR
                                 else mut_status (pdu_mut nd)),
                       node_id = mac, rfu = replicate 24 0\<rparr>\<rparr>"

definition erps_raps_create :: "zephyr \<Rightarrow> link_ref \<Rightarrow> pkt \<Rightarrow> sys \<Rightarrow> int \<times> sys" where
  "erps_raps_create z l pkt s =
     (let node = erps_link_get_node s l
      in case net_pkt_get_data z (hist s) pkt of
           None \<Rightarrow> (- ENOBUFS, s)
         | Some bs \<Rightarrow>
             (case erps_link_get_node_id z l s of
                Inl ret \<Rightarrow> (ret, s)
              | Inr mac \<Rightarrow>
                  let pdu = erps_raps_fill (nodes s node) mac (raps_pdu_of_bytes bs);
                      (ret, s) = do_set_data z pkt (raps_pdu_bytes pdu) s
                  in if ret \<noteq> 0 then (- ENOBUFS, s)
                     else if CONFIG_NET_ERPS_PAD_RAPS_PDUS z
                     then do_pkt_write z pkt
                            (replicate (NET_ETH_MINIMAL_FRAME_SIZE z - sizeof_net_eth_vlan_hdr z
                                        - sizeof_raps_pdu) 0) s
                     else (ret, s)))"

definition erps_link_send_pdu :: "zephyr \<Rightarrow> link_ref \<Rightarrow> net_if option \<Rightarrow> sys \<Rightarrow> int \<times> sys" where
  "erps_link_send_pdu z l iface s =
     (let node = erps_link_get_node s l;
          frame_size = (if CONFIG_NET_ERPS_PAD_RAPS_PDUS z
                        then NET_ETH_MINIMAL_FRAME_SIZE z else sizeof_raps_pdu);
          (pkt, s) = do_pkt_alloc z iface frame_size
                       (K_MSEC (unat (net_pkt_alloc_timeout (nodes s node)))) s
      in case pkt of
           None \<Rightarrow> (- ENOMEM, s)
         | Some pkt \<Rightarrow>
             let s = emit (PktSetProto pkt 0x8902) s;
                 (ret, s) = do_set_src z pkt (net_if_get_link_addr z (hist s) iface) s;
                 (ret, s) = (if ret = 0
                             then do_set_dst z pkt (mac_bytes (erps_node_dst_mac s node)) s
                             else (ret, s));
                 (ret, s) = (if ret = 0 then erps_raps_create z l pkt s else (ret, s));
                 (ret, s) = (if ret = 0
                             then (let (vdct, s) = do_send z iface pkt s
                                   in (if vdct = NET_DROP then - EIO else ret, s))
                             else (ret, s));
                 s = (if ret \<noteq> 0 then emit (PktUnref pkt) s else s)
             in (ret, s))"

text \<open>A missing VLAN interface is logged, and the null pointer is passed on.\<close>

definition erps_link_tx_single_pdu :: "zephyr \<Rightarrow> link_ref \<Rightarrow> sys \<Rightarrow> sys" where
  "erps_link_tx_single_pdu z l s =
     (let node = erps_link_get_node s l
      in case net_if_lookup_by_dev z (dev (lnk s l)) of
           None \<Rightarrow> s
         | Some iface \<Rightarrow>
             if \<not> net_if_is_up z (hist s) (Some iface) then s
             else
               let vlan_iface = net_eth_get_vlan_iface z (hist s) iface (ctrl_vid (nodes s node))
               in snd (erps_link_send_pdu z l vlan_iface s))"

definition erps_tx_work :: "zephyr \<Rightarrow> link_ref \<Rightarrow> sys \<Rightarrow> sys" where
  "erps_tx_work z l s =
     (let s = erps_link_tx_single_pdu z l s;
          delay = erps_tx_delay (tx_burst (lnk s l));
          s = (if tx_burst (lnk s l) \<noteq> 0 then upd_link l (\<lambda>k. k\<lparr>tx_burst := tx_burst k - 1\<rparr>) s
               else s)
      in snd (do_reschedule z (TxWork (fst l) (snd l)) delay s))"

text \<open>The management event: the interface of a ring link came up.\<close>

definition erps_iface_up_cb :: "zephyr \<Rightarrow> nat \<Rightarrow> bool \<Rightarrow> net_if option \<Rightarrow> sys \<Rightarrow> sys" where
  "erps_iface_up_cb z n is_if_up iface s =
     (if \<not> is_if_up then s
      else
        let iface0 = net_if_lookup_by_dev z (dev (lnk s (n, 0)));
            iface1 = net_if_lookup_by_dev z (dev (lnk s (n, 1)))
        in if iface \<noteq> iface0 \<and> iface \<noteq> iface1 then s
           else
             let p = (if iface = iface1 then 1 else 0)
             in snd (do_reschedule z (TxWork n p) (erps_tx_delay (tx_burst (lnk s (n, p)))) s))"

section \<open>What transmission keeps\<close>

text \<open>Everything up to the burst counter only talks to the environment.\<close>

definition only_calls :: "sys \<Rightarrow> sys \<Rightarrow> bool" where
  "only_calls s s' \<longleftrightarrow> nodes s' = nodes s \<and> nnodes s' = nnodes s \<and>
     (\<exists>h. hist s' = h @ hist s \<and> list_all quiet h)"

lemma only_calls_refl [simp]: "only_calls s s"
  by (simp add: only_calls_def)

lemma only_calls_emit: "only_calls s t \<Longrightarrow> quiet a \<Longrightarrow> only_calls s (emit a t)"
  unfolding only_calls_def by (metis append_Cons emit_simps(1-3) list.pred_inject(2))

lemma only_calls_lnk: "only_calls s t \<Longrightarrow> lnk t l = lnk s l"
  by (simp add: only_calls_def lnk_def)

lemma quiet_app_port_enabled: "list_all quiet h \<Longrightarrow> port_enabled (h @ g) i = port_enabled g i"
  by (induction h) (auto simp: quiet_port_enabled)

lemma quiet_app_mutex_held: "list_all quiet h \<Longrightarrow> mutex_held (h @ g) n = mutex_held g n"
  by (induction h) (auto simp: quiet_mutex_held)

lemma only_calls_evolves: "only_calls s t \<Longrightarrow> evolves z n s t"
  by (auto simp: only_calls_def evolves_def hw_sync_def lnk_def quiet_app_port_enabled
      quiet_app_mutex_held)

lemma only_calls_trans: "only_calls s t \<Longrightarrow> only_calls t u \<Longrightarrow> only_calls s u"
  by (fastforce simp: only_calls_def)

lemma only_calls_create: "only_calls s (snd (erps_raps_create z l pkt s))"
  by (auto simp: erps_raps_create_def do_set_data_def do_pkt_write_def Let_def
      intro!: only_calls_emit split: option.split sum.split)

lemma only_calls_snds:
  assumes "only_calls s t"
  shows "only_calls s (snd (do_set_src z pkt a t))" "only_calls s (snd (do_set_dst z pkt b t))"
    "only_calls s (snd (erps_raps_create z l pkt t))" "only_calls s (snd (do_send z i pkt t))"
    "only_calls s (snd (do_pkt_alloc z i k tm t))"
  using assms only_calls_trans [OF assms only_calls_create]
  by (simp_all add: do_set_src_def do_set_dst_def do_send_def do_pkt_alloc_def Let_def
      only_calls_emit)

text \<open>Sequencing: a result and a state, then a state alone.\<close>

lemma only_calls_let2:
  assumes "only_calls s (snd m)" and "\<And>r t. only_calls s t \<Longrightarrow> only_calls s (snd (f r t))"
  shows "only_calls s (snd (let (r, t) = m in f r t))"
  using assms by (cases m) simp

lemma only_calls_let1:
  assumes "only_calls s t" and "\<And>t. only_calls s t \<Longrightarrow> only_calls s (snd (f t))"
  shows "only_calls s (snd (let t = t in f t))"
  using assms by (simp add: Let_def)

lemma only_calls_branch:
  "(b \<Longrightarrow> only_calls s (snd x)) \<Longrightarrow> (\<not> b \<Longrightarrow> only_calls s (snd y)) \<Longrightarrow>
    only_calls s (snd (if b then x else y))"
  "(b \<Longrightarrow> only_calls s t) \<Longrightarrow> (\<not> b \<Longrightarrow> only_calls s u) \<Longrightarrow> only_calls s (if b then t else u)"
  "only_calls s (snd x) \<Longrightarrow> (\<And>v. only_calls s (snd (f v))) \<Longrightarrow>
    only_calls s (snd (case ov of None \<Rightarrow> x | Some v \<Rightarrow> f v))"
  "only_calls s t \<Longrightarrow> only_calls s (snd (r, t))"
  by (simp_all split: option.split)

lemma only_calls_send: "only_calls s (snd (erps_link_send_pdu z l iface s))"
proof -
  define node where "node = erps_link_get_node s l"
  define size where "size = (if CONFIG_NET_ERPS_PAD_RAPS_PDUS z
    then NET_ETH_MINIMAL_FRAME_SIZE z else sizeof_raps_pdu)"
  show ?thesis
    unfolding erps_link_send_pdu_def node_def [symmetric] size_def [symmetric]
      Let_def [of node] Let_def [of size]
    by (rule only_calls_branch only_calls_let2 only_calls_snds only_calls_refl only_calls_let1
          only_calls_emit | assumption | simp)+
qed

lemma only_calls_tx_single: "only_calls s (erps_link_tx_single_pdu z l s)"
  by (auto simp: erps_link_tx_single_pdu_def Let_def only_calls_send split: option.split)

lemma burst_dec: "(b :: u8) \<le> ERPS_RAPS_BURST \<Longrightarrow> b \<noteq> 0 \<Longrightarrow> b - 1 \<le> ERPS_RAPS_BURST"
  unfolding ERPS_RAPS_BURST_def by unat_arith

lemma evolves_tx_work: "evolves z n s (erps_tx_work z (n, p) s)"
proof -
  define t where "t = erps_link_tx_single_pdu z (n, p) s"
  define u where "u = (if tx_burst (lnk t (n, p)) \<noteq> 0
    then upd_link (n, p) (\<lambda>k. k\<lparr>tx_burst := (if tx_burst k \<noteq> 0 then tx_burst k - 1 else 0)\<rparr>) t
    else t)"
  have t: "evolves z n s t"
    unfolding t_def by (rule only_calls_evolves [OF only_calls_tx_single])
  have "evolves z n t u"
    unfolding u_def using burst_dec by (auto intro!: evolves_upd_link)
  with t have "evolves z n s u" by (rule evolves_trans)
  moreover have "u = (if tx_burst (lnk t (n, p)) \<noteq> 0
      then upd_link (n, p) (\<lambda>k. k\<lparr>tx_burst := tx_burst k - 1\<rparr>) t else t)"
    by (auto simp: u_def upd_link_def upd_node_def lnk_def)
  ultimately show ?thesis
    by (auto simp: erps_tx_work_def do_reschedule_def Let_def evolves_then_emit
        simp flip: t_def)
qed

lemma evolves_iface_up_cb: "evolves z n s (erps_iface_up_cb z n b iface s)"
  by (simp add: erps_iface_up_cb_def do_reschedule_def Let_def evolves_emit)

end
