(* ===== verification/Erps_Recv.thy ===== *)
theory Erps_Recv
  imports Erps_Fsm
begin

text \<open>
  The receive path of \<^verbatim>\<open>erps.c\<close>: \<open>erps_recv\<close> is what the network stack calls with a frame of
  the OAM Ethernet type; it reads the VLAN header and the PDU, drops what is not for this
  ring, handles events, and posts everything else to the state machine. Also the flush of
  Section 10.1.10 on a change of the (node ID, BPR) pair.
\<close>

section \<open>Conditional flush\<close>

text \<open>
  The pair of the link is replaced before the node identifier is looked up; the last test
  compares with the pair of the other link.
\<close>

definition erps_raps_node_id_bpr_flush ::
    "zephyr \<Rightarrow> link_ref \<Rightarrow> erps_request \<Rightarrow> raps_pdu \<Rightarrow> sys \<Rightarrow> (int \<times> sys) option" where
  "erps_raps_node_id_bpr_flush z l req pdu s =
     (let node = erps_link_get_node s l;
          oth_lnk = erps_node_other_port node l;
          pdu_bpr = (of_bool (raps_pdu_bpr pdu) :: u8);
          pdu_node_id = node_id (raps_info pdu)
      in if req = ERPS_REQ_RAPS_NR then Some (0, erps_link_delete_node_id_bpr l s)
         else
           let node_id_chgd =
                 (memcmp (mac_bytes (last_node_id (lnk s l))) (mac_bytes pdu_node_id) \<noteq> 0)
           in if pdu_bpr = bpr (lnk s l) \<or> \<not> node_id_chgd then Some (0, s)
              else
                let s = upd_link l (\<lambda>k. k\<lparr>bpr := pdu_bpr\<rparr>) s;
                    s = (if node_id_chgd
                         then upd_link l (\<lambda>k. k\<lparr>last_node_id := pdu_node_id\<rparr>) s else s)
                in case erps_link_get_node_id z l s of
                     Inl ret \<Rightarrow> Some (ret, s)
                   | Inr own_id \<Rightarrow>
                       if status (raps_info pdu) AND RAPS_DNF = 0 \<or>
                          memcmp (mac_bytes own_id) (mac_bytes pdu_node_id) = 0
                       then Some (0, s)
                       else if pdu_bpr \<noteq> bpr (lnk s oth_lnk) \<or>
                          memcmp (mac_bytes (last_node_id (lnk s oth_lnk)))
                            (mac_bytes pdu_node_id) \<noteq> 0
                       then erps_flush_fdb z l s
                       else Some (0, s))"

section \<open>PDUs\<close>

definition erps_is_local_raps_frame :: "zephyr \<Rightarrow> link_ref \<Rightarrow> raps_pdu \<Rightarrow> sys \<Rightarrow> bool" where
  "erps_is_local_raps_frame z l pdu s =
     (case erps_link_get_node_id z l s of
        Inl _ \<Rightarrow> False
      | Inr mac \<Rightarrow> memcmp (mac_bytes mac) (mac_bytes (node_id (raps_info pdu))) = 0)"

definition erps_is_stray_raps_pdu :: "sys \<Rightarrow> nat \<Rightarrow> net_eth_vlan_hdr \<Rightarrow> bool" where
  "erps_is_stray_raps_pdu s n hdr \<longleftrightarrow> ring_id (nodes s n) \<noteq> mac_last (hdr_dst hdr)"

definition erps_handle_raps_event ::
    "zephyr \<Rightarrow> link_ref \<Rightarrow> raps_pdu \<Rightarrow> sys \<Rightarrow> (int \<times> sys) option" where
  "erps_handle_raps_event z l pdu s =
     (if raps_pdu_get_subcode pdu \<noteq> RAPS_SC_FLUSH_REQ then Some (- EINVAL, s)
      else if raps_pdu_status pdu \<noteq> 0 then Some (- EINVAL, s)
      else erps_flush_fdb z l s)"

definition ERPS_RAPS_VER_1 :: u8 where "ERPS_RAPS_VER_1 = 0"
definition ERPS_RAPS_VER_2 :: u8 where "ERPS_RAPS_VER_2 = 1"

text \<open>The tail of the function, after the \<open>switch\<close> has found the request.\<close>

definition erps_raps_recv_req ::
    "zephyr \<Rightarrow> link_ref \<Rightarrow> erps_request \<Rightarrow> raps_pdu \<Rightarrow> sys \<Rightarrow> (net_verdict \<times> sys) option" where
  "erps_raps_recv_req z l req pdu s =
     (let node = erps_link_get_node s l
      in if \<not> sys_timepoint_expired z (hist s) (guard_timer_expiry (nodes s node))
         then Some (NET_DROP, s)
         else do {
           (_, s) \<leftarrow> erps_raps_node_id_bpr_flush z l req pdu s;
           (ret, s) \<leftarrow> erps_fsm_post z l req (Some pdu) s;
           Some (if ret \<noteq> 0 then NET_DROP else NET_OK, s)
         })"

definition erps_raps_recv ::
    "zephyr \<Rightarrow> link_ref \<Rightarrow> raps_pdu \<Rightarrow> sys \<Rightarrow> (net_verdict \<times> sys) option" where
  "erps_raps_recv z l pdu s =
     (let node = erps_link_get_node s l;
          req_state = raps_pdu_get_req_state pdu
      in if opcode (cfm_hdr pdu) \<noteq> RAPS_OPCODE then Some (NET_DROP, s)
         else if req_state = RAPS_NR then
           erps_raps_recv_req z l
             (if raps_pdu_rb pdu then ERPS_REQ_RAPS_NR_RB else ERPS_REQ_RAPS_NR) pdu s
         else if req_state = RAPS_MS then
           (if raps_ver (nodes s node) = ERPS_RAPS_VER_1 then Some (NET_DROP, s)
            else erps_raps_recv_req z l ERPS_REQ_RAPS_MS pdu s)
         else if req_state = RAPS_SF then erps_raps_recv_req z l ERPS_REQ_RAPS_SF pdu s
         else if req_state = RAPS_FS then
           (if raps_ver (nodes s node) = ERPS_RAPS_VER_1 then Some (NET_DROP, s)
            else erps_raps_recv_req z l ERPS_REQ_RAPS_FS pdu s)
         else if req_state = RAPS_EVENT then do {
           (ret, s) \<leftarrow> erps_handle_raps_event z l pdu s;
           Some (if ret \<noteq> 0 then NET_DROP else NET_OK, s)
         }
         else Some (NET_DROP, s))"

section \<open>Frames\<close>

text \<open>\<open>net_pkt_read\<close> of so many bytes: the result code, the bytes read, the state after.\<close>

definition do_pkt_read :: "zephyr \<Rightarrow> pkt \<Rightarrow> nat \<Rightarrow> sys \<Rightarrow> (int \<times> u8 list) \<times> sys" where
  "do_pkt_read z pkt n s =
     (let (r, bs) = net_pkt_read z (hist s) pkt n in ((r, bs), emit (PktRead pkt n r) s))"

text \<open>\<open>Inl\<close> is the error code; the type of a frame that is not OAM is only logged.\<close>

definition erps_read_vlan_hdr ::
    "zephyr \<Rightarrow> link_ref \<Rightarrow> pkt \<Rightarrow> sys \<Rightarrow> (int + net_eth_vlan_hdr) \<times> sys" where
  "erps_read_vlan_hdr z l pkt s =
     (let node = erps_link_get_node s l
      in if net_pkt_remaining_data z (hist s) pkt < sizeof_net_eth_vlan_hdr z
         then (Inl (- ENODATA), s)
         else
           let ((ret, bs), s) = do_pkt_read z pkt (sizeof_net_eth_vlan_hdr z) s
           in if ret \<noteq> 0 then (Inl ret, s)
              else
                let hdr = net_eth_vlan_hdr_of_bytes z bs;
                    tpid = net_ntohs z (hdr_tpid hdr);
                    vid = net_eth_vlan_get_vid z (net_ntohs z (hdr_tci hdr))
                in if tpid \<noteq> NET_ETH_PTYPE_VLAN z then (Inl (- EINVAL), s)
                   else if vid \<noteq> ctrl_vid (nodes s node) then (Inl (- EINVAL), s)
                   else (Inr hdr, s))"

definition erps_eth_recv :: "zephyr \<Rightarrow> link_ref \<Rightarrow> pkt \<Rightarrow> sys \<Rightarrow> (net_verdict \<times> sys) option" where
  "erps_eth_recv z l pkt s =
     (let node = erps_link_get_node s l;
          (hdr, s) = erps_read_vlan_hdr z l pkt s
      in case hdr of
           Inl _ \<Rightarrow> Some (NET_DROP, s)
         | Inr hdr \<Rightarrow>
             if erps_is_stray_raps_pdu s node hdr then Some (NET_DROP, s)
             else
               let ((ret, bs), s) = do_pkt_read z pkt sizeof_raps_pdu s
               in if ret \<noteq> 0 then Some (NET_DROP, s)
                  else
                    let pdu = raps_pdu_of_bytes bs
                    in if erps_is_local_raps_frame z l pdu s then Some (NET_DROP, s)
                       else erps_raps_recv z l pdu s)"

definition erps_recv :: "zephyr \<Rightarrow> net_if option \<Rightarrow> pkt \<Rightarrow> sys \<Rightarrow> (net_verdict \<times> sys) option" where
  "erps_recv z iface pkt s =
     (case erps_link_lookup_by_iface z iface s of
        None \<Rightarrow> Some (NET_DROP, s)
      | Some l \<Rightarrow> do {
          let s = emit (PktCursorBackup pkt) s;
          (vdct, s) \<leftarrow> (if net_pkt_get_len z (hist s) pkt \<ge> sizeof_raps_pdu
                       then erps_eth_recv z l pkt s else Some (NET_CONTINUE, s));
          Some (vdct, emit (if vdct = NET_OK then PktUnref pkt else PktCursorRestore pkt) s)
        })"

section \<open>What reception keeps\<close>

lemma evolves_locked:
  assumes "evolves z n (emit (MutexLock n 0) s) s'" and "\<not> mutex_held (hist s) n"
  shows "evolves z n s (emit (MutexUnlock n) s')"
proof -
  have "\<exists>h. MutexUnlock n # hist s' = h @ hist s"
    using assms(1) by (auto simp: evolves_def)
  moreover have "ifaces_distinct z (emit (MutexLock n 0) s) = ifaces_distinct z s"
    by (rule ifaces_distinct_cong) simp_all
  moreover have "hw_sync z (emit (MutexLock n 0) s) m = hw_sync z s m" for m
    by (simp add: hw_sync_def)
  moreover have "hw_sync z (emit (MutexUnlock n) s') m = hw_sync z s' m" for m
    by (simp add: hw_sync_def)
  ultimately show ?thesis
    using assms by (auto simp: evolves_def)
qed

text \<open>Posting takes the node's mutex and gives it back, on every path.\<close>

lemma wp_post [wp_rules]:
  assumes "stable z n s0 s" and "p < 2" and "req = ERPS_REQ_RAPS_NR \<Longrightarrow> pdu \<noteq> None"
    and "\<not> mutex_held (hist s) n" and "\<And>r s'. stable z n s0 s' \<Longrightarrow> Q r s'"
  shows "wp (erps_fsm_post z (n, p) req pdu s) Q"
proof -
  define r where "r = k_mutex_lock z (hist s) n (K_MSEC 250)"
  have err: "stable z n s0 (emit (MutexLock n r) s)" if "r \<noteq> 0"
    using assms(1) that by (auto intro: stable_emit)
  have "stable z n (emit (MutexLock n 0) s) (emit (MutexLock n 0) s)"
    using assms(1) by (intro stable_refl) (auto simp: stable_def)
  then have "wp (erps_fsm_post_locked z (n, p) req pdu (emit (MutexLock n 0) s))
      (\<lambda>r' s'. stable z n s0 (emit (MutexUnlock n) s'))"
    by (rule wp_post_locked [OF _ assms(2,3)])
      (auto intro: stable_step [OF assms(1)] evolves_locked [OF _ assms(4)] stable_evolves)
  then have "wp (erps_fsm_post_locked z (n, p) req pdu (emit (MutexLock n 0) s))
      (\<lambda>r' s'. Q r' (emit (MutexUnlock n) s'))"
    by (rule wp_mono) (rule assms(5))
  then show ?thesis
    using err assms(5)
    by (auto simp: erps_fsm_post_def do_mutex_lock_def Let_def stable_get_node [OF assms(1,2)]
        simp flip: r_def)
qed

lemma stable_mutex_held: "stable z n s0 s \<Longrightarrow> mutex_held (hist s) m = mutex_held (hist s0) m"
  by (simp add: stable_def evolves_def)

lemma stable_pair:
  assumes "stable z n s0 s"
  shows "stable z n s0 (upd_link (n, p) (\<lambda>k. k\<lparr>bpr := b\<rparr>) s)"
    and "stable z n s0 (upd_link (n, p) (\<lambda>k. k\<lparr>last_node_id := i\<rparr>) s)"
    and "stable z n s0 (erps_link_delete_node_id_bpr (n, p) s)"
  by (auto intro!: stable_step [OF assms] evolves_upd_link evolves_delete)

lemma wp_node_id_bpr_flush [wp_rules]:
  assumes "stable z n s0 s" and "p < 2" and "\<And>r s'. stable z n s0 s' \<Longrightarrow> Q r s'"
  shows "wp (erps_raps_node_id_bpr_flush z (n, p) req pdu s) Q"
  using assms
  by (auto simp: erps_raps_node_id_bpr_flush_def Let_def stable_get_node stable_pair
      intro!: wp_rules split: sum.split)

lemma wp_raps_recv_req [wp_rules]:
  assumes "stable z n s0 s" and "p < 2" and "\<not> mutex_held (hist s0) n"
    and "\<And>r s'. stable z n s0 s' \<Longrightarrow> Q r s'"
  shows "wp (erps_raps_recv_req z (n, p) req pdu s) Q"
  using assms
  by (auto simp: erps_raps_recv_req_def Let_def stable_mutex_held intro!: wp_rules)

lemma wp_raps_event [wp_rules]:
  assumes "stable z n s0 s" and "\<And>r s'. stable z n s0 s' \<Longrightarrow> Q r s'"
  shows "wp (erps_handle_raps_event z l pdu s) Q"
  using assms by (auto simp: erps_handle_raps_event_def intro!: wp_rules)

lemma wp_raps_recv [wp_rules]:
  assumes "stable z n s0 s" and "p < 2" and "\<not> mutex_held (hist s0) n"
    and "\<And>r s'. stable z n s0 s' \<Longrightarrow> Q r s'"
  shows "wp (erps_raps_recv z (n, p) pdu s) Q"
  unfolding erps_raps_recv_def Let_def
  using assms by (intro wp_if) (auto intro!: wp_rules simp del: raps_req_states)

lemma read_vlan_hdr_state:
  "snd (erps_read_vlan_hdr z l pkt s) = s \<or>
   (\<exists>r. snd (erps_read_vlan_hdr z l pkt s) = emit (PktRead pkt (sizeof_net_eth_vlan_hdr z) r) s)"
  by (auto simp: erps_read_vlan_hdr_def do_pkt_read_def Let_def split: prod.split)

lemma wp_eth_recv [wp_rules]:
  assumes "stable z n s0 s" and "p < 2" and "\<not> mutex_held (hist s0) n"
    and "\<And>r s'. stable z n s0 s' \<Longrightarrow> Q r s'"
  shows "wp (erps_eth_recv z (n, p) pkt s) Q"
proof -
  obtain hdr t where t: "erps_read_vlan_hdr z (n, p) pkt s = (hdr, t)" by fastforce
  have "stable z n s0 t"
    using read_vlan_hdr_state [of z "(n, p)" pkt s] t assms(1) by (auto intro: stable_emit)
  then show ?thesis
    using assms(2-4)
    by (auto simp: erps_eth_recv_def t do_pkt_read_def Let_def stable_emit
        intro!: wp_rules split: sum.split prod.split)
qed

end
