(* ===== verification/Erps_Init.thy ===== *)
theory Erps_Init
  imports Erps_Tx Erps_Recv
begin

text \<open>
  Start-up, and the work items the timers run: the end of \<^verbatim>\<open>erps.c\<close>. The structures the
  devicetree macros build, \<open>erps_init\<close> with everything it calls, and what holds of them.
\<close>

section \<open>Timer work\<close>

definition erps_wtr_work :: "zephyr \<Rightarrow> nat \<Rightarrow> sys \<Rightarrow> (int \<times> sys) option" where
  "erps_wtr_work z n s = erps_fsm_post z (n, 0) ERPS_REQ_WTR_EXPIRES None s"

definition erps_wtb_work :: "zephyr \<Rightarrow> nat \<Rightarrow> sys \<Rightarrow> (int \<times> sys) option" where
  "erps_wtb_work z n s = erps_fsm_post z (n, 0) ERPS_REQ_WTB_EXPIRES None s"

definition erps_link_down_work :: "zephyr \<Rightarrow> link_ref \<Rightarrow> sys \<Rightarrow> (int \<times> sys) option" where
  "erps_link_down_work z l s =
     (case net_if_lookup_by_dev z (dev (lnk s l)) of
        None \<Rightarrow> Some (0, s)
      | Some _ \<Rightarrow> erps_fsm_post z l ERPS_REQ_SF None s)"

section \<open>Devicetree\<close>

definition ERPS_INVALID_RING :: u8 where "ERPS_INVALID_RING = 0xff"
definition ERPS_RING_ID_MIN :: int where "ERPS_RING_ID_MIN = 1"
definition ERPS_RING_ID_MAX :: int where "ERPS_RING_ID_MAX = 239"

text \<open>The properties of a devicetree node of the binding \<^verbatim>\<open>itu-t,erps-node\<close>.\<close>

record dt_node =
  dt_ring_links :: "device list"
  dt_protection_link :: "device option"
  dt_rpl_owner :: bool
  dt_non_revertive :: bool
  dt_raps_version :: int
  dt_ring_id :: "int option"
  dt_raps_mel :: int
  dt_wtr_timer_duration :: int
  dt_guard_timer_duration :: int
  dt_control_vid :: int
  dt_traffic_vid :: int
  dt_net_pkt_alloc_timeout :: int

text \<open>The build assertions of \<open>ERPS_NODE_INIT\<close>.\<close>

definition erps_node_build_asserts :: "dt_node \<Rightarrow> bool" where
  "erps_node_build_asserts d \<longleftrightarrow>
     (\<not> dt_rpl_owner d \<or> dt_protection_link d \<noteq> None) \<and>
     length (dt_ring_links d) + of_bool (dt_protection_link d \<noteq> None) = 2 \<and>
     (case dt_ring_id d of None \<Rightarrow> True | Some r \<Rightarrow> r \<ge> ERPS_RING_ID_MIN) \<and>
     (case dt_ring_id d of None \<Rightarrow> True | Some r \<Rightarrow> r \<le> ERPS_RING_ID_MAX) \<and>
     dt_guard_timer_duration d \<ge> 10 \<and> dt_guard_timer_duration d \<le> 2000 \<and>
     dt_guard_timer_duration d mod 10 = 0"

definition ERPS_LINK_DEVICE_GET :: "nat \<Rightarrow> dt_node \<Rightarrow> device" where
  "ERPS_LINK_DEVICE_GET link_idx d =
     (if link_idx = 0 then dt_ring_links d ! 0
      else case dt_protection_link d of
        Some dv \<Rightarrow> dv
      | None \<Rightarrow> dt_ring_links d ! 1)"

definition ERPS_LINK_INIT :: "nat \<Rightarrow> dt_node \<Rightarrow> bool \<Rightarrow> erps_link" where
  "ERPS_LINK_INIT link_idx d is_rpl =
     \<lparr>failed = False, blocked = False, bpr = 0, tx_burst = 0, rpl = is_rpl,
      idx = of_nat link_idx, last_node_id = mac_zero, dev = ERPS_LINK_DEVICE_GET link_idx d\<rparr>"

text \<open>
  The initialisers of the port array, by designated index: one per ring link, then the
  protection link at index 1.
\<close>

definition ERPS_NODE_LINKS :: "dt_node \<Rightarrow> nat \<Rightarrow> erps_link" where
  "ERPS_NODE_LINKS d p =
     (if dt_protection_link d \<noteq> None \<and> p = 1 then ERPS_LINK_INIT 1 d True
      else ERPS_LINK_INIT p d False)"

text \<open>Members without an initialiser are zero; the request of value 0 is CLEAR.\<close>

definition ERPS_NODE_INIT :: "dt_node \<Rightarrow> erps_node" where
  "ERPS_NODE_INIT d =
     \<lparr>revertive = \<not> dt_non_revertive d, local_topreq = ERPS_REQ_CLEAR,
      rpl_owner = dt_rpl_owner d,
      rpl_nbr = (\<not> dt_rpl_owner d \<and> dt_protection_link d \<noteq> None),
      raps_ver = of_int (dt_raps_version d),
      ring_id = (case dt_ring_id d of None \<Rightarrow> ERPS_INVALID_RING | Some r \<Rightarrow> of_int r),
      raps_mel = of_int (dt_raps_mel d),
      wtr_duration = of_int (dt_wtr_timer_duration d),
      state = ERPS_STATE_UNINIT,
      guard_timer_duration = of_int (dt_guard_timer_duration d),
      ctrl_vid = of_int (dt_control_vid d), traffic_vid = of_int (dt_traffic_vid d),
      net_pkt_alloc_timeout = of_int (dt_net_pkt_alloc_timeout d),
      pdu_mut = \<lparr>mut_rs_sc = 0, mut_status = 0\<rparr>, guard_timer_expiry = 0,
      ports = ERPS_NODE_LINKS d\<rparr>"

text \<open>The section of nodes at boot: one node per enabled devicetree node.\<close>

definition erps_boot :: "dt_node list \<Rightarrow> sys" where
  "erps_boot ds = \<lparr>nodes = (\<lambda>n. ERPS_NODE_INIT (ds ! n)), nnodes = length ds, hist = []\<rparr>"

section \<open>Initialisation\<close>

definition erps_fsm_init :: "zephyr \<Rightarrow> nat \<Rightarrow> sys \<Rightarrow> (int \<times> sys) option" where
  "erps_fsm_init z n s = do {
     let rpl_lnk = erps_node_get_rpl s n;
     let non_rpl = erps_node_other_link n rpl_lnk;
     let (t, s) = do_timepoint_calc z K_NO_WAIT s;
     let s = upd_node n (\<lambda>nd. nd\<lparr>guard_timer_expiry := t\<rparr>) s;
     let owner = erps_node_is_rpl_owner s n;
     (ret, s) \<leftarrow>
       (if owner \<or> erps_node_is_rpl_nbr s n then do {
          rpl_lnk \<leftarrow> rpl_lnk;
          non_rpl \<leftarrow> non_rpl;
          (ret, s) \<leftarrow> erps_link_block z rpl_lnk s;
          (ret, s) \<leftarrow> on_ok ret s (erps_link_unblock_force z non_rpl);
          (ret, s) \<leftarrow> on_ok ret s (erps_node_sched_tx z n RAPS_NR 0 0);
          if ret = 0 \<and> owner \<and> erps_node_is_revertive s n
          then erps_node_start_wtr (erps_fsm_post_locked z) z n s else Some (ret, s)
        } else do {
          (ret, s) \<leftarrow> erps_link_block z (n, 0) s;
          (ret, s) \<leftarrow> on_ok ret s (erps_link_unblock_force z (n, 1));
          on_ok ret s (erps_node_sched_tx z n RAPS_NR 0 0)
        });
     Some (ret, erps_fsm_transition n ERPS_STATE_PENDING s)
   }"

definition erps_link_configure_vlan :: "zephyr \<Rightarrow> link_ref \<Rightarrow> sys \<Rightarrow> int \<times> sys" where
  "erps_link_configure_vlan z l s =
     (let node = erps_link_get_node s l
      in case net_if_lookup_by_dev z (dev (lnk s l)) of
           None \<Rightarrow> (- ENODEV, s)
         | Some iface \<Rightarrow>
             (let (ret, s) = do_vlan_enable z iface (ctrl_vid (nodes s node)) s
              in if ret \<noteq> 0 then (ret, s)
                 else
                   let (ret, s) = do_vlan_enable z iface (traffic_vid (nodes s node)) s
                   in if ret \<noteq> 0 then (ret, s)
                      else case net_eth_get_vlan_iface z (hist s) iface (ctrl_vid (nodes s node)) of
                             None \<Rightarrow> (- ENODEV, s)
                           | Some vlan_iface \<Rightarrow> (0, emit (IfUp vlan_iface) s)))"

definition erps_start_link_down_timer :: "zephyr \<Rightarrow> link_ref \<Rightarrow> sys \<Rightarrow> int \<times> sys" where
  "erps_start_link_down_timer z l s =
     (let w = LinkDownWork (fst l) (snd l);
          s = emit (WorkInit w) s;
          (ret, s) = do_reschedule z w (K_MSEC (CONFIG_NET_ERPS_LINK_FAIL_TIMEOUT z)) s
      in (if ret < 0 then ret else 0, s))"

definition erps_link_init :: "zephyr \<Rightarrow> link_ref \<Rightarrow> sys \<Rightarrow> int \<times> sys" where
  "erps_link_init z l s =
     (let s = emit (WorkInit (TxWork (fst l) (snd l))) s;
          (ret, s) = erps_link_configure_vlan z l s
      in if ret \<noteq> 0 then (ret, s)
         else if \<not> rpl (lnk s l) then erps_start_link_down_timer z l s
         else (ret, s))"

text \<open>
  The last loop of \<open>erps_node_init\<close>. It goes on after a failed call, and what it leaves in
  \<open>ret\<close> is the result of the last call it made, a positive one included.
\<close>

fun erps_node_initial_tx :: "zephyr \<Rightarrow> nat \<Rightarrow> nat list \<Rightarrow> int \<Rightarrow> sys \<Rightarrow> int \<times> sys" where
  "erps_node_initial_tx z n [] ret s = (ret, s)"
| "erps_node_initial_tx z n (i # is) ret s =
     (case net_if_lookup_by_dev z (dev (lnk s (n, i))) of
        None \<Rightarrow> (- ENODEV, s)
      | Some iface \<Rightarrow>
          (if net_if_is_up z (hist s) (Some iface) \<and>
              \<not> k_work_delayable_is_pending z (hist s) (TxWork n i)
           then let (ret, s) = do_reschedule z (TxWork n i)
                      (erps_tx_delay (tx_burst (lnk s (n, i)))) s
                in erps_node_initial_tx z n is ret s
           else erps_node_initial_tx z n is ret s))"

definition erps_node_init :: "zephyr \<Rightarrow> nat \<Rightarrow> sys \<Rightarrow> (int \<times> sys) option" where
  "erps_node_init z n s = do {
     let s = emit (WorkInit (WtrWork n)) s;
     let s = emit (WorkInit (WtbWork n)) s;
     let s = upd_node n (\<lambda>nd. nd\<lparr>local_topreq := ERPS_REQ_INVALID\<rparr>) s;
     let (ret, s) = do_mutex_init z n s;
     (ret, s) \<leftarrow> for_ok [0, 1] ret (\<lambda>i s. Some (erps_link_init z (n, i) s)) s;
     if ret \<noteq> 0 then Some (ret, s)
     else do {
       (ret, s) \<leftarrow> erps_fsm_init z n s;
       if ret \<noteq> 0 then Some (ret, s)
       else
         let s = emit (MgmtInit n) s;
             s = emit (MgmtAdd n) s
         in Some (erps_node_initial_tx z n [0, 1] ret s)
     }
   }"

fun erps_block_ports :: "zephyr \<Rightarrow> nat \<Rightarrow> nat list \<Rightarrow> sys \<Rightarrow> int \<times> sys" where
  "erps_block_ports z n [] s = (0, s)"
| "erps_block_ports z n (i # is) s =
     (case net_if_lookup_by_dev z (dev (lnk s (n, i))) of
        None \<Rightarrow> (- ENODEV, s)
      | Some iface \<Rightarrow>
          (let (ret, s) = do_port_set_enabled z iface False s
           in if ret \<noteq> 0 then (ret, s) else erps_block_ports z n is s))"

definition erps_node_block_all :: "zephyr \<Rightarrow> nat \<Rightarrow> sys \<Rightarrow> int \<times> sys" where
  "erps_node_block_all z n s = erps_block_ports z n [0, 1] s"

text \<open>The two loops of \<open>erps_init\<close> over the section of nodes.\<close>

fun erps_init_block :: "zephyr \<Rightarrow> nat list \<Rightarrow> sys \<Rightarrow> int \<times> sys" where
  "erps_init_block z [] s = (0, s)"
| "erps_init_block z (n # ns) s =
     (if ring_id (nodes s n) = ERPS_INVALID_RING then (- EINVAL, s)
      else let (ret, s) = erps_node_block_all z n s
           in if ret \<noteq> 0 then (ret, s) else erps_init_block z ns s)"

fun erps_init_nodes :: "zephyr \<Rightarrow> nat list \<Rightarrow> sys \<Rightarrow> sys option" where
  "erps_init_nodes z [] s = Some s"
| "erps_init_nodes z (n # ns) s = do {
     (_, s) \<leftarrow> erps_node_init z n s;
     erps_init_nodes z ns s
   }"

definition erps_init :: "zephyr \<Rightarrow> sys \<Rightarrow> (int \<times> sys) option" where
  "erps_init z s =
     (let (ret, s) = erps_init_block z [0..<nnodes s] s
      in if ret \<noteq> 0 then Some (ret, s)
         else do {
           s \<leftarrow> erps_init_nodes z [0..<nnodes s] s;
           Some (0, s)
         })"

section \<open>What the macros build\<close>

lemma node_init_idx_ok [simp]: "idx_ok (ERPS_NODE_INIT d)"
  by (simp add: idx_ok_def ERPS_NODE_INIT_def ERPS_NODE_LINKS_def ERPS_LINK_INIT_def)

lemma node_init_role_ok [simp]: "erps_node_build_asserts d \<Longrightarrow> role_ok (ERPS_NODE_INIT d)"
  by (auto simp: role_ok_def ERPS_NODE_INIT_def ERPS_NODE_LINKS_def ERPS_LINK_INIT_def
      erps_node_build_asserts_def)

end
