(* ===== verification/Erps_Api.thy ===== *)
theory Erps_Api
  imports Erps_Init
begin

text \<open>
  The public interface of \<^verbatim>\<open>include/zephyr/net/erps.h\<close>: looking rings up, and changing the
  configuration of a node before it is started.
\<close>

section \<open>Lookup\<close>

definition net_erps_lookup_iface :: "zephyr \<Rightarrow> u8 \<Rightarrow> u8 \<Rightarrow> sys \<Rightarrow> net_if option" where
  "net_erps_lookup_iface z rid port s =
     (if unat port \<ge> 2 then None
      else case find (\<lambda>n. ring_id (nodes s n) = rid) [0..<nnodes s] of
        None \<Rightarrow> None
      | Some n \<Rightarrow> net_if_lookup_by_dev z (dev (lnk s (n, unat port))))"

text \<open>
  \<open>struct erps_ring_info\<close>, the pairs as functions of the port. \<open>info_rpl_index\<close> is -1 when
  the node has no RPL.
\<close>

record erps_ring_info =
  info_ring_id :: u8
  info_reverting :: bool
  info_blocked :: "bool \<times> bool"
  info_requester_index :: u8
  info_rpl_index :: int
  info_ctrl_vid :: u16
  info_traffic_vid :: u16
  info_iface_port :: "net_if \<times> net_if"

definition erps_node_ring_info ::
    "zephyr \<Rightarrow> nat \<Rightarrow> nat \<Rightarrow> sys \<Rightarrow> int + erps_ring_info" where
  "erps_node_ring_info z n i s =
     (let node = nodes s n
      in case net_if_lookup_by_dev z (dev (ports node 0)) of
           None \<Rightarrow> Inl (- ENODEV)
         | Some iface0 \<Rightarrow>
             (case net_if_lookup_by_dev z (dev (ports node 1)) of
                None \<Rightarrow> Inl (- ENODEV)
              | Some iface1 \<Rightarrow>
                  Inr \<lparr>info_ring_id = ring_id node,
                       info_reverting = k_work_delayable_is_pending z (hist s) (WtrWork n),
                       info_blocked = (blocked (ports node 0), blocked (ports node 1)),
                       info_requester_index = of_nat i,
                       info_rpl_index = (case erps_node_get_rpl s n of None \<Rightarrow> -1 | Some _ \<Rightarrow> 1),
                       info_ctrl_vid = ctrl_vid node, info_traffic_vid = traffic_vid node,
                       info_iface_port = (iface0, iface1)\<rparr>))"

definition net_erps_ring_info_by_iface ::
    "zephyr \<Rightarrow> net_if option \<Rightarrow> sys \<Rightarrow> int + erps_ring_info" where
  "net_erps_ring_info_by_iface z iface s =
     (case net_if_get_device z iface of
        None \<Rightarrow> Inl (- ENODEV)
      | Some dv \<Rightarrow>
          (case find (\<lambda>l. dev (lnk s l) = dv) (all_links s) of
             None \<Rightarrow> Inl (- ENODEV)
           | Some (n, i) \<Rightarrow> erps_node_ring_info z n i s))"

definition net_erps_ring_mcast_addr :: "u32 \<Rightarrow> net_eth_addr" where
  "net_erps_ring_mcast_addr rid = mac_set_last ERPS_MCAST_MAC (ucast rid)"

definition net_erps_ring_get_ctrl_vid_by_iface ::
    "zephyr \<Rightarrow> net_if option \<Rightarrow> sys \<Rightarrow> int + u16" where
  "net_erps_ring_get_ctrl_vid_by_iface z iface s =
     (case net_erps_ring_info_by_iface z iface s of
        Inl ret \<Rightarrow> Inl ret
      | Inr info \<Rightarrow> Inr (info_ctrl_vid info))"

definition net_erps_ring_get_traffic_vid_by_iface ::
    "zephyr \<Rightarrow> net_if option \<Rightarrow> sys \<Rightarrow> int + u16" where
  "net_erps_ring_get_traffic_vid_by_iface z iface s =
     (case net_erps_ring_info_by_iface z iface s of
        Inl ret \<Rightarrow> Inl ret
      | Inr info \<Rightarrow> Inr (info_traffic_vid info))"

definition net_erps_ring_get_other_link ::
    "zephyr \<Rightarrow> net_if option \<Rightarrow> sys \<Rightarrow> net_if option" where
  "net_erps_ring_get_other_link z iface s =
     (case net_erps_ring_info_by_iface z iface s of
        Inl _ \<Rightarrow> None
      | Inr info \<Rightarrow>
          Some (if Some (fst (info_iface_port info)) = iface
                then snd (info_iface_port info) else fst (info_iface_port info)))"

section \<open>Configuration\<close>

text \<open>\<open>memcpy\<close> of the two structures through a temporary, then their indices.\<close>

definition swap_ports :: "erps_node \<Rightarrow> erps_node" where
  "swap_ports nd = nd\<lparr>ports := (ports nd)(0 := (ports nd 1)\<lparr>idx := 0\<rparr>,
                                          1 := (ports nd 0)\<lparr>idx := 1\<rparr>)\<rparr>"

definition net_erps_set_as_rpl ::
    "zephyr \<Rightarrow> net_if option \<Rightarrow> bool \<Rightarrow> sys \<Rightarrow> int \<times> sys" where
  "net_erps_set_as_rpl z iface is_owner s =
     (case erps_link_lookup_by_iface z iface s of
        None \<Rightarrow> (- ENODEV, s)
      | Some l \<Rightarrow>
          let node = erps_link_get_node s l
          in if state (nodes s node) \<noteq> ERPS_STATE_UNINIT then (- EPERM, s)
             else if rpl (lnk s (erps_node_other_port node l)) then (- EBUSY, s)
             else
               let s = upd_node node (\<lambda>nd. nd\<lparr>rpl_owner := is_owner, rpl_nbr := \<not> is_owner\<rparr>) s;
                   s = upd_link l (rpl_update (\<lambda>_. True)) s
               in (0, if l \<noteq> (node, 1) then upd_node node swap_ports s else s))"

text \<open>
  The test after the lookup is on the interface, not on the link: when the lookup of a
  non-null interface fails, the null link is dereferenced.
\<close>

definition net_erps_unset_rpl :: "zephyr \<Rightarrow> net_if option \<Rightarrow> sys \<Rightarrow> (int \<times> sys) option" where
  "net_erps_unset_rpl z iface s =
     (let l = erps_link_lookup_by_iface z iface s
      in if iface = None then Some (- ENODEV, s)
         else case l of
           None \<Rightarrow> None
         | Some l \<Rightarrow>
             let node = erps_link_get_node s l
             in if state (nodes s node) \<noteq> ERPS_STATE_UNINIT then Some (- EPERM, s)
                else Some (0, if rpl (lnk s l)
                     then upd_link l (rpl_update (\<lambda>_. False))
                            (upd_node node (\<lambda>nd. nd\<lparr>rpl_owner := False, rpl_nbr := False\<rparr>) s)
                     else s))"

definition net_erps_set_ring_id :: "zephyr \<Rightarrow> net_if option \<Rightarrow> u8 \<Rightarrow> sys \<Rightarrow> int \<times> sys" where
  "net_erps_set_ring_id z iface rid s =
     (case erps_link_lookup_by_iface z iface s of
        None \<Rightarrow> (- ENODEV, s)
      | Some l \<Rightarrow>
          if uint rid < ERPS_RING_ID_MIN \<or> uint rid > ERPS_RING_ID_MAX then (- EINVAL, s)
          else (0, upd_node (erps_link_get_node s l) (\<lambda>nd. nd\<lparr>ring_id := rid\<rparr>) s))"

end
