(* ===== verification/Erps_Shell.thy ===== *)
theory Erps_Shell
  imports Erps_Api
begin

text \<open>
  The shell commands of \<^verbatim>\<open>subsys/net/lib/shell/erps.c\<close>: \<^verbatim>\<open>net erps clear|ms|fs <ring> <port>\<close>.
  \<open>strtoul\<close> is the C library's, written out here for base 10: white space, an optional sign,
  digits; the result saturates at \<open>ULONG_MAX\<close>, which is a parameter, and a minus sign negates
  modulo \<open>ULONG_MAX + 1\<close>.
\<close>

section \<open>The C library\<close>

definition c_isspace :: "char \<Rightarrow> bool" where
  "c_isspace c \<longleftrightarrow> c = CHR '' '' \<or> (9 \<le> (of_char c :: nat) \<and> (of_char c :: nat) \<le> 13)"

definition c_isdigit :: "char \<Rightarrow> bool" where
  "c_isdigit c \<longleftrightarrow> 48 \<le> (of_char c :: nat) \<and> (of_char c :: nat) \<le> 57"

definition digit_val :: "char \<Rightarrow> nat" where
  "digit_val c = of_char c - 48"

definition digits_val :: "string \<Rightarrow> nat" where
  "digits_val ds = foldl (\<lambda>v c. 10 * v + digit_val c) 0 ds"

text \<open>
  The value, whether \<open>errno\<close> was set to \<open>ERANGE\<close>, and what is left of the string. Without a
  digit nothing is consumed and the value is 0.
\<close>

definition strtoul :: "nat \<Rightarrow> string \<Rightarrow> nat \<times> bool \<times> string" where
  "strtoul ulong_max str =
     (let rest = dropWhile c_isspace str;
          (neg, rest) = (case rest of
              [] \<Rightarrow> (False, rest)
            | c # cs \<Rightarrow> if c = CHR ''-'' then (True, cs)
                        else if c = CHR ''+'' then (False, cs) else (False, rest));
          ds = takeWhile c_isdigit rest;
          v = digits_val ds
      in if ds = [] then (0, False, str)
         else if v > ulong_max then (ulong_max, True, dropWhile c_isdigit rest)
         else (if neg then (ulong_max + 1 - v) mod (ulong_max + 1) else v, False,
               dropWhile c_isdigit rest))"

section \<open>The commands\<close>

definition UINT8_MAX :: nat where "UINT8_MAX = 255"

text \<open>A null string is \<open>None\<close>.\<close>

definition erps_sh_parse_u8 :: "nat \<Rightarrow> string option \<Rightarrow> int" where
  "erps_sh_parse_u8 ulong_max str =
     (case str of
        None \<Rightarrow> - EINVAL
      | Some str \<Rightarrow>
          (let (ul, range, endp) = strtoul ulong_max str
           in if endp \<noteq> [] \<or> range \<or> ul > UINT8_MAX
              then (if range then - ERANGE else - EINVAL)
              else uint (of_nat ul :: u8)))"

definition erps_sh_ctl ::
    "zephyr \<Rightarrow> nat \<Rightarrow> erps_event \<Rightarrow> string list \<Rightarrow> sys \<Rightarrow> (int \<times> sys) option" where
  "erps_sh_ctl z ulong_max ev argv s =
     (if length argv \<noteq> 3 then Some (- EINVAL, s)
      else
        let ring = erps_sh_parse_u8 ulong_max (Some (argv ! 1))
        in if ring < 0 then Some (ring, s)
           else
             let port = erps_sh_parse_u8 ulong_max (Some (argv ! 2))
             in if port < 0 then Some (port, s)
                else case net_erps_lookup_iface z (of_int ring) (of_int port) s of
                       None \<Rightarrow> Some (- ENODEV, s)
                     | Some iface \<Rightarrow> net_erps_ctl z (Some iface) ev s)"

definition erps_sh_clear ::
    "zephyr \<Rightarrow> nat \<Rightarrow> string list \<Rightarrow> sys \<Rightarrow> (int \<times> sys) option" where
  "erps_sh_clear z ulong_max argv = erps_sh_ctl z ulong_max ERPS_ADM_CLEAR argv"

definition erps_sh_manual_switch ::
    "zephyr \<Rightarrow> nat \<Rightarrow> string list \<Rightarrow> sys \<Rightarrow> (int \<times> sys) option" where
  "erps_sh_manual_switch z ulong_max argv = erps_sh_ctl z ulong_max ERPS_ADM_MANUAL_SWITCH argv"

definition erps_sh_forced_switch ::
    "zephyr \<Rightarrow> nat \<Rightarrow> string list \<Rightarrow> sys \<Rightarrow> (int \<times> sys) option" where
  "erps_sh_forced_switch z ulong_max argv = erps_sh_ctl z ulong_max ERPS_ADM_FORCED_SWITCH argv"

end
