(* ===== verification/Erps_Events.thy ===== *)
theory Erps_Events
  imports Erps_Api
begin

text \<open>
  Everything that can happen to a started system, as one step relation: calls of the public
  interface, received frames, expired timers, transmissions, management events, and the
  environment moving on. \<open>ring_ok\<close> is the invariant of the nodes; every event keeps it, and
  none leads to undefined behaviour.
\<close>

section \<open>Runs of a handler\<close>

text \<open>
  The states a handler reaches by handling any number of events, each of them accepted in the
  state it comes in.
\<close>

inductive reach :: "('e \<Rightarrow> 's \<Rightarrow> 's option) \<Rightarrow> ('s \<Rightarrow> 'e \<Rightarrow> bool) \<Rightarrow> 's \<Rightarrow> 's \<Rightarrow> bool"
  for handle ready s where
  reach_refl: "reach handle ready s s"
| reach_step: "reach handle ready s t \<Longrightarrow> ready t ev \<Longrightarrow> handle ev t = Some u \<Longrightarrow>
    reach handle ready s u"

lemma reach_one: "ready s ev \<Longrightarrow> handle ev s = Some t \<Longrightarrow> reach handle ready s t"
  by (rule reach_step [OF reach_refl])

locale event_loop =
  fixes handle :: "'e \<Rightarrow> 's \<Rightarrow> 's option"
    and ready :: "'s \<Rightarrow> 'e \<Rightarrow> bool"
    and ok :: "'s \<Rightarrow> bool"
  assumes handle_ok: "ok s \<Longrightarrow> ready s ev \<Longrightarrow> \<exists>t. handle ev s = Some t \<and> ok t"
begin

lemma reach_ok: "reach handle ready s t \<Longrightarrow> ok s \<Longrightarrow> ok t"
proof (induction rule: reach.induct)
  case (reach_step t ev u)
  then show ?case using handle_ok [of t ev] by auto
qed

lemma reach_not_stuck: "reach handle ready s t \<Longrightarrow> ok s \<Longrightarrow> ready t ev \<Longrightarrow> handle ev t \<noteq> None"
  using reach_ok handle_ok by blast

end

section \<open>Events\<close>

datatype erps_input =
  Ctl "net_if option" erps_event
| Frame "net_if option" pkt
| WtrTimer nat
| WtbTimer nat
| TxTimer nat nat
| LinkDownTimer nat nat
| MgmtEvent nat bool "net_if option"
| SetRingId "net_if option" u8
| SetRpl "net_if option" bool
| UnsetRpl "net_if option"
| World nat

fun erps_handle :: "zephyr \<Rightarrow> erps_input \<Rightarrow> sys \<Rightarrow> sys option" where
  "erps_handle z (Ctl i ev) s = map_option snd (net_erps_ctl z i ev s)"
| "erps_handle z (Frame i pkt) s = map_option snd (erps_recv z i pkt s)"
| "erps_handle z (WtrTimer n) s = map_option snd (erps_wtr_work z n s)"
| "erps_handle z (WtbTimer n) s = map_option snd (erps_wtb_work z n s)"
| "erps_handle z (TxTimer n p) s = Some (erps_tx_work z (n, p) s)"
| "erps_handle z (LinkDownTimer n p) s = map_option snd (erps_link_down_work z (n, p) s)"
| "erps_handle z (MgmtEvent n up i) s = Some (erps_iface_up_cb z n up i s)"
| "erps_handle z (SetRingId i rid) s = Some (snd (net_erps_set_ring_id z i rid s))"
| "erps_handle z (SetRpl i own) s = Some (snd (net_erps_set_as_rpl z i own s))"
| "erps_handle z (UnsetRpl i) s = map_option snd (net_erps_unset_rpl z i s)"
| "erps_handle z (World k) s = Some (emit (WorldStep k) s)"

text \<open>
  Timers fire on links and nodes that exist, and \<open>net_erps_unset_rpl\<close> is called on the
  interface of a ring link.
\<close>

fun erps_ready :: "zephyr \<Rightarrow> sys \<Rightarrow> erps_input \<Rightarrow> bool" where
  "erps_ready z s (WtrTimer n) = (n < nnodes s)"
| "erps_ready z s (WtbTimer n) = (n < nnodes s)"
| "erps_ready z s (TxTimer n p) = (n < nnodes s \<and> p < 2)"
| "erps_ready z s (LinkDownTimer n p) = (n < nnodes s \<and> p < 2)"
| "erps_ready z s (MgmtEvent n up i) = (n < nnodes s)"
| "erps_ready z s (UnsetRpl i) = (i = None \<or> erps_link_lookup_by_iface z i s \<noteq> None)"
| "erps_ready z s ev = True"

section \<open>The invariant\<close>

definition node_ok :: "zephyr \<Rightarrow> sys \<Rightarrow> nat \<Rightarrow> bool" where
  "node_ok z s n \<longleftrightarrow> idx_ok (nodes s n) \<and> role_ok (nodes s n) \<and> started (nodes s n) \<and>
     topreq_ok (nodes s n) \<and> tx_ok (nodes s n) \<and> hw_sync z s n \<and> \<not> mutex_held (hist s) n"

definition ring_ok :: "zephyr \<Rightarrow> sys \<Rightarrow> bool" where
  "ring_ok z s \<longleftrightarrow> ifaces_distinct z s \<and> (\<forall>n < nnodes s. node_ok z s n)"

lemma ring_okD: "ring_ok z s \<Longrightarrow> n < nnodes s \<Longrightarrow> node_ok z s n"
  by (simp add: ring_ok_def)

lemma ring_ok_stable: "ring_ok z s \<Longrightarrow> n < nnodes s \<Longrightarrow> stable z n s s"
  by (drule (1) ring_okD) (simp add: node_ok_def stable_refl)

lemma ring_ok_evolves:
  assumes "ring_ok z s" and "evolves z n s t" and "n < nnodes s"
  shows "ring_ok z t"
  unfolding ring_ok_def
proof (intro conjI allI impI)
  show "ifaces_distinct z t"
    using assms by (simp add: ring_ok_def evolves_ifaces_distinct)
  fix m assume "m < nnodes t"
  then have m: "m < nnodes s" using evolves_nnodes [OF assms(2)] by simp
  have cfg: "node_cfg (nodes t m) = node_cfg (nodes s m)"
    using assms(2) by (rule evolves_cfg)
  note ok = ring_okD [OF assms(1) m] ring_okD [OF assms(1,3)]
  have "hw_sync z t m"
    using assms m ok by (auto simp: evolves_def ring_ok_def node_ok_def)
  moreover have "topreq_ok (nodes t m) \<and> tx_ok (nodes t m) \<and> started (nodes t m)"
    using assms(2) ok by (cases "m = n") (auto simp: evolves_def node_ok_def)
  moreover have "\<not> mutex_held (hist t) m"
    using assms(2) ok by (auto simp: evolves_def node_ok_def)
  ultimately show "node_ok z t m"
    using ok node_cfg_idx_ok [OF cfg] node_cfg_role_ok [OF cfg] by (simp add: node_ok_def)
qed

text \<open>From a rule of the shape of \<open>wp_rules\<close> to the invariant.\<close>

lemma ring_ok_wp:
  assumes "ring_ok z s" and "n < nnodes s" and "wp m (\<lambda>_. stable z n s)"
  shows "\<exists>t. map_option snd m = Some t \<and> ring_ok z t"
  using assms ring_ok_evolves [OF assms(1) stable_evolves assms(2)]
  by (auto simp: wp_iff_Some)

section \<open>Every event keeps it\<close>

lemma wp_post_ok:
  assumes "ring_ok z s" and "n < nnodes s" and "p < 2" and "req = ERPS_REQ_RAPS_NR \<Longrightarrow> pdu \<noteq> None"
  shows "wp (erps_fsm_post z (n, p) req pdu s) (\<lambda>_. stable z n s)"
  using ring_okD [OF assms(1,2)] assms(4)
  by (intro wp_post [OF ring_ok_stable [OF assms(1,2)] assms(3)]) (auto simp: node_ok_def)

lemma post_ring_ok:
  assumes "ring_ok z s" and "n < nnodes s" and "p < 2" and "req = ERPS_REQ_RAPS_NR \<Longrightarrow> pdu \<noteq> None"
  shows "\<exists>t. map_option snd (erps_fsm_post z (n, p) req pdu s) = Some t \<and> ring_ok z t"
  using assms(1,2) wp_post_ok [OF assms] by (rule ring_ok_wp)

lemma local_post_ring_ok:
  "ring_ok z s \<Longrightarrow> n < nnodes s \<Longrightarrow> p < 2 \<Longrightarrow> req \<noteq> ERPS_REQ_RAPS_NR \<Longrightarrow>
    \<exists>t. map_option snd (erps_fsm_post z (n, p) req None s) = Some t \<and> ring_ok z t"
  by (rule post_ring_ok) auto

lemma net_post_ring_ok:
  assumes "ring_ok z s" and "req \<noteq> ERPS_REQ_RAPS_NR"
  shows "\<exists>t. map_option snd (net_erps_fsm_post z i req s) = Some t \<and> ring_ok z t"
proof (cases "erps_link_lookup_by_iface z i s")
  case None
  then show ?thesis using assms by (simp add: net_erps_fsm_post_def)
next
  case (Some l)
  obtain n p where l: "l = (n, p)" by fastforce
  from lookup_by_iface_SomeD [OF Some [unfolded l]] post_ring_ok [OF assms(1)] assms(2)
  show ?thesis by (simp add: net_erps_fsm_post_def Some l)
qed

lemma ctl_ring_ok:
  assumes "ring_ok z s"
  shows "\<exists>t. map_option snd (net_erps_ctl z i ev s) = Some t \<and> ring_ok z t"
  using net_post_ring_ok [OF assms] assms by (cases ev) (simp_all add: net_erps_ctl_def)

lemma evolves_recv_end:
  "evolves z n s t \<Longrightarrow> evolves z n s (emit (if b then PktUnref pkt else PktCursorRestore pkt) t)"
  by (simp add: evolves_then_emit)

lemma wp_recv_ok:
  assumes "ring_ok z s" and "erps_link_lookup_by_iface z i s = Some (n, p)"
  shows "wp (erps_recv z i pkt s) (\<lambda>_. stable z n s)"
proof -
  note np = lookup_by_iface_SomeD [OF assms(2)]
  have st: "stable z n s (emit (PktCursorBackup pkt) s)"
    using ring_ok_stable [OF assms(1) np(1)] by (rule stable_emit) simp
  have free: "\<not> mutex_held (hist s) n"
    using ring_okD [OF assms(1) np(1)] by (simp add: node_ok_def)
  show ?thesis
    using st by (auto simp: erps_recv_def assms(2) Let_def intro: stable_emit
        intro!: wp_eth_recv [OF st np(2) free])
qed

lemma recv_ring_ok:
  assumes "ring_ok z s"
  shows "\<exists>t. map_option snd (erps_recv z i pkt s) = Some t \<and> ring_ok z t"
proof (cases "erps_link_lookup_by_iface z i s")
  case None
  then show ?thesis using assms by (simp add: erps_recv_def)
next
  case (Some l)
  obtain n p where l: "l = (n, p)" by fastforce
  note np = lookup_by_iface_SomeD [OF Some [unfolded l]]
  show ?thesis
    by (rule ring_ok_wp [OF assms np(1) wp_recv_ok [OF assms Some [unfolded l]]])
qed

lemma ring_ok_upd_static:
  assumes "ring_ok z s"
    and "\<And>m. nodes t m = nodes s m \<or> (\<exists>r. nodes t m = (nodes s m)\<lparr>ring_id := r\<rparr>)"
    and "nnodes t = nnodes s" and "hist t = hist s"
  shows "ring_ok z t"
proof -
  have f: "ports (nodes t m) = ports (nodes s m) \<and> state (nodes t m) = state (nodes s m) \<and>
      local_topreq (nodes t m) = local_topreq (nodes s m) \<and>
      pdu_mut (nodes t m) = pdu_mut (nodes s m) \<and> rpl_owner (nodes t m) = rpl_owner (nodes s m) \<and>
      rpl_nbr (nodes t m) = rpl_nbr (nodes s m)" for m
    using assms(2) [of m] by auto
  then have l: "lnk t l = lnk s l" for l
    by (simp add: lnk_def)
  then have "ifaces_distinct z t = ifaces_distinct z s"
    by (intro ifaces_distinct_cong) (simp_all add: assms(3))
  then show ?thesis
    using assms(1) f l assms(3,4)
    by (simp add: ring_ok_def node_ok_def idx_ok_def role_ok_def started_def topreq_ok_def
        tx_ok_def hw_sync_def)
qed

lemma set_ring_id_ring_ok: "ring_ok z s \<Longrightarrow> ring_ok z (snd (net_erps_set_ring_id z i rid s))"
proof -
  have "ring_ok z (upd_node n (\<lambda>nd. nd\<lparr>ring_id := rid\<rparr>) s)" if "ring_ok z s" for n
    using that by (rule ring_ok_upd_static) auto
  then show "ring_ok z s \<Longrightarrow> ring_ok z (snd (net_erps_set_ring_id z i rid s))"
    by (simp add: net_erps_set_ring_id_def split: option.split)
qed

text \<open>A started node refuses to be reconfigured.\<close>

lemma set_as_rpl_started:
  assumes "ring_ok z s"
  shows "snd (net_erps_set_as_rpl z i own s) = s"
proof (cases "erps_link_lookup_by_iface z i s")
  case (Some l)
  obtain n p where l: "l = (n, p)" by fastforce
  note np = lookup_by_iface_SomeD [OF Some [unfolded l]]
  show ?thesis
    using ring_okD [OF assms np(1)] np(2)
    by (simp add: net_erps_set_as_rpl_def Some l node_ok_def started_def)
qed (simp add: net_erps_set_as_rpl_def)

lemma unset_rpl_started:
  assumes "ring_ok z s" and "i = None \<or> erps_link_lookup_by_iface z i s \<noteq> None"
  shows "map_option snd (net_erps_unset_rpl z i s) = Some s"
proof (cases "erps_link_lookup_by_iface z i s")
  case (Some l)
  obtain n p where l: "l = (n, p)" by fastforce
  note np = lookup_by_iface_SomeD [OF Some [unfolded l]]
  show ?thesis
    using ring_okD [OF assms(1) np(1)] np(2)
    by (simp add: net_erps_unset_rpl_def Some l node_ok_def started_def)
qed (use assms(2) in \<open>simp add: net_erps_unset_rpl_def\<close>)

lemma world_ring_ok: "ring_ok z s \<Longrightarrow> ring_ok z (emit (WorldStep k) s)"
  using ifaces_distinct_cong [of "emit (WorldStep k) s" s z]
  by (simp add: ring_ok_def node_ok_def hw_sync_def)

lemma erps_handle_ok:
  assumes "ring_ok z s" and "erps_ready z s ev"
  shows "\<exists>t. erps_handle z ev s = Some t \<and> ring_ok z t"
proof (cases ev)
  case (LinkDownTimer n p)
  then show ?thesis
    using assms post_ring_ok [OF assms(1), of n p ERPS_REQ_SF None]
    by (auto simp: erps_link_down_work_def split: option.split)
qed (use assms in \<open>auto simp del: map_option_eq_Some simp: ctl_ring_ok recv_ring_ok erps_wtr_work_def erps_wtb_work_def
    local_post_ring_ok set_ring_id_ring_ok set_as_rpl_started unset_rpl_started world_ring_ok
    intro: ring_ok_evolves [OF _ evolves_tx_work] ring_ok_evolves [OF _ evolves_iface_up_cb]\<close>)

interpretation erps: event_loop "erps_handle z" "erps_ready z" "ring_ok z" for z
  by unfold_locales (rule erps_handle_ok)

section \<open>What no event changes\<close>

text \<open>What one event does to the nodes, in any environment.\<close>

definition moves :: "zephyr \<Rightarrow> sys \<Rightarrow> sys \<Rightarrow> bool" where
  "moves z s t \<longleftrightarrow> (\<exists>n < nnodes s. evolves z n s t) \<or>
     nodes t = nodes s \<and> nnodes t = nnodes s \<and> (\<exists>h. hist t = h @ hist s)"

lemma moves_refl: "moves z s s"
  by (simp add: moves_def)

lemma moves_post:
  assumes "ring_ok z s" and "erps_fsm_post z (n, p) req None s = Some (r, t)" and "n < nnodes s"
    and "p < 2" and "req \<noteq> ERPS_REQ_RAPS_NR"
  shows "moves z s t"
  using wp_post_ok [OF assms(1,3,4), of req None] assms(2,3,5)
  by (auto simp: wp_iff_Some stable_def moves_def)

lemma moves_net_post:
  assumes "ring_ok z s" and "net_erps_fsm_post z i req s = Some (r, t)" and "req \<noteq> ERPS_REQ_RAPS_NR"
  shows "moves z s t"
proof (cases "erps_link_lookup_by_iface z i s")
  case None
  then show ?thesis using assms(2) moves_refl by (simp add: net_erps_fsm_post_def)
next
  case (Some l)
  obtain n p where l: "l = (n, p)" by fastforce
  show ?thesis
    using assms(2) moves_post [OF assms(1) _ lookup_by_iface_SomeD(1,2) [OF Some [unfolded l]] assms(3)]
    by (simp add: net_erps_fsm_post_def Some l)
qed

lemma moves_recv:
  assumes "ring_ok z s" and "erps_recv z i k s = Some (r, t)"
  shows "moves z s t"
proof (cases "erps_link_lookup_by_iface z i s")
  case None
  then show ?thesis using assms(2) moves_refl by (simp add: erps_recv_def)
next
  case (Some l)
  obtain n p where l: "l = (n, p)" by fastforce
  from wp_recv_ok [OF assms(1) Some [unfolded l], of k] assms(2)
    lookup_by_iface_SomeD(1) [OF Some [unfolded l]] show ?thesis
    by (auto simp: wp_iff_Some stable_def moves_def)
qed

lemma handle_moves:
  assumes "ring_ok z s" and "erps_ready z s ev" and "erps_handle z ev s = Some t"
  shows "moves z s t \<or> (\<exists>i r. ev = SetRingId i r)"
proof (cases ev)
  case (Ctl i e)
  then show ?thesis
    using assms(3) moves_net_post [OF assms(1), of i _ _ t] moves_refl [of z s]
    by (cases e) (auto simp: net_erps_ctl_def)
next
  case (Frame i k)
  then show ?thesis using assms(3) moves_recv [OF assms(1)] by auto
next
  case (TxTimer n p)
  then show ?thesis using assms(2,3) evolves_tx_work [of z n s p] by (auto simp: moves_def)
next
  case (MgmtEvent n u i)
  then show ?thesis using assms(2,3) evolves_iface_up_cb [of z n s u i] by (auto simp: moves_def)
next
  case (LinkDownTimer n p)
  then show ?thesis
    using assms(2,3) moves_post [OF assms(1), of n p ERPS_REQ_SF _ t] moves_refl [of z s]
    by (auto simp: erps_link_down_work_def split: option.splits)
next
  case (UnsetRpl i)
  then show ?thesis
    using assms(2,3) unset_rpl_started [OF assms(1), of i] moves_refl [of z s] by auto
qed (use assms moves_post [OF assms(1), of _ 0 _ _ t] moves_refl [of z s] in
    \<open>auto simp: erps_wtr_work_def erps_wtb_work_def set_as_rpl_started moves_def\<close>)

lemma handle_config:
  assumes "ring_ok z s" and "erps_ready z s ev" and "erps_handle z ev s = Some t"
  shows "nnodes t = nnodes s \<and> (\<exists>h. hist t = h @ hist s) \<and>
    node_cfg (nodes t n) = node_cfg ((nodes s n)\<lparr>ring_id := ring_id (nodes t n)\<rparr>)"
  using handle_moves [OF assms]
proof (elim disjE exE)
  assume "moves z s t"
  then have "nnodes t = nnodes s" "\<exists>h. hist t = h @ hist s" "node_cfg (nodes t n) = node_cfg (nodes s n)"
    using evolves_cfg [of z _ s t n] by (auto simp: moves_def evolves_def)
  then show ?thesis by (auto simp: node_cfg_def)
next
  fix i r assume "ev = SetRingId i r"
  then show ?thesis
    using assms(3)
    by (auto simp: net_erps_set_ring_id_def upd_node_def node_cfg_def split: option.splits if_splits)
qed

end
