(* ===== verification/Erps_Table.thy ===== *)
theory Erps_Table
  imports Erps_Node
begin

text \<open>
  The protection switching state machine as a table, after Table 10-2 of the recommendation
  the sources cite: for each state and request the list of actions to take. It speaks about
  one node by what can be seen of it: its role, its state, its local top request, which ports
  are blocked and failed, what it announces, which timers run, and the commands it has given
  so far. \<^verbatim>\<open>Erps_Refine\<close> proves that the handlers of the sources implement it when the drivers
  accept the commands; the handlers do so through pointers, error codes and early returns,
  none of which appear here.
\<close>

section \<open>The node\<close>

text \<open>Commands to the outside, newest first in \<open>ab_out\<close>.\<close>

datatype out = PortOff net_if | PortOn net_if | FlushFdb net_if | TxOn | TxOff | GuardOn
  | WtrOn | WtrOff | WtbOn | WtbOff

record ab =
  ab_owner :: bool
  ab_nbr :: bool
  ab_revertive :: bool
  ab_if :: "nat \<Rightarrow> net_if"
  ab_state :: erps_node_state
  ab_top :: erps_request
  ab_blocked :: "nat \<Rightarrow> bool"
  ab_failed :: "nat \<Rightarrow> bool"
  ab_msg :: "u8 \<times> u8"
  ab_wtr :: bool
  ab_wtb :: bool
  ab_out :: "out list"

definition ab_has_rpl :: "ab \<Rightarrow> bool" where
  "ab_has_rpl a \<longleftrightarrow> ab_owner a \<or> ab_nbr a"

definition say :: "out \<Rightarrow> ab \<Rightarrow> ab" where
  "say x a = a\<lparr>ab_out := x # ab_out a\<rparr>"

section \<open>Actions\<close>

datatype act = Block nat | Unblock nat | UnblockNonFailed nat | Tx raps_req_state u8 | StopTx
  | Guard | StartWtr | StartWtb | StopWtr | StopWtb | Flush nat | Goto erps_node_state

definition ab_block :: "nat \<Rightarrow> ab \<Rightarrow> ab" where
  "ab_block p a =
     (if ab_blocked a p then a
      else say (PortOff (ab_if a p)) (a\<lparr>ab_blocked := (ab_blocked a)(p := True)\<rparr>))"

definition ab_unblock :: "nat \<Rightarrow> ab \<Rightarrow> ab" where
  "ab_unblock p a =
     (let a' = a\<lparr>ab_failed := (ab_failed a)(p := False)\<rparr>
      in if ab_blocked a p
         then say (PortOn (ab_if a p)) (a'\<lparr>ab_blocked := (ab_blocked a)(p := False)\<rparr>)
         else a')"

text \<open>A timer that is started becomes the local top request unless that has a higher priority.\<close>

definition ab_note :: "erps_request \<Rightarrow> ab \<Rightarrow> ab" where
  "ab_note req a = (if req \<le> ab_top a then a\<lparr>ab_top := req\<rparr> else a)"

definition ab_unblock_nf :: "nat \<Rightarrow> ab \<Rightarrow> ab" where
  "ab_unblock_nf p a = (if ab_failed a p then a else ab_unblock p a)"

definition ab_start_wtr :: "ab \<Rightarrow> ab" where
  "ab_start_wtr a =
     (if ab_wtr a then a else say WtrOn ((ab_note ERPS_REQ_WTR_RUNNING a)\<lparr>ab_wtr := True\<rparr>))"

definition ab_start_wtb :: "ab \<Rightarrow> ab" where
  "ab_start_wtb a =
     (if ab_wtb a then a else say WtbOn ((ab_note ERPS_REQ_WTB_RUNNING a)\<lparr>ab_wtb := True\<rparr>))"

fun exec :: "act \<Rightarrow> ab \<Rightarrow> ab" where
  "exec (Block p) a = ab_block p a"
| "exec (Unblock p) a = ab_unblock p a"
| "exec (UnblockNonFailed p) a = ab_unblock_nf p a"
| "exec (Tx rs st) a = say TxOn (a\<lparr>ab_msg := (raps_rs_sc rs 0, st)\<rparr>)"
| "exec StopTx a = say TxOff a"
| "exec Guard a = say GuardOn a"
| "exec StartWtr a = ab_start_wtr a"
| "exec StartWtb a = ab_start_wtb a"
| "exec StopWtr a = say WtrOff (a\<lparr>ab_wtr := False\<rparr>)"
| "exec StopWtb a = say WtbOff (a\<lparr>ab_wtb := False\<rparr>)"
| "exec (Flush p) a = say (FlushFdb (ab_if a p)) a"
| "exec (Goto st) a = a\<lparr>ab_state := st\<rparr>"

text \<open>What the actions do to the ports and to the state.\<close>

lemma ab_blocked_simps [simp]:
  "ab_blocked (say x a) = ab_blocked a" "ab_blocked (ab_note req a) = ab_blocked a"
  "ab_blocked (ab_block p a) = (ab_blocked a)(p := True)"
  "ab_blocked (ab_unblock p a) = (ab_blocked a)(p := False)"
  "ab_blocked (ab_start_wtr a) = ab_blocked a" "ab_blocked (ab_start_wtb a) = ab_blocked a"
  by (auto simp: say_def ab_note_def ab_block_def ab_unblock_def ab_start_wtr_def
      ab_start_wtb_def Let_def fun_eq_iff)

lemma ab_state_simps [simp]:
  "ab_state (say x a) = ab_state a" "ab_state (ab_note req a) = ab_state a"
  "ab_state (ab_block p a) = ab_state a" "ab_state (ab_unblock p a) = ab_state a"
  "ab_state (ab_unblock_nf p a) = ab_state a"
  "ab_state (ab_start_wtr a) = ab_state a" "ab_state (ab_start_wtb a) = ab_state a"
  by (auto simp: say_def ab_note_def ab_block_def ab_unblock_def ab_unblock_nf_def
      ab_start_wtr_def ab_start_wtb_def Let_def)

lemma ab_failed_simps [simp]:
  "ab_failed (say x a) = ab_failed a" "ab_failed (ab_note req a) = ab_failed a"
  "ab_failed (ab_block p a) = ab_failed a"
  "ab_failed (ab_unblock p a) = (ab_failed a)(p := False)"
  "ab_failed (ab_start_wtr a) = ab_failed a" "ab_failed (ab_start_wtb a) = ab_failed a"
  by (auto simp: say_def ab_note_def ab_block_def ab_unblock_def ab_start_wtr_def
      ab_start_wtb_def Let_def fun_eq_iff)

lemma ab_msg_simps:
  "ab_msg (say x a) = ab_msg a" "ab_msg (ab_block p a) = ab_msg a" "ab_msg (ab_unblock p a) = ab_msg a"
  "ab_msg (ab_unblock_nf p a) = ab_msg a" "ab_top (say x a) = ab_top a" "ab_top (ab_block p a) = ab_top a"
  "ab_top (ab_unblock p a) = ab_top a" "ab_top (ab_unblock_nf p a) = ab_top a"
  by (simp_all add: say_def ab_block_def ab_unblock_def ab_unblock_nf_def Let_def)

section \<open>Rows\<close>

text \<open>A local switch of the port \<open>p\<close>: forced, manual, or because it failed.\<close>

definition switch_port :: "raps_req_state \<Rightarrow> erps_node_state \<Rightarrow> nat \<Rightarrow> ab \<Rightarrow> act list" where
  "switch_port rs st p a =
     [Block p, Tx rs (if ab_blocked a p then RAPS_DNF else 0), Unblock (1 - p)] @
     (if ab_blocked a p then [] else [Flush p]) @ [Goto st]"

text \<open>Somebody else's switch: open up and be quiet.\<close>

definition follow_all :: "act list" where
  "follow_all = [Unblock 0, Unblock 1, StopTx]"

definition follow :: "act list" where
  "follow = [UnblockNonFailed 0, UnblockNonFailed 1, StopTx]"

definition stop_timers :: "ab \<Rightarrow> act list" where
  "stop_timers a = (if ab_owner a then [StopWtr, StopWtb] else [])"

definition reverts :: "ab \<Rightarrow> bool" where
  "reverts a \<longleftrightarrow> ab_owner a \<and> ab_revertive a"

definition recover :: "ab \<Rightarrow> act list" where
  "recover a = (if ab_blocked a 0 \<or> ab_blocked a 1
     then [Guard, Tx RAPS_NR 0] @ (if reverts a then [StartWtb] else []) else [])"

text \<open>Give the traffic back: the RPL is blocked, and NR, RB says so.\<close>

definition block_rpl :: "nat \<Rightarrow> ab \<Rightarrow> act list" where
  "block_rpl p a =
     [Block 1, Tx RAPS_NR (if ab_blocked a 1 then RAPS_RB OR RAPS_DNF else RAPS_RB), Unblock 0] @
     (if ab_blocked a 1 then [] else [Flush p])"

definition row_idle :: "bool \<Rightarrow> nat \<Rightarrow> ab \<Rightarrow> erps_request \<Rightarrow> act list" where
  "row_idle higher p a req = (case req of
     ERPS_REQ_FS \<Rightarrow> switch_port RAPS_FS ERPS_STATE_FORCED_SWITCH p a
   | ERPS_REQ_RAPS_FS \<Rightarrow> follow_all @ [Goto ERPS_STATE_FORCED_SWITCH]
   | ERPS_REQ_SF \<Rightarrow> switch_port RAPS_SF ERPS_STATE_PROTECTION p a
   | ERPS_REQ_RAPS_SF \<Rightarrow> follow @ [Goto ERPS_STATE_PROTECTION]
   | ERPS_REQ_RAPS_MS \<Rightarrow> follow @ [Goto ERPS_STATE_MANUAL_SWITCH]
   | ERPS_REQ_MS \<Rightarrow> switch_port RAPS_MS ERPS_STATE_MANUAL_SWITCH p a
   | ERPS_REQ_RAPS_NR_RB \<Rightarrow> (if ab_has_rpl a then [Unblock 0] else []) @
       (if ab_owner a then [] else [StopTx])
   | ERPS_REQ_RAPS_NR \<Rightarrow> if higher \<and> \<not> ab_has_rpl a then follow else []
   | _ \<Rightarrow> [])"

definition row_protection :: "nat \<Rightarrow> ab \<Rightarrow> erps_request \<Rightarrow> act list" where
  "row_protection p a req = (case req of
     ERPS_REQ_FS \<Rightarrow> switch_port RAPS_FS ERPS_STATE_FORCED_SWITCH p a
   | ERPS_REQ_RAPS_FS \<Rightarrow> follow_all @ [Goto ERPS_STATE_FORCED_SWITCH]
   | ERPS_REQ_SF \<Rightarrow> switch_port RAPS_SF ERPS_STATE_PROTECTION p a
   | ERPS_REQ_CLEAR_SF \<Rightarrow> [Guard, Tx RAPS_NR 0] @ (if reverts a then [StartWtr] else []) @
       [Goto ERPS_STATE_PENDING]
   | ERPS_REQ_RAPS_NR_RB \<Rightarrow> [Goto ERPS_STATE_PENDING]
   | ERPS_REQ_RAPS_NR \<Rightarrow> (if reverts a then [StartWtr] else []) @ [Goto ERPS_STATE_PENDING]
   | _ \<Rightarrow> [])"

definition row_manual_switch :: "nat \<Rightarrow> ab \<Rightarrow> erps_request \<Rightarrow> act list" where
  "row_manual_switch p a req = (case req of
     ERPS_REQ_CLEAR \<Rightarrow> recover a @ [Goto ERPS_STATE_PENDING]
   | ERPS_REQ_FS \<Rightarrow> switch_port RAPS_FS ERPS_STATE_FORCED_SWITCH p a
   | ERPS_REQ_RAPS_FS \<Rightarrow> follow_all @ [Goto ERPS_STATE_FORCED_SWITCH]
   | ERPS_REQ_SF \<Rightarrow> switch_port RAPS_SF ERPS_STATE_PROTECTION p a
   | ERPS_REQ_RAPS_SF \<Rightarrow> follow @ [Goto ERPS_STATE_PROTECTION]
   | ERPS_REQ_RAPS_MS \<Rightarrow> recover a @
       (if (ab_blocked a 0 \<or> ab_blocked a 1) \<and> reverts a then [Goto ERPS_STATE_PENDING] else [])
   | ERPS_REQ_RAPS_NR_RB \<Rightarrow> [Goto ERPS_STATE_PENDING]
   | ERPS_REQ_RAPS_NR \<Rightarrow> (if reverts a then [StartWtb] else []) @ [Goto ERPS_STATE_PENDING]
   | _ \<Rightarrow> [])"

definition row_forced_switch :: "nat \<Rightarrow> ab \<Rightarrow> erps_request \<Rightarrow> act list" where
  "row_forced_switch p a req = (case req of
     ERPS_REQ_CLEAR \<Rightarrow> recover a @ [Goto ERPS_STATE_PENDING]
   | ERPS_REQ_FS \<Rightarrow> [Block p, Tx RAPS_FS 0, Flush p]
   | ERPS_REQ_RAPS_NR_RB \<Rightarrow> [Goto ERPS_STATE_PENDING]
   | ERPS_REQ_RAPS_NR \<Rightarrow> (if reverts a then [StartWtb] else []) @ [Goto ERPS_STATE_PENDING]
   | _ \<Rightarrow> [])"

definition row_pending :: "bool \<Rightarrow> nat \<Rightarrow> ab \<Rightarrow> erps_request \<Rightarrow> act list" where
  "row_pending higher p a req = (case req of
     ERPS_REQ_CLEAR \<Rightarrow> stop_timers a @ (if ab_has_rpl a then block_rpl p a else []) @
       [Goto ERPS_STATE_IDLE]
   | ERPS_REQ_FS \<Rightarrow> switch_port RAPS_FS ERPS_STATE_FORCED_SWITCH p a @ stop_timers a
   | ERPS_REQ_RAPS_FS \<Rightarrow> follow_all @ [Goto ERPS_STATE_FORCED_SWITCH] @ stop_timers a
   | ERPS_REQ_SF \<Rightarrow> switch_port RAPS_SF ERPS_STATE_PROTECTION p a @ stop_timers a
   | ERPS_REQ_RAPS_SF \<Rightarrow> follow @ [Goto ERPS_STATE_PROTECTION] @ stop_timers a
   | ERPS_REQ_RAPS_MS \<Rightarrow> follow @ [Goto ERPS_STATE_MANUAL_SWITCH] @ stop_timers a
   | ERPS_REQ_MS \<Rightarrow> stop_timers a @ switch_port RAPS_MS ERPS_STATE_MANUAL_SWITCH p a
   | ERPS_REQ_WTR_EXPIRES \<Rightarrow>
       if ab_owner a then [StopWtb] @ block_rpl p a @ [Goto ERPS_STATE_IDLE] else []
   | ERPS_REQ_WTB_EXPIRES \<Rightarrow>
       if ab_owner a then [StopWtr] @ block_rpl p a @ [Goto ERPS_STATE_IDLE] else []
   | ERPS_REQ_RAPS_NR_RB \<Rightarrow>
       (if ab_owner a then [StopWtr, StopWtb]
        else if ab_nbr a then [Block 1, Unblock 0, StopTx] else follow_all) @
       [Goto ERPS_STATE_IDLE]
   | ERPS_REQ_RAPS_NR \<Rightarrow> if higher then follow else []
   | _ \<Rightarrow> [])"

definition row :: "bool \<Rightarrow> nat \<Rightarrow> ab \<Rightarrow> erps_request \<Rightarrow> act list" where
  "row higher p a req = (case ab_state a of
     ERPS_STATE_IDLE \<Rightarrow> row_idle higher p a req
   | ERPS_STATE_PROTECTION \<Rightarrow> row_protection p a req
   | ERPS_STATE_MANUAL_SWITCH \<Rightarrow> row_manual_switch p a req
   | ERPS_STATE_FORCED_SWITCH \<Rightarrow> row_forced_switch p a req
   | ERPS_STATE_PENDING \<Rightarrow> row_pending higher p a req
   | ERPS_STATE_UNINIT \<Rightarrow> [])"

section \<open>Priority\<close>

text \<open>
  A request is dealt with when no local request of higher priority is in effect. Local
  requests and running timers stay in effect; anything else makes the node forget its own.
\<close>

definition local_reqs :: "erps_request set" where
  "local_reqs = {ERPS_REQ_SF, ERPS_REQ_FS, ERPS_REQ_MS, ERPS_REQ_WTR_RUNNING,
     ERPS_REQ_WTB_RUNNING}"

definition admit :: "erps_request \<Rightarrow> ab \<Rightarrow> ab option" where
  "admit req a =
     (if req = ERPS_REQ_CLEAR \<and> ab_top a \<notin> {ERPS_REQ_FS, ERPS_REQ_MS} \<and> \<not> ab_owner a then None
      else if req \<le> ab_top a \<or> req = ERPS_REQ_CLEAR_SF \<and> ab_top a = ERPS_REQ_SF
      then Some (a\<lparr>ab_top := (if req \<in> local_reqs then req else ERPS_REQ_INVALID)\<rparr>)
      else None)"

definition g8032 :: "bool \<Rightarrow> nat \<Rightarrow> erps_request \<Rightarrow> ab \<Rightarrow> ab" where
  "g8032 higher p req a =
     (case admit req a of
        None \<Rightarrow> a
      | Some a \<Rightarrow>
          let a = (if req = ERPS_REQ_SF then a\<lparr>ab_failed := (ab_failed a)(p := True)\<rparr> else a)
          in if req = ERPS_REQ_CLEAR_SF \<and> ab_has_rpl a \<and> p = 1 \<and>
                ab_state a \<noteq> ERPS_STATE_PROTECTION
             then a
             else fold exec (row higher p a req) a)"

lemmas row_defs = row_idle_def row_protection_def row_manual_switch_def row_forced_switch_def
  row_pending_def

end
