(* ===== verification/Erps_Refine.thy ===== *)
theory Erps_Refine
  imports Erps_Fsm Erps_Table
begin

text \<open>
  The handlers implement the table of \<^verbatim>\<open>Erps_Table\<close>. The environment is one that accepts
  commands (\<open>driver_ok\<close>) and the node has the interfaces it names (\<open>good\<close>); \<open>ab_of\<close> is what
  the table sees of the node. One rule per operation in \<open>sim_rules\<close> says that it returns 0
  and does what its action does; the rules compose along the code of a handler.
\<close>

section \<open>The environment\<close>

text \<open>Whether a work item is pending changes with the calls on that item, and with time.\<close>

fun pend_step :: "action \<Rightarrow> work \<Rightarrow> bool \<Rightarrow> bool" where
  "pend_step (WorkReschedule v t r) w b = (v = w \<or> b)"
| "pend_step (WorkCancel v) w b = (v \<noteq> w \<and> b)"
| "pend_step (WorkCancelSync v) w b = (v \<noteq> w \<and> b)"
| "pend_step a w b = b"

fun is_world_step :: "action \<Rightarrow> bool" where
  "is_world_step (WorldStep k) = True"
| "is_world_step a = False"

definition driver_ok :: "zephyr \<Rightarrow> bool" where
  "driver_ok z \<longleftrightarrow>
     (\<forall>h i b. net_eth_port_set_enabled z h i b = 0) \<and>
     (\<forall>h i v. net_eth_get_vlan_iface z h i v \<noteq> None) \<and>
     (\<forall>h i. net_eth_mac_flush z h i = 0) \<and>
     (\<forall>h w t. 0 \<le> k_work_reschedule z h w t) \<and>
     (\<forall>h i. \<exists>a. net_if_get_link_addr z h (Some i) = Some a \<and> length a = 6) \<and>
     (\<forall>h a w. \<not> is_world_step a \<longrightarrow>
        k_work_delayable_is_pending z (a # h) w =
        pend_step a w (k_work_delayable_is_pending z h w))"

definition good :: "zephyr \<Rightarrow> nat \<Rightarrow> sys \<Rightarrow> bool" where
  "good z n s \<longleftrightarrow> idx_ok (nodes s n) \<and> role_ok (nodes s n) \<and>
     (\<forall>p < 2. net_if_lookup_by_dev z (dev (lnk s (n, p))) \<noteq> None)"

section \<open>What the table sees\<close>

fun obs :: "nat \<Rightarrow> action \<Rightarrow> out list" where
  "obs n (PortSetEnabled i b r) = (if r = 0 then [if b then PortOn i else PortOff i] else [])"
| "obs n (MacFlush i r) = (if r = 0 then [FlushFdb i] else [])"
| "obs n (TimepointCalc t) = [GuardOn]"
| "obs n (WorkCancelSync w) = (if w = TxWork n 0 then [TxOn] else [])"
| "obs n (WorkCancel w) =
     (if w = TxWork n 0 then [TxOff] else if w = WtrWork n then [WtrOff]
      else if w = WtbWork n then [WtbOff] else [])"
| "obs n (WorkReschedule w t r) =
     (if w = WtrWork n then [WtrOn] else if w = WtbWork n then [WtbOn] else [])"
| "obs n a = []"

definition iface_of :: "zephyr \<Rightarrow> sys \<Rightarrow> nat \<Rightarrow> nat \<Rightarrow> net_if" where
  "iface_of z s n p = the (net_if_lookup_by_dev z (dev (lnk s (n, p))))"

definition ab_of :: "zephyr \<Rightarrow> nat \<Rightarrow> sys \<Rightarrow> ab" where
  "ab_of z n s =
     \<lparr>ab_owner = rpl_owner (nodes s n), ab_nbr = rpl_nbr (nodes s n),
      ab_revertive = revertive (nodes s n), ab_if = iface_of z s n,
      ab_state = state (nodes s n), ab_top = local_topreq (nodes s n),
      ab_blocked = (\<lambda>p. blocked (lnk s (n, p))), ab_failed = (\<lambda>p. failed (lnk s (n, p))),
      ab_msg = (mut_rs_sc (pdu_mut (nodes s n)), mut_status (pdu_mut (nodes s n))),
      ab_wtr = k_work_delayable_is_pending z (hist s) (WtrWork n),
      ab_wtb = k_work_delayable_is_pending z (hist s) (WtbWork n),
      ab_out = concat (map (obs n) (hist s))\<rparr>"

definition absr :: "zephyr \<Rightarrow> nat \<Rightarrow> ab \<Rightarrow> sys \<Rightarrow> bool" where
  "absr z n a s \<longleftrightarrow> good z n s \<and> ab_of z n s = a"

named_theorems sim_rules \<open>an operation of the code does what an action of the table does\<close>

lemma good_evolves:
  assumes "good z n s" and "evolves z n s s'"
  shows "good z n s'"
proof -
  have "node_cfg (nodes s' n) = node_cfg (nodes s n)"
    using assms(2) by (rule evolves_cfg)
  from node_cfg_idx_ok [OF this] node_cfg_role_ok [OF this] show ?thesis
    using assms by (simp add: good_def evolves_dev [OF assms(2)])
qed

lemma absr_simps:
  assumes "absr z n a s"
  shows "rpl_owner (nodes s n) = ab_owner a" "rpl_nbr (nodes s n) = ab_nbr a"
    "revertive (nodes s n) = ab_revertive a" "state (nodes s n) = ab_state a"
    "local_topreq (nodes s n) = ab_top a" "blocked (lnk s (n, p)) = ab_blocked a p"
    "failed (lnk s (n, p)) = ab_failed a p" "idx_ok (nodes s n)"
  using assms by (auto simp: absr_def ab_of_def good_def)

lemma absr_iface:
  assumes "absr z n a s" and "p < 2"
  shows "net_if_lookup_by_dev z (dev (lnk s (n, p))) = Some (ab_if a p)"
  using assms by (auto simp: absr_def ab_of_def good_def iface_of_def)

lemma absr_get_node [simp]: "absr z n a s \<Longrightarrow> p < 2 \<Longrightarrow> erps_link_get_node s (n, p) = n"
  by (simp add: absr_simps)

text \<open>An action of the environment moves the abstraction by what the table sees of it.\<close>

lemma driver_okD:
  assumes "driver_ok z"
  shows "net_eth_port_set_enabled z h i b = 0" "net_eth_get_vlan_iface z h i v \<noteq> None"
    "net_eth_mac_flush z h i = 0" "\<not> k_work_reschedule z h w t < 0"
    "\<not> is_world_step a \<Longrightarrow> k_work_delayable_is_pending z (a # h) w =
        pend_step a w (k_work_delayable_is_pending z h w)"
  using assms by (auto simp: driver_ok_def not_less)

lemma iface_of_emit [simp]: "iface_of z (emit a s) n = iface_of z s n"
  by (simp add: iface_of_def fun_eq_iff)

lemma iface_of_upd_link [simp]:
  "(\<And>k. dev (f k) = dev k) \<Longrightarrow> iface_of z (upd_link l f s) n = iface_of z s n"
  by (simp add: iface_of_def fun_eq_iff)

lemma iface_of_upd_node [simp]:
  "(\<And>nd. ports (f nd) = ports nd) \<Longrightarrow> iface_of z (upd_node m f s) n = iface_of z s n"
  by (simp add: iface_of_def fun_eq_iff lnk_def)

definition ab_emit :: "nat \<Rightarrow> action \<Rightarrow> ab \<Rightarrow> ab" where
  "ab_emit n x a = a\<lparr>ab_wtr := pend_step x (WtrWork n) (ab_wtr a),
     ab_wtb := pend_step x (WtbWork n) (ab_wtb a), ab_out := obs n x @ ab_out a\<rparr>"

lemma ab_of_emit:
  "driver_ok z \<Longrightarrow> \<not> is_world_step x \<Longrightarrow> ab_of z n (emit x s) = ab_emit n x (ab_of z n s)"
  by (simp add: ab_of_def ab_emit_def driver_okD)

text \<open>A call that the table does not see.\<close>

definition unseen :: "nat \<Rightarrow> action \<Rightarrow> bool" where
  "unseen n x \<longleftrightarrow> \<not> is_world_step x \<and> obs n x = [] \<and>
     (\<forall>b. pend_step x (WtrWork n) b = b) \<and> (\<forall>b. pend_step x (WtbWork n) b = b)"

lemma ab_of_unseen: "driver_ok z \<Longrightarrow> unseen n x \<Longrightarrow> ab_of z n (emit x s) = ab_of z n s"
  by (simp add: ab_of_emit unseen_def ab_emit_def)

lemma ab_of_upd_link:
  assumes "\<And>k. dev (f k) = dev k"
  shows "ab_of z n (upd_link (n, p) f s) = (ab_of z n s)
    \<lparr>ab_blocked := (ab_blocked (ab_of z n s))(p := blocked (f (lnk s (n, p)))),
     ab_failed := (ab_failed (ab_of z n s))(p := failed (f (lnk s (n, p))))\<rparr>"
  using assms by (auto simp: ab_of_def nodes_upd_link fun_eq_iff)

lemma ab_of_upd_link_neutral:
  assumes "\<And>k. dev (f k) = dev k" "\<And>k. blocked (f k) = blocked k" "\<And>k. failed (f k) = failed k"
  shows "ab_of z n (upd_link (n, p) f s) = ab_of z n s"
  using assms by (auto simp: ab_of_upd_link) (auto simp: ab_of_def fun_eq_iff)

section \<open>The operations\<close>

lemma wp_conj: "wp m P \<Longrightarrow> wp m Q \<Longrightarrow> wp m (\<lambda>r s. P r s \<and> Q r s)"
  by (auto simp: wp_iff_Some)

lemma simI:
  assumes "absr z n a s" and "wp m (\<lambda>_. evolves z n s)"
    and "wp m (\<lambda>r s'. r = 0 \<and> ab_of z n s' = g (ab_of z n s))"
    and "\<And>s'. absr z n (g a) s' \<Longrightarrow> Q 0 s'"
  shows "wp m Q"
  using wp_conj [OF assms(2,3)]
  by (rule wp_mono) (use assms(1,4) in \<open>auto simp: absr_def dest: good_evolves\<close>)

lemma absr_step:
  "absr z n a s \<Longrightarrow> evolves z n s s' \<Longrightarrow> ab_of z n s' = g (ab_of z n s) \<Longrightarrow> absr z n (g a) s'"
  by (auto simp: absr_def dest: good_evolves)

lemma pend_unseen_simps [simp]:
  "unseen n (IfDown i)" "unseen n (IfUp i)" "unseen n (PktRead k m r)"
  "unseen n (WorkCancel (LinkDownWork m p))" "unseen n (WorkCancel (TxWork n (Suc q)))"
  "unseen n (WorkCancelSync (TxWork n (Suc q)))" "unseen n (WorkReschedule (TxWork m p) t r)"
  "unseen n (MutexLock m r)" "unseen n (MutexUnlock m)"
  by (simp_all add: unseen_def)

lemma ab_of_block_switch:
  assumes "driver_ok z" and "p < 2" and "\<not> blocked (lnk s (n, p))"
    and "net_if_lookup_by_dev z (dev (lnk s (n, p))) = Some i"
  shows "ab_of z n (block_switch n p i s) = ab_block p (ab_of z n s)"
proof -
  have del: "ab_of z n (erps_link_delete_node_id_bpr (n, q) t) = ab_of z n t" for q t
    unfolding erps_link_delete_node_id_bpr_def by (rule ab_of_upd_link_neutral) simp_all
  have i: "iface_of z s n p = i"
    using assms(4) by (simp add: iface_of_def)
  show ?thesis
    using assms(1,3) i
    by (simp add: block_switch_def del ab_of_upd_link ab_of_emit ab_emit_def ab_block_def say_def)
      (simp add: ab_of_def fun_upd_idem)
qed

lemma sim_block [sim_rules]:
  assumes "driver_ok z" and "absr z n a s" and "p < 2"
    and "\<And>s'. absr z n (ab_block p a) s' \<Longrightarrow> Q 0 s'"
  shows "wp (erps_link_block z (n, p) s) Q"
proof (rule simI [where g = "ab_block p", OF assms(2)])
  note s = absr_simps [OF assms(2)] absr_iface [OF assms(2,3)]
  have i: "idx_ok (nodes s n)" by (rule s)
  show "wp (erps_link_block z (n, p) s) (\<lambda>_. evolves z n s)"
    using i assms(3) by (rule evolves_block)
  show "wp (erps_link_block z (n, p) s) (\<lambda>r s'. r = 0 \<and> ab_of z n s' = ab_block p (ab_of z n s))"
  proof (cases "blocked (lnk s (n, p))")
    case True
    then show ?thesis
      by (simp add: block_eq [OF i assms(3)]) (simp add: ab_block_def ab_of_def)
  next
    case False
    with ab_of_block_switch [OF assms(1,3) False] show ?thesis
      using driver_okD [OF assms(1)] s(9)
      by (auto simp: block_eq [OF i assms(3)] ab_of_unseen [OF assms(1)] split: option.split)
  qed
qed (rule assms(4))

lemma ab_of_unfail:
  "ab_of z n (unfail n p s) =
     (ab_of z n s)\<lparr>ab_failed := (ab_failed (ab_of z n s))(p := False)\<rparr>"
  unfolding unfail_def by (simp add: ab_of_upd_link) (simp add: ab_of_def fun_upd_idem)

lemma ab_of_unblock_switch:
  assumes "driver_ok z" and "p < 2" and "blocked (lnk s (n, p))"
    and "net_if_lookup_by_dev z (dev (lnk s (n, p))) = Some i"
  shows "ab_of z n (unblock_switch n p i (unfail n p s)) = ab_unblock p (ab_of z n s)"
proof -
  have i: "iface_of z s n p = i"
    using assms(4) by (simp add: iface_of_def)
  show ?thesis
    using assms(1,3) i
    by (simp add: unblock_switch_def ab_of_upd_link ab_of_emit ab_emit_def ab_of_unfail
        ab_unblock_def say_def Let_def)
      (simp add: ab_of_def unfail_def)
qed

lemma sim_unblock [sim_rules]:
  assumes "driver_ok z" and "absr z n a s" and "p < 2"
    and "\<And>s'. absr z n (ab_unblock p a) s' \<Longrightarrow> Q 0 s'"
  shows "wp (erps_link_unblock z (n, p) s) Q"
proof (rule simI [where g = "ab_unblock p", OF assms(2)])
  note s = absr_simps [OF assms(2)] absr_iface [OF assms(2,3)]
  have i: "idx_ok (nodes s n)" by (rule s)
  show "wp (erps_link_unblock z (n, p) s) (\<lambda>_. evolves z n s)"
    using i assms(3) by (rule evolves_unblock)
  show "wp (erps_link_unblock z (n, p) s)
      (\<lambda>r s'. r = 0 \<and> ab_of z n s' = ab_unblock p (ab_of z n s))"
  proof (cases "blocked (lnk s (n, p))")
    case True
    with ab_of_unblock_switch [OF assms(1,3) True] show ?thesis
      using driver_okD [OF assms(1)] s(9)
      by (auto simp: unblock_eq [OF i assms(3)] ab_of_unseen [OF assms(1)] split: option.split)
  next
    case False
    then show ?thesis
      by (simp add: unblock_eq [OF i assms(3)] ab_of_unfail)
        (simp add: ab_unblock_def ab_of_def Let_def)
  qed
qed (rule assms(4))

lemma sim_unblock_all [sim_rules]:
  assumes "driver_ok z" and "absr z n a s"
    and "\<And>s'. absr z n (ab_unblock (Suc 0) (ab_unblock 0 a)) s' \<Longrightarrow> Q 0 s'"
  shows "wp (erps_node_unblock_all z n s) Q"
  using assms by (auto simp: erps_node_unblock_all_def intro!: sim_unblock)

lemma sim_unblock_non_failed [sim_rules]:
  assumes "driver_ok z" and "absr z n a s"
    and "\<And>s'. absr z n (ab_unblock_nf (Suc 0) (ab_unblock_nf 0 a)) s' \<Longrightarrow> Q 0 s'"
  shows "wp (erps_node_unblock_non_failed z n s) Q"
  using assms
  by (auto simp: erps_node_unblock_non_failed_def ab_unblock_nf_def absr_simps
      intro!: sim_unblock)

lemma sim_flush [sim_rules]:
  assumes "driver_ok z" and "absr z n a s" and "p < 2"
    and "\<And>s'. absr z n (say (FlushFdb (ab_if a p)) a) s' \<Longrightarrow> Q 0 s'"
  shows "wp (erps_flush_fdb z (n, p) s) Q"
proof -
  have "absr z n (ab_emit n (MacFlush (ab_if a p) 0) a) (emit (MacFlush (ab_if a p) 0) s)"
    by (rule absr_step [OF assms(2)]) (simp_all add: evolves_emit ab_of_emit assms(1))
  then show ?thesis
    using assms(4)
    by (simp add: erps_flush_fdb_def absr_iface [OF assms(2,3)] do_mac_flush_def
        driver_okD [OF assms(1)] ab_emit_def say_def)
qed

lemma absr_emit:
  assumes "driver_ok z" and "absr z n a s" and "quiet x" and "\<not> is_world_step x"
  shows "absr z n (ab_emit n x a) (emit x s)"
  by (rule absr_step [OF assms(2)]) (simp_all add: evolves_emit ab_of_emit assms)

lemma absr_emit_unseen:
  assumes "driver_ok z" and "absr z n a s" and "quiet x" and "unseen n x"
  shows "absr z n a (emit x s)"
  by (rule absr_step [OF assms(2), where g = "\<lambda>x. x"])
    (simp_all add: evolves_emit ab_of_unseen assms)

lemma sched_ports_sim:
  assumes "driver_ok z" and "absr z n a s" and "0 \<le> ret" and "set is \<subseteq> {..<2}"
  shows "\<exists>r s'. erps_node_sched_ports z n is ret s = (r, s') \<and> 0 \<le> r \<and> absr z n a s'"
  using assms
proof (induction "is" arbitrary: ret s)
  case Nil
  then show ?case by simp
next
  case (Cons i "is")
  have r: "0 \<le> k_work_reschedule z h w t" for h w t
    using driver_okD(4) [OF Cons.prems(1)] by (simp add: not_less)
  have "absr z n a (emit (WorkReschedule (TxWork n i) t x) s)" for t x
    by (rule absr_emit_unseen [OF Cons.prems(1,2)]) simp_all
  then show ?case
    using Cons by (auto simp: do_reschedule_def Let_def r)
qed

lemma absr_sched_prep:
  assumes "driver_ok z" and "absr z n a s" and "rs \<in> {0x00, 0x70, 0xb0, 0xd0, 0xe0}"
  shows "absr z n (say TxOn (a\<lparr>ab_msg := (rs, st)\<rparr>)) (sched_prep n rs st s)"
proof -
  have burst: "ab_of z n (upd_link (n, p) (\<lambda>k. k\<lparr>tx_burst := b\<rparr>) t) = ab_of z n t" for p b t
    by (rule ab_of_upd_link_neutral) simp_all
  have mut: "ab_of z n (upd_node n (\<lambda>nd. nd\<lparr>pdu_mut := \<lparr>mut_rs_sc = rs, mut_status = st\<rparr>\<rparr>) t) =
      (ab_of z n t)\<lparr>ab_msg := (rs, st)\<rparr>" for t
    by (simp add: ab_of_def lnk_def)
  have "ab_of z n (sched_prep n rs st s) = say TxOn ((ab_of z n s)\<lparr>ab_msg := (rs, st)\<rparr>)"
    by (simp add: sched_prep_def Let_def burst mut ab_of_emit ab_of_unseen assms(1) ab_emit_def
        say_def)
  then show ?thesis
    by (rule absr_step [OF assms(2) evolves_sched_prep [OF assms(3)]])
qed

lemma sim_sched_tx [sim_rules]:
  assumes "driver_ok z" and "absr z n a s" and "raps_req_state_valid rs"
    and "\<And>s'. absr z n (exec (Tx rs st) a) s' \<Longrightarrow> Q 0 s'"
  shows "wp (erps_node_sched_tx z n rs 0 st s) Q"
proof -
  have "absr z n (exec (Tx rs st) a) (sched_prep n (raps_rs_sc rs 0) st s)"
    using absr_sched_prep [OF assms(1,2) raps_rs_sc_valid [OF assms(3)]] by simp
  from sched_ports_sim [OF assms(1) this, of 0 "[0, 1]"] obtain r s' where
    "erps_node_sched_ports z n [0, 1] 0 (sched_prep n (raps_rs_sc rs 0) st s) = (r, s')"
    "0 \<le> r" "absr z n (exec (Tx rs st) a) s'" by auto
  then show ?thesis
    using assms(4) by (simp add: sched_tx_eq [OF assms(3)] del: erps_node_sched_ports.simps)
qed

section \<open>Operations that do not fail\<close>

lemma absr_transition [simp, intro!]:
  assumes "absr z n a s" and "st \<noteq> ERPS_STATE_UNINIT"
  shows "absr z n (a\<lparr>ab_state := st\<rparr>) (erps_fsm_transition n st s)"
proof (rule absr_step [OF assms(1) evolves_transition [OF assms(2)]])
  show "ab_of z n (erps_fsm_transition n st s) = (ab_of z n s)\<lparr>ab_state := st\<rparr>"
    by (auto simp: erps_fsm_transition_def ab_of_def lnk_def)
qed

lemma absr_stop_tx [simp, intro!]:
  "driver_ok z \<Longrightarrow> absr z n a s \<Longrightarrow> absr z n (say TxOff a) (erps_node_stop_tx n s)"
  unfolding erps_node_stop_tx_def
  using absr_emit_unseen [OF _ absr_emit, of z n a s "WorkCancel (TxWork n 0)"
      "WorkCancel (TxWork n 1)"]
  by (simp add: ab_emit_def say_def)

lemma absr_stop_timers:
  assumes "driver_ok z" and "absr z n a s"
  shows "absr z n (exec StopWtr a) (erps_node_stop_wtr n s)"
    and "absr z n (exec StopWtb a) (erps_node_stop_wtb n s)"
  using absr_emit [OF assms, of "WorkCancel (WtrWork n)"]
    absr_emit [OF assms, of "WorkCancel (WtbWork n)"]
  by (simp_all add: erps_node_stop_wtr_def erps_node_stop_wtb_def ab_emit_def say_def)

lemma absr_guard:
  assumes "driver_ok z" and "absr z n a s"
  shows "absr z n (say GuardOn a) (erps_node_start_guard_timer z n s)"
proof (rule absr_step [OF assms(2) evolves_guard])
  have "ab_of z n (upd_node n (\<lambda>nd. nd\<lparr>guard_timer_expiry := x\<rparr>) t) = ab_of z n t" for x t
    by (simp add: ab_of_def lnk_def)
  then show "ab_of z n (erps_node_start_guard_timer z n s) = say GuardOn (ab_of z n s)"
    by (simp add: erps_node_start_guard_timer_def do_timepoint_calc_def ab_of_emit assms(1)
        ab_emit_def say_def)
qed

lemma absr_note:
  assumes "absr z n a s" and "req \<in> running_reqs"
  shows "absr z n (ab_note req a) (note_running n req s)"
proof (rule absr_step [OF assms(1)])
  show "evolves z n s (note_running n req s)"
    using assms(2) by (rule running.evolves_note_running)
  show "ab_of z n (note_running n req s) = ab_note req (ab_of z n s)"
    by (auto simp: note_running_def ab_note_def ab_of_def lnk_def)
qed

section \<open>Timers\<close>

context running_post
begin

lemma sim_start_timer:
  assumes "driver_ok z" and "absr z n a s"
    and "w = WtrWork n \<and> req = ERPS_REQ_WTR_RUNNING \<or> w = WtbWork n \<and> req = ERPS_REQ_WTB_RUNNING"
    and "k_work_delayable_is_pending z (hist s) w \<Longrightarrow> Q 0 s"
    and "\<And>t r. \<not> k_work_delayable_is_pending z (hist s) w \<Longrightarrow>
      Q 0 (emit (WorkReschedule w t r) (note_running n req s))"
  shows "wp (erps_node_start_timer post z n w s) Q"
  using assms(3-5) driver_okD(4) [OF assms(1)]
  by (auto simp: start_timer_eq absr_simps(8) [OF assms(2)] Let_def)

lemma absr_started:
  assumes "driver_ok z" and "absr z n a s" and "req \<in> running_reqs"
  shows "absr z n (ab_emit n (WorkReschedule w t r) (ab_note req a))
    (emit (WorkReschedule w t r) (note_running n req s))"
  by (rule absr_emit [OF assms(1) absr_note [OF assms(2,3)]]) simp_all

lemma sim_start_wtr:
  assumes "driver_ok z" and "absr z n a s"
    and "\<And>s'. absr z n (exec StartWtr a) s' \<Longrightarrow> Q 0 s'"
  shows "wp (erps_node_start_wtr post z n s) Q"
proof -
  have p: "k_work_delayable_is_pending z (hist s) (WtrWork n) = ab_wtr a"
    using assms(2) by (auto simp: absr_def ab_of_def)
  show ?thesis
    unfolding erps_node_start_wtr_def
    by (rule sim_start_timer [OF assms(1,2), where req = ERPS_REQ_WTR_RUNNING])
      (use p assms(2) absr_started [OF assms(1,2), of ERPS_REQ_WTR_RUNNING "WtrWork n"]
        in \<open>auto simp: running_reqs_def ab_emit_def say_def ab_note_def ab_start_wtr_def
          ab_start_wtb_def intro!: assms(3)\<close>)
qed

lemma sim_start_wtb:
  assumes "driver_ok z" and "absr z n a s"
    and "\<And>s'. absr z n (exec StartWtb a) s' \<Longrightarrow> Q 0 s'"
  shows "wp (erps_node_start_wtb post z n s) Q"
proof -
  have p: "k_work_delayable_is_pending z (hist s) (WtbWork n) = ab_wtb a"
    using assms(2) by (auto simp: absr_def ab_of_def)
  show ?thesis
    unfolding erps_node_start_wtb_def
    by (rule sim_start_timer [OF assms(1,2), where req = ERPS_REQ_WTB_RUNNING])
      (use p assms(2) absr_started [OF assms(1,2), of ERPS_REQ_WTB_RUNNING "WtbWork n"]
        in \<open>auto simp: running_reqs_def ab_emit_def say_def ab_note_def ab_start_wtr_def
          ab_start_wtb_def intro!: assms(3)\<close>)
qed

end

section \<open>The shared parts of the handlers\<close>

lemma absr_other: "absr z n a s \<Longrightarrow> p < 2 \<Longrightarrow> erps_node_other_port n (n, p) = (n, 1 - p)"
  by simp

lemma absr_is_blocked: "absr z n a s \<Longrightarrow> erps_link_is_blocked s (n, p) = ab_blocked a p"
  by (simp add: erps_link_is_blocked_def absr_simps)

lemma valid_states [simp]:
  "raps_req_state_valid RAPS_NR" "raps_req_state_valid RAPS_MS"
  "raps_req_state_valid RAPS_SF" "raps_req_state_valid RAPS_FS"
  by (simp_all add: raps_req_state_valid_def)

declare raps_req_states [simp del]

text \<open>Actions leave the role alone.\<close>

lemma ab_role_simps [simp]:
  "ab_if (say x a) = ab_if a" "ab_if (ab_block p a) = ab_if a" "ab_if (ab_unblock p a) = ab_if a"
  "ab_if (ab_unblock_nf p a) = ab_if a" "ab_owner (ab_unblock_nf p a) = ab_owner a"
  "ab_nbr (ab_unblock_nf p a) = ab_nbr a" "ab_revertive (ab_unblock_nf p a) = ab_revertive a"
  "ab_if (ab_start_wtr a) = ab_if a" "ab_owner (ab_start_wtr a) = ab_owner a"
  "ab_if (ab_start_wtb a) = ab_if a" "ab_owner (ab_start_wtb a) = ab_owner a"
  "ab_owner (say x a) = ab_owner a" "ab_owner (ab_block p a) = ab_owner a"
  "ab_owner (ab_unblock p a) = ab_owner a"
  "ab_nbr (say x a) = ab_nbr a" "ab_nbr (ab_block p a) = ab_nbr a"
  "ab_nbr (ab_unblock p a) = ab_nbr a"
  "ab_revertive (say x a) = ab_revertive a" "ab_revertive (ab_block p a) = ab_revertive a"
  "ab_revertive (ab_unblock p a) = ab_revertive a"
  by (simp_all add: say_def ab_block_def ab_unblock_def ab_unblock_nf_def ab_start_wtr_def
      ab_start_wtb_def ab_note_def Let_def)

text \<open>The accessors of the code, in terms of what the table sees.\<close>

lemma absr_is:
  assumes "absr z n a s"
  shows "erps_node_is_rpl_owner s n = ab_owner a" "erps_node_is_rpl_nbr s n = ab_nbr a"
    "erps_node_is_revertive s n = ab_revertive a"
    "erps_node_any_link_blocked s n \<longleftrightarrow> ab_blocked a 0 \<or> ab_blocked a 1"
    "erps_node_get_rpl s n = (if ab_has_rpl a then Some (n, 1) else None)"
    "\<not> (ab_owner a \<and> ab_nbr a)"
  using absr_simps(1-3) [OF assms] absr_simps(6) [OF assms, of 0]
    absr_simps(6) [OF assms, of 1] assms
  by (auto simp: erps_node_is_rpl_owner_def erps_node_is_rpl_nbr_def erps_node_is_revertive_def
      erps_node_any_link_blocked_def erps_node_get_rpl_def lnk_def absr_def good_def role_ok_def
      ab_has_rpl_def)

lemma sim_fs_sf_ms [sim_rules]:
  assumes "driver_ok z" and "absr z n a s" and "p < 2" and "raps_req_state_valid rs"
    and "st \<noteq> ERPS_STATE_UNINIT"
    and "\<And>s'. absr z n (fold exec (switch_port rs st p a) a) s' \<Longrightarrow> Q 0 s'"
  shows "wp (erps_fsm_fs_sf_ms z (n, p) rs st s) Q"
proof -
  have "1 - p < 2" by simp
  have q: "ab_blocked a p \<Longrightarrow> ab_block p a = a"
    by (simp add: ab_block_def)
  show ?thesis
    using assms \<open>1 - p < 2\<close>
    by (cases "ab_blocked a p")
      ((simp add: erps_fsm_fs_sf_ms_def absr_is_blocked switch_port_def q del: One_nat_def
        | (rule sim_rules, assumption, assumption))+)
qed

text \<open>What follows a row's actions at the end of a handler.\<close>

lemma sim_unblock_and_stop [sim_rules]:
  assumes "driver_ok z" and "absr z n a s" and "p < 2" and "st \<noteq> ERPS_STATE_UNINIT"
    and "\<And>s'. absr z n (fold exec ((if nf then follow else follow_all) @ [Goto st]) a) s' \<Longrightarrow> Q 0 s'"
  shows "wp (erps_fsm_unblock_and_stop z (n, p) nf st s) Q"
  using assms
  by (cases nf)
    ((simp add: erps_fsm_unblock_and_stop_def follow_def follow_all_def
      | (rule sim_rules, assumption, assumption))+)

definition contest :: "zephyr \<Rightarrow> sys \<Rightarrow> nat \<Rightarrow> raps_pdu option \<Rightarrow> bool" where
  "contest z s n pdu = (case (pdu, erps_link_get_node_id z (n, 0) s) of
     (Some pdu, Inr mac) \<Rightarrow>
       memcmp (mac_bytes (node_id (raps_info pdu))) (mac_bytes mac) > 0
   | _ \<Rightarrow> False)"

lemma absr_node_id:
  assumes "driver_ok z" and "absr z n a s" and "p < 2"
  shows "\<exists>mac. erps_link_get_node_id z (n, p) s = Inr mac \<and>
    erps_link_get_node_id z (n, 0) s = Inr mac"
proof -
  have "net_if_lookup_by_dev z (dev (ports (nodes s n) 0)) = Some (ab_if a 0)"
    using absr_iface [OF assms(2), of 0] by (simp add: lnk_def)
  moreover obtain adr where "net_if_get_link_addr z (hist s) (Some (ab_if a 0)) = Some adr"
    "length adr = 6"
    using assms(1) unfolding driver_ok_def by blast
  ultimately show ?thesis
    using assms(2,3) by (simp add: erps_link_get_node_id_def)
qed

lemma sim_maybe_unblock_and_stop [sim_rules]:
  assumes "driver_ok z" and "absr z n a s" and "p < 2" and "pdu \<noteq> None"
    and "\<And>s'. absr z n (fold exec (if contest z s n pdu then follow else []) a) s' \<Longrightarrow> Q 0 s'"
  shows "wp (erps_fsm_maybe_unblock_and_stop z (n, p) pdu s) Q"
proof -
  obtain x where x: "pdu = Some x" using assms(4) by blast
  obtain mac where mac: "erps_link_get_node_id z (n, p) s = Inr mac"
    "erps_link_get_node_id z (n, 0) s = Inr mac"
    using absr_node_id [OF assms(1-3)] by blast
  show ?thesis
  proof (cases "memcmp (mac_bytes (node_id (raps_info x))) (mac_bytes mac) \<le> 0")
    case True
    then show ?thesis
      using assms by (simp add: erps_fsm_maybe_unblock_and_stop_def contest_def x mac)
  next
    case False
    then show ?thesis
      using assms
      by - (simp add: erps_fsm_maybe_unblock_and_stop_def contest_def x mac follow_def,
          rule sim_rules, assumption, assumption, simp)
  qed
qed

section \<open>Idle\<close>

lemma sim_idle:
  assumes "driver_ok z" and "absr z n a s" and "p < 2" and "req \<noteq> ERPS_REQ_INVALID"
    and "req = ERPS_REQ_RAPS_NR \<Longrightarrow> pdu \<noteq> None"
    and "\<And>s'. absr z n (fold exec (row_idle (contest z s n pdu) p a req) a) s' \<Longrightarrow> Q 0 s'"
  shows "wp (erps_fsm_post_idle z (n, p) req pdu s) Q"
proof -
  have rb: "wp (erps_fsm_raps_nr_rb_idle z (n, p) s) Q"
    if "\<And>s'. absr z n (fold exec (row_idle c p a ERPS_REQ_RAPS_NR_RB) a) s' \<Longrightarrow> Q 0 s'" for c
    using assms(1-3) that
    by (cases "ab_has_rpl a"; cases "ab_owner a")
      ((simp add: erps_fsm_raps_nr_rb_idle_def absr_is row_idle_def
        | (rule sim_rules, assumption, assumption))+)
  have nr: "wp (erps_fsm_raps_nr_idle z (n, p) pdu s) Q"
    if "pdu \<noteq> None"
      "\<And>s'. absr z n (fold exec (row_idle (contest z s n pdu) p a ERPS_REQ_RAPS_NR) a) s' \<Longrightarrow> Q 0 s'"
    for pdu
  proof (cases "ab_has_rpl a")
    case True
    then show ?thesis
      using that assms(1-3)
      by (simp add: erps_fsm_raps_nr_idle_def absr_is row_idle_def ab_has_rpl_def)
  next
    case False
    then show ?thesis
      using that
      by (simp add: erps_fsm_raps_nr_idle_def absr_is [OF assms(2)] absr_get_node [OF assms(2,3)]
          row_idle_def ab_has_rpl_def sim_maybe_unblock_and_stop [OF assms(1-3)])
  qed
  show ?thesis
    using assms(4-6)
    by (cases req)
      (auto simp: erps_fsm_post_idle_def fsm_idle_defs fsm_common_defs row_idle_def assms(2)
        intro!: sim_fs_sf_ms [OF assms(1-3)] sim_unblock_and_stop [OF assms(1-3)] rb nr)
qed

section \<open>The other states\<close>

context running_post
begin

lemma sim_clear_common:
  assumes "driver_ok z" and "absr z n a s" and "p < 2"
    and "\<And>s'. absr z n (fold exec (recover a @ [Goto ERPS_STATE_PENDING]) a) s' \<Longrightarrow> Q 0 s'"
  shows "wp (erps_fsm_clear_common post z (n, p) s) Q"
  using assms absr_guard [OF assms(1,2)]
  by (cases "ab_blocked a 0 \<or> ab_blocked a 1"; cases "ab_owner a"; cases "ab_revertive a")
    ((simp add: erps_fsm_clear_common_def absr_is recover_def reverts_def
      | (rule sim_rules sim_start_wtb, assumption, assumption))+)

lemma sim_clear_sf_protection:
  assumes "driver_ok z" and "absr z n a s" and "p < 2"
    and "\<And>s'. absr z n (fold exec (row_protection p a ERPS_REQ_CLEAR_SF) a) s' \<Longrightarrow> Q 0 s'"
  shows "wp (erps_fsm_clear_sf_protection post z (n, p) s) Q"
  using assms absr_guard [OF assms(1,2)]
  by (cases "ab_owner a"; cases "ab_revertive a")
    ((simp add: erps_fsm_clear_sf_protection_def absr_is row_protection_def reverts_def
      | (rule sim_rules sim_start_wtr, assumption, assumption))+)

lemma sim_raps_nr_protection:
  assumes "driver_ok z" and "absr z n a s" and "p < 2"
    and "\<And>s'. absr z n (fold exec ((if \<not> rb \<and> reverts a then [StartWtr] else []) @
      [Goto ERPS_STATE_PENDING]) a) s' \<Longrightarrow> Q 0 s'"
  shows "wp (erps_fsm_raps_nr_protection post z (n, p) rb s) Q"
  using assms
  by (cases rb; cases "ab_owner a"; cases "ab_revertive a")
    ((simp add: erps_fsm_raps_nr_protection_def absr_is reverts_def
      | (rule sim_rules sim_start_wtr, assumption, assumption))+)

lemma sim_protection:
  assumes "driver_ok z" and "absr z n a s" and "p < 2" and "req \<noteq> ERPS_REQ_INVALID"
    and "\<And>s'. absr z n (fold exec (row_protection p a req) a) s' \<Longrightarrow> Q 0 s'"
  shows "wp (erps_fsm_post_protection post z (n, p) req s) Q"
  using assms(4-5)
  by (cases req)
    (auto simp: erps_fsm_post_protection_def fsm_protection_defs fsm_common_defs row_protection_def
      assms(2) intro!: sim_fs_sf_ms [OF assms(1-3)] sim_unblock_and_stop [OF assms(1-3)]
      sim_clear_sf_protection [OF assms(1-3)] sim_raps_nr_protection [OF assms(1-3)])

lemma sim_raps_ms_ms:
  assumes "driver_ok z" and "absr z n a s" and "p < 2"
    and "\<And>s'. absr z n (fold exec (row_manual_switch p a ERPS_REQ_RAPS_MS) a) s' \<Longrightarrow> Q 0 s'"
    and "ab_state a = ERPS_STATE_MANUAL_SWITCH"
  shows "wp (erps_fsm_raps_ms_ms post z (n, p) s) Q"
proof -
  have stay: "absr z n b t \<Longrightarrow> ab_state b = ERPS_STATE_MANUAL_SWITCH \<Longrightarrow>
      erps_fsm_transition n ERPS_STATE_MANUAL_SWITCH t = t" for b t
    using absr_simps(4) [of z n b t] by (simp add: erps_fsm_transition_def)
  have sy: "ab_state (say x b) = ab_state b" for x b
    by (simp add: say_def)
  show ?thesis
    using assms absr_guard [OF assms(1,2)]
    by (cases "ab_blocked a 0 \<or> ab_blocked a 1"; cases "ab_owner a"; cases "ab_revertive a")
      ((simp add: erps_fsm_raps_ms_ms_def absr_is recover_def reverts_def row_manual_switch_def
          sy stay | (rule sim_rules sim_start_wtb, assumption, assumption))+)
qed

lemma sim_raps_nr_ms:
  assumes "driver_ok z" and "absr z n a s" and "p < 2"
    and "\<And>s'. absr z n (fold exec ((if \<not> rb \<and> reverts a then [StartWtb] else []) @
      [Goto ERPS_STATE_PENDING]) a) s' \<Longrightarrow> Q 0 s'"
  shows "wp (erps_fsm_raps_nr_ms post z (n, p) rb s) Q"
  using assms
  by (cases rb; cases "ab_owner a"; cases "ab_revertive a")
    ((simp add: erps_fsm_raps_nr_ms_def absr_is reverts_def
      | (rule sim_rules sim_start_wtb, assumption, assumption))+)

lemma sim_manual_switch:
  assumes "driver_ok z" and "absr z n a s" and "p < 2" and "req \<noteq> ERPS_REQ_INVALID"
    and "ab_state a = ERPS_STATE_MANUAL_SWITCH"
    and "\<And>s'. absr z n (fold exec (row_manual_switch p a req) a) s' \<Longrightarrow> Q 0 s'"
  shows "wp (erps_fsm_post_manual_switch post z (n, p) req s) Q"
proof (cases "req = ERPS_REQ_RAPS_MS")
  case True
  then show ?thesis
    using sim_raps_ms_ms [OF assms(1-3) _ assms(5)] assms(6)
    by (simp add: erps_fsm_post_manual_switch_def)
next
  case False
  then show ?thesis
    using assms(4,6)
    by (cases req)
      (auto simp: erps_fsm_post_manual_switch_def fsm_manual_defs fsm_common_defs
        row_manual_switch_def assms(2) intro!: sim_fs_sf_ms [OF assms(1-3)]
        sim_unblock_and_stop [OF assms(1-3)] sim_clear_common [OF assms(1-3)]
        sim_raps_nr_ms [OF assms(1-3)])
qed

lemma sim_raps_nr_fs:
  assumes "driver_ok z" and "absr z n a s" and "p < 2"
    and "\<And>s'. absr z n (fold exec ((if \<not> rb \<and> reverts a then [StartWtb] else []) @
      [Goto ERPS_STATE_PENDING]) a) s' \<Longrightarrow> Q 0 s'"
  shows "wp (erps_fsm_raps_nr_fs post z (n, p) rb s) Q"
  using assms
  by (cases rb; cases "ab_owner a"; cases "ab_revertive a")
    ((simp add: erps_fsm_raps_nr_fs_def absr_is reverts_def
      | (rule sim_rules sim_start_wtb, assumption, assumption))+)

lemma sim_fs_fs:
  assumes "driver_ok z" and "absr z n a s" and "p < 2"
    and "\<And>s'. absr z n (fold exec [Block p, Tx RAPS_FS 0, Flush p] a) s' \<Longrightarrow> Q 0 s'"
  shows "wp (erps_fsm_fs_fs z (n, p) s) Q"
  using assms
  by - ((simp add: erps_fsm_fs_fs_def | (rule sim_rules, assumption, assumption))+)

lemma sim_forced_switch:
  assumes "driver_ok z" and "absr z n a s" and "p < 2" and "req \<noteq> ERPS_REQ_INVALID"
    and "\<And>s'. absr z n (fold exec (row_forced_switch p a req) a) s' \<Longrightarrow> Q 0 s'"
  shows "wp (erps_fsm_post_forced_switch post z (n, p) req s) Q"
  using assms(4-5)
  by (cases req)
    (auto simp: erps_fsm_post_forced_switch_def erps_fsm_clear_fs_def row_forced_switch_def
      assms(2) intro!: sim_clear_common [OF assms(1-3)] sim_raps_nr_fs [OF assms(1-3)]
      sim_fs_fs [OF assms(1-3)])

end

section \<open>Pending\<close>

lemma exec_role [simp]:
  "ab_owner (exec x a) = ab_owner a" "ab_nbr (exec x a) = ab_nbr a"
  "ab_revertive (exec x a) = ab_revertive a" "ab_if (exec x a) = ab_if a"
  by (cases x; simp add: ab_start_wtr_def ab_start_wtb_def ab_note_def say_def)+

lemma fold_exec_role [simp]:
  "ab_owner (fold exec xs a) = ab_owner a" "ab_nbr (fold exec xs a) = ab_nbr a"
  "ab_revertive (fold exec xs a) = ab_revertive a" "ab_if (fold exec xs a) = ab_if a"
  by (induction xs arbitrary: a) simp_all

lemma absr_stop_timers_if_owner:
  assumes "driver_ok z" and "absr z n a s"
  shows "absr z n (fold exec (stop_timers a) a) (erps_stop_timers_if_owner n s)"
  using assms(2) absr_stop_timers(2) [OF assms(1) absr_stop_timers(1) [OF assms]]
  by (simp add: erps_stop_timers_if_owner_def stop_timers_def absr_is [OF assms(2)])

lemma sim_then_stop:
  assumes "driver_ok z" and "absr z n (fold exec xs a) s"
    and "\<And>s'. absr z n (fold exec (xs @ stop_timers a) a) s' \<Longrightarrow> Q 0 s'"
  shows "Q 0 (erps_stop_timers_if_owner n s)"
  using absr_stop_timers_if_owner [OF assms(1,2)]
  by (intro assms(3)) (simp add: stop_timers_def)

lemma sim_pending_block_rpl [sim_rules]:
  assumes "driver_ok z" and "absr z n a s" and "p < 2"
    and "\<And>s'. absr z n (fold exec (block_rpl p a) a) s' \<Longrightarrow> Q 0 s'"
  shows "wp (erps_pending_block_rpl z (n, p) n (n, Suc 0) (n, 0) s) Q"
proof -
  have q: "ab_blocked a (Suc 0) \<Longrightarrow> ab_block (Suc 0) a = a"
    by (simp add: ab_block_def)
  show ?thesis
    using assms
    by (cases "ab_blocked a 1")
      ((simp add: erps_pending_block_rpl_def absr_is_blocked block_rpl_def q
        | (rule sim_rules, assumption, assumption))+)
qed

lemma block_rpl_cong:
  "ab_blocked b = ab_blocked a \<Longrightarrow> block_rpl p b = block_rpl p a"
  by (simp add: block_rpl_def)

lemma stop_timers_blocked:
  "ab_blocked (fold exec (stop_timers a) b) = ab_blocked b"
  by (simp add: stop_timers_def say_def)

lemma sim_clear_pending:
  assumes "driver_ok z" and "absr z n a s" and "p < 2"
    and "\<And>s'. absr z n (fold exec (row_pending c p a ERPS_REQ_CLEAR) a) s' \<Longrightarrow> Q 0 s'"
  shows "wp (erps_fsm_clear_pending z (n, p) s) Q"
proof -
  define b where "b = fold exec (stop_timers a) a"
  define t where "t = erps_stop_timers_if_owner n s"
  have t: "absr z n b t"
    unfolding t_def b_def by (rule absr_stop_timers_if_owner [OF assms(1,2)])
  have bl: "block_rpl p b = block_rpl p a"
    unfolding b_def by (rule block_rpl_cong) (rule stop_timers_blocked)
  have goal: "absr z n (fold exec ((if ab_has_rpl a then block_rpl p b else []) @
      [Goto ERPS_STATE_IDLE]) b) s' \<Longrightarrow> Q 0 s'" for s'
    using assms(4) unfolding bl by (simp add: row_pending_def b_def)
  show ?thesis
    using assms(1-3) t goal
    by (cases "ab_has_rpl a")
      ((simp add: erps_fsm_clear_pending_def absr_is [OF assms(2)]
          absr_get_node [OF assms(2,3)] t_def [symmetric]
        | (rule sim_rules, assumption, assumption))+)
qed

lemma sim_timer_expires_pending:
  assumes "driver_ok z" and "absr z n a s" and "p < 2" and "ab_owner a"
    and "\<And>s'. absr z n (fold exec (block_rpl p a @ [Goto ERPS_STATE_IDLE]) a) s' \<Longrightarrow> Q 0 s'"
  shows "wp (erps_fsm_timer_expires_pending z (n, p) s) Q"
  using assms
  by (cases "ab_nbr a")
    ((simp add: erps_fsm_timer_expires_pending_def absr_is ab_has_rpl_def
      | (rule sim_rules, assumption, assumption))+)

lemma sim_wtr_expires_pending:
  assumes "driver_ok z" and "absr z n a s" and "p < 2"
    and "\<And>s'. absr z n (fold exec (row_pending c p a ERPS_REQ_WTR_EXPIRES) a) s' \<Longrightarrow> Q 0 s'"
  shows "wp (erps_fsm_wtr_expires_pending z (n, p) s) Q"
proof (cases "ab_owner a")
  case True
  have "block_rpl p (exec StopWtb a) = block_rpl p a"
    by (rule block_rpl_cong) (simp add: say_def)
  then show ?thesis
    using True assms(4) sim_timer_expires_pending [OF assms(1)
        absr_stop_timers(2) [OF assms(1,2)] assms(3), of Q]
    by (simp add: erps_fsm_wtr_expires_pending_def absr_is [OF assms(2)]
        absr_get_node [OF assms(2,3)] row_pending_def)
next
  case False
  then show ?thesis
    using assms
    by (simp add: erps_fsm_wtr_expires_pending_def absr_is row_pending_def)
qed

lemma sim_wtb_expires_pending:
  assumes "driver_ok z" and "absr z n a s" and "p < 2"
    and "\<And>s'. absr z n (fold exec (row_pending c p a ERPS_REQ_WTB_EXPIRES) a) s' \<Longrightarrow> Q 0 s'"
  shows "wp (erps_fsm_wtb_expires_pending z (n, p) s) Q"
proof (cases "ab_owner a")
  case True
  have "block_rpl p (exec StopWtr a) = block_rpl p a"
    by (rule block_rpl_cong) (simp add: say_def)
  then show ?thesis
    using True assms(4) sim_timer_expires_pending [OF assms(1)
        absr_stop_timers(1) [OF assms(1,2)] assms(3), of Q]
    by (simp add: erps_fsm_wtb_expires_pending_def absr_is [OF assms(2)]
        absr_get_node [OF assms(2,3)] row_pending_def)
next
  case False
  then show ?thesis
    using assms
    by (simp add: erps_fsm_wtb_expires_pending_def absr_is row_pending_def)
qed

lemma sim_raps_nr_rb_pending:
  assumes "driver_ok z" and "absr z n a s" and "p < 2"
    and "\<And>s'. absr z n (fold exec (row_pending c p a ERPS_REQ_RAPS_NR_RB) a) s' \<Longrightarrow> Q 0 s'"
  shows "wp (erps_fsm_raps_nr_rb_pending z (n, p) s) Q"
proof (cases "ab_owner a")
  case True
  with absr_is(6) [OF assms(2)] have "\<not> ab_nbr a" by simp
  with True show ?thesis
    using assms absr_stop_timers(2) [OF assms(1) absr_stop_timers(1) [OF assms(1,2)]]
    by (simp add: erps_fsm_raps_nr_rb_pending_def absr_is row_pending_def)
next
  case False
  then show ?thesis
    using assms
    by (cases "ab_nbr a")
      ((simp add: erps_fsm_raps_nr_rb_pending_def absr_is ab_has_rpl_def row_pending_def
          follow_all_def | (rule sim_rules, assumption, assumption))+)
qed

text \<open>The handlers that stop the timers after a shared part has succeeded.\<close>

lemma sim_stop_after:
  assumes "driver_ok z"
    and "\<And>R. (\<And>s'. absr z n (fold exec xs a) s' \<Longrightarrow> R 0 s') \<Longrightarrow> wp m R"
    and "\<And>s'. absr z n (fold exec (xs @ stop_timers a) a) s' \<Longrightarrow> Q 0 s'"
  shows "wp (do {(ret, s) \<leftarrow> m;
    Some (ret, if ret = 0 then erps_stop_timers_if_owner n s else s)}) Q"
proof -
  have "Q 0 (erps_stop_timers_if_owner n s')" if "absr z n (fold exec xs a) s'" for s'
    by (rule sim_then_stop [where Q = Q, OF assms(1) that]) (rule assms(3))
  then have "wp m (\<lambda>r s. r = 0 \<and> Q 0 (erps_stop_timers_if_owner n s))"
    by (intro assms(2)) simp
  then show ?thesis by (auto elim: wp_mono)
qed

lemma sim_pending_switches:
  assumes "driver_ok z" and "absr z n a s" and "p < 2"
    and "req \<in> {ERPS_REQ_FS, ERPS_REQ_RAPS_FS, ERPS_REQ_SF, ERPS_REQ_RAPS_SF, ERPS_REQ_RAPS_MS}"
    and "\<And>s'. absr z n (fold exec (row_pending c p a req) a) s' \<Longrightarrow> Q 0 s'"
  shows "wp (erps_fsm_post_pending z (n, p) req pdu s) Q"
proof -
  have sw: "wp (do {(ret, s) \<leftarrow> erps_fsm_fs_sf_ms z (n, p) rs st s;
      Some (ret, if ret = 0 then erps_stop_timers_if_owner n s else s)}) Q"
    if "raps_req_state_valid rs" "st \<noteq> ERPS_STATE_UNINIT"
      "row_pending c p a req = switch_port rs st p a @ stop_timers a" for rs st
    by (rule sim_stop_after [OF assms(1), where xs = "switch_port rs st p a"])
      (rule sim_fs_sf_ms [OF assms(1-3) that(1,2)], assumption,
        rule assms(5) [unfolded that(3)])
  have fo: "wp (do {(ret, s) \<leftarrow> erps_fsm_unblock_and_stop z (n, p) nf st s;
      Some (ret, if ret = 0 then erps_stop_timers_if_owner n s else s)}) Q"
    if "st \<noteq> ERPS_STATE_UNINIT"
      "row_pending c p a req = ((if nf then follow else follow_all) @ [Goto st]) @ stop_timers a"
    for nf st
    by (rule sim_stop_after [OF assms(1), where xs = "(if nf then follow else follow_all) @ [Goto st]"])
      (rule sim_unblock_and_stop [OF assms(1-3) that(1)], assumption,
        rule assms(5) [unfolded that(2)])
  note defs = erps_fsm_post_pending_def erps_fsm_fs_pending_def erps_fsm_raps_fs_pending_def
    erps_fsm_sf_pending_def erps_fsm_raps_sf_pending_def erps_fsm_raps_ms_pending_def
    fsm_common_defs absr_get_node [OF assms(2,3)] Let_def
  from assms(4) consider "req = ERPS_REQ_FS" | "req = ERPS_REQ_RAPS_FS" | "req = ERPS_REQ_SF"
    | "req = ERPS_REQ_RAPS_SF" | "req = ERPS_REQ_RAPS_MS" by auto
  then show ?thesis
  proof cases
    case 1 then show ?thesis unfolding defs erps_request.case
      by (simp only: erps_request.case) (rule sw, simp_all add: row_pending_def)
  next
    case 2 then show ?thesis unfolding defs
      by (simp only: erps_request.case) (rule fo, simp_all add: row_pending_def)
  next
    case 3 then show ?thesis unfolding defs
      by (simp only: erps_request.case) (rule sw, simp_all add: row_pending_def)
  next
    case 4 then show ?thesis unfolding defs
      by (simp only: erps_request.case) (rule fo, simp_all add: row_pending_def)
  next
    case 5 then show ?thesis unfolding defs
      by (simp only: erps_request.case) (rule fo, simp_all add: row_pending_def)
  qed
qed

lemma sim_ms_pending:
  assumes "driver_ok z" and "absr z n a s" and "p < 2"
    and "\<And>s'. absr z n (fold exec (row_pending c p a ERPS_REQ_MS) a) s' \<Longrightarrow> Q 0 s'"
  shows "wp (erps_fsm_ms_pending z (n, p) s) Q"
proof -
  define b where "b = fold exec (stop_timers a) a"
  have b: "absr z n b (erps_stop_timers_if_owner n s)"
    unfolding b_def by (rule absr_stop_timers_if_owner [OF assms(1,2)])
  have sw: "switch_port RAPS_MS ERPS_STATE_MANUAL_SWITCH p b =
      switch_port RAPS_MS ERPS_STATE_MANUAL_SWITCH p a"
    by (simp add: switch_port_def b_def stop_timers_blocked)
  have "\<And>s'. absr z n (fold exec (switch_port RAPS_MS ERPS_STATE_MANUAL_SWITCH p b) b) s' \<Longrightarrow> Q 0 s'"
    using assms(4) unfolding sw by (simp add: row_pending_def b_def)
  then show ?thesis
    by (simp add: erps_fsm_ms_pending_def fsm_common_defs absr_get_node [OF assms(2,3)]
        sim_fs_sf_ms [OF assms(1) b assms(3)])
qed

lemma sim_pending:
  assumes "driver_ok z" and "absr z n a s" and "p < 2" and "req \<noteq> ERPS_REQ_INVALID"
    and "req = ERPS_REQ_RAPS_NR \<Longrightarrow> pdu \<noteq> None"
    and "\<And>s'. absr z n (fold exec (row_pending (contest z s n pdu) p a req) a) s' \<Longrightarrow> Q 0 s'"
  shows "wp (erps_fsm_post_pending z (n, p) req pdu s) Q"
proof (cases "req \<in> {ERPS_REQ_FS, ERPS_REQ_RAPS_FS, ERPS_REQ_SF, ERPS_REQ_RAPS_SF, ERPS_REQ_RAPS_MS}")
  case True
  show ?thesis
    by (rule sim_pending_switches [OF assms(1-3) True]) (rule assms(6))
next
  case False
  then show ?thesis
    using assms(4-6)
    by (cases req)
      (auto simp: erps_fsm_post_pending_def erps_fsm_raps_nr_pending_def row_pending_def assms(2)
        intro!: sim_maybe_unblock_and_stop [OF assms(1-3)]
        sim_clear_pending [OF assms(1-3), where c = True]
        sim_ms_pending [OF assms(1-3), where c = True]
        sim_wtr_expires_pending [OF assms(1-3), where c = True]
        sim_wtb_expires_pending [OF assms(1-3), where c = True]
        sim_raps_nr_rb_pending [OF assms(1-3), where c = True])
qed

section \<open>The state machine\<close>

lemma absr_failed:
  assumes "absr z n a s"
  shows "absr z n (a\<lparr>ab_failed := (ab_failed a)(p := True)\<rparr>)
    (upd_link (n, p) (failed_update (\<lambda>_. True)) s)"
proof (rule absr_step [OF assms])
  show "evolves z n s (upd_link (n, p) (failed_update (\<lambda>_. True)) s)"
    by (rule evolves_upd_link) auto
  show "ab_of z n (upd_link (n, p) (failed_update (\<lambda>_. True)) s) =
      (ab_of z n s)\<lparr>ab_failed := (ab_failed (ab_of z n s))(p := True)\<rparr>"
    by (simp add: ab_of_upd_link) (simp add: ab_of_def fun_upd_idem)
qed

lemma absr_resolve:
  assumes "absr z n a s"
  shows "case admit req a of
      None \<Rightarrow> erps_fsm_resolve_req_prio n req s = (- EBUSY, s)
    | Some b \<Rightarrow> fst (erps_fsm_resolve_req_prio n req s) = 0 \<and>
        absr z n b (snd (erps_fsm_resolve_req_prio n req s))"
proof -
  have top: "ab_of z n (upd_node n (\<lambda>nd. nd\<lparr>local_topreq := r\<rparr>) t) = (ab_of z n t)\<lparr>ab_top := r\<rparr>"
    for r t
    by (simp add: ab_of_def lnk_def)
  have cv: "erps_local_clear_valid s n ERPS_REQ_CLEAR \<longleftrightarrow>
      ab_top a \<in> {ERPS_REQ_FS, ERPS_REQ_MS} \<or> ab_owner a"
    using absr_simps(5) [OF assms]
    by (auto simp: erps_local_clear_valid_def absr_is [OF assms] min_def split: erps_request.split)
  have ev: "good z n (snd (erps_fsm_resolve_req_prio n req s))"
    using assms evolves_resolve by (auto simp: absr_def intro: good_evolves)
  have a: "ab_of z n s = a" using assms by (simp add: absr_def)
  show ?thesis
    using ev absr_simps(5) [OF assms]
    by (auto simp: admit_def erps_fsm_resolve_req_prio_def cv local_reqs_def absr_def top a)
qed

text \<open>The body of the state machine with its intermediate states named.\<close>

lemma post_body_eq:
  assumes "erps_link_get_node s (n, p) = n"
    and "t = (if req = ERPS_REQ_CLEAR_SF then emit (WorkCancel (LinkDownWork n p)) s else s)"
    and "erps_fsm_resolve_req_prio n req t = (ret, u)"
    and "v = (if req = ERPS_REQ_SF then upd_link (n, p) (failed_update (\<lambda>_. True)) u else u)"
  shows "erps_fsm_post_body post z (n, p) req pdu s =
    (if ret = - EBUSY then Some (0, u)
     else if req = ERPS_REQ_CLEAR_SF \<and> rpl (lnk v (n, p)) \<and>
             state (nodes v n) \<noteq> ERPS_STATE_PROTECTION
     then Some (0, v)
     else (case state (nodes v n) of
         ERPS_STATE_IDLE \<Rightarrow> erps_fsm_post_idle z (n, p) req pdu v
       | ERPS_STATE_PROTECTION \<Rightarrow> erps_fsm_post_protection post z (n, p) req v
       | ERPS_STATE_MANUAL_SWITCH \<Rightarrow> erps_fsm_post_manual_switch post z (n, p) req v
       | ERPS_STATE_FORCED_SWITCH \<Rightarrow> erps_fsm_post_forced_switch post z (n, p) req v
       | ERPS_STATE_PENDING \<Rightarrow> erps_fsm_post_pending z (n, p) req pdu v
       | ERPS_STATE_UNINIT \<Rightarrow>
           if req = ERPS_REQ_WTR_RUNNING then Some (0, v) else Some (ret, v)))"
  unfolding erps_fsm_post_body_def assms(1) Let_def fst_conv snd_conv assms(2) [symmetric]
    assms(3) prod.case assms(4) [symmetric] by (rule refl)

lemma contest_cong:
  assumes "idx_ok (nodes s n)" and "evolves z n s v" and "hist v = hist s"
  shows "contest z v n pdu = contest z s n pdu"
proof -
  have "idx_ok (nodes v n)"
    using assms(1) node_cfg_idx_ok [OF evolves_cfg [OF assms(2)]] by blast
  moreover have "dev (ports (nodes v n) 0) = dev (ports (nodes s n) 0)"
    using evolves_dev [OF assms(2), of "(n, 0)"] by (simp add: lnk_def)
  ultimately have "erps_link_get_node_id z (n, 0) v = erps_link_get_node_id z (n, 0) s"
    using assms(1) by (simp add: erps_link_get_node_id_def assms(3) cong: option.case_cong)
  then show ?thesis
    unfolding contest_def by simp
qed

lemma row_contest:
  "req \<noteq> ERPS_REQ_RAPS_NR \<Longrightarrow> row c p a req = row d p a req"
  by (cases req) (simp_all add: row_def row_idle_def row_pending_def split: erps_node_state.split)

lemma sim_states:
  assumes "running_post post" and "driver_ok z" and "absr z n a s" and "p < 2"
    and "req \<noteq> ERPS_REQ_INVALID" and "req = ERPS_REQ_RAPS_NR \<Longrightarrow> pdu \<noteq> None"
    and "\<And>s'. absr z n (fold exec (row (contest z s n pdu) p a req) a) s' \<Longrightarrow> Q 0 s'"
  shows "wp (case state (nodes s n) of
         ERPS_STATE_IDLE \<Rightarrow> erps_fsm_post_idle z (n, p) req pdu s
       | ERPS_STATE_PROTECTION \<Rightarrow> erps_fsm_post_protection post z (n, p) req s
       | ERPS_STATE_MANUAL_SWITCH \<Rightarrow> erps_fsm_post_manual_switch post z (n, p) req s
       | ERPS_STATE_FORCED_SWITCH \<Rightarrow> erps_fsm_post_forced_switch post z (n, p) req s
       | ERPS_STATE_PENDING \<Rightarrow> erps_fsm_post_pending z (n, p) req pdu s
       | ERPS_STATE_UNINIT \<Rightarrow>
           if req = ERPS_REQ_WTR_RUNNING then Some (0, s) else Some (0, s)) Q"
proof (cases "ab_state a")
  case ERPS_STATE_IDLE
  then show ?thesis
    using assms(7) absr_simps(4) [OF assms(3)] by (simp add: row_def sim_idle [OF assms(2-6)])
next
  case ERPS_STATE_PROTECTION
  then show ?thesis
    using assms(7) absr_simps(4) [OF assms(3)]
    by (simp add: row_def running_post.sim_protection [OF assms(1-5)])
next
  case ERPS_STATE_MANUAL_SWITCH
  then show ?thesis
    using assms(7) absr_simps(4) [OF assms(3)]
    by (simp add: row_def running_post.sim_manual_switch [OF assms(1-5)])
next
  case ERPS_STATE_FORCED_SWITCH
  then show ?thesis
    using assms(7) absr_simps(4) [OF assms(3)]
    by (simp add: row_def running_post.sim_forced_switch [OF assms(1-5)])
next
  case ERPS_STATE_PENDING
  then show ?thesis
    using assms(7) absr_simps(4) [OF assms(3)] by (simp add: row_def sim_pending [OF assms(2-6)])
next
  case ERPS_STATE_UNINIT
  then show ?thesis
    using assms(3,7) absr_simps(4) [OF assms(3)] by (simp add: row_def)
qed

lemma resolve_hist: "hist (snd (erps_fsm_resolve_req_prio n req s)) = hist s"
  by (simp add: erps_fsm_resolve_req_prio_def)

lemma sim_post_body:
  assumes "running_post post" and "driver_ok z" and "absr z n a s" and "p < 2"
    and "req \<noteq> ERPS_REQ_INVALID" and "req = ERPS_REQ_RAPS_NR \<Longrightarrow> pdu \<noteq> None"
  shows "wp (erps_fsm_post_body post z (n, p) req pdu s)
    (\<lambda>r s'. r = 0 \<and> absr z n (g8032 (contest z s n pdu) p req a) s')"
proof -
  define t where "t = (if req = ERPS_REQ_CLEAR_SF then emit (WorkCancel (LinkDownWork n p)) s else s)"
  have t: "absr z n a t"
    unfolding t_def using assms(3) absr_emit_unseen [OF assms(2,3)] by simp
  obtain ret u where u: "erps_fsm_resolve_req_prio n req t = (ret, u)" by fastforce
  define v where "v = (if req = ERPS_REQ_SF then upd_link (n, p) (failed_update (\<lambda>_. True)) u else u)"
  have node: "erps_link_get_node s (n, p) = n"
    using assms(3,4) by simp
  note eq = post_body_eq [OF node t_def u v_def]
  show ?thesis
  proof (cases "admit req a")
    case None
    then show ?thesis
      using absr_resolve [OF t, of req] t by (simp add: eq u g8032_def)
  next
    case (Some b)
    define c where "c = (if req = ERPS_REQ_SF then b\<lparr>ab_failed := (ab_failed b)(p := True)\<rparr> else b)"
    have ru: "ret = 0" "absr z n b u"
      using absr_resolve [OF t, of req] Some by (simp_all add: u)
    have v: "absr z n c v"
      unfolding v_def c_def using absr_failed [OF ru(2)] ru(2) by simp
    have cont: "row (contest z v n pdu) p c req = row (contest z s n pdu) p c req"
    proof (cases "req = ERPS_REQ_RAPS_NR")
      case True
      then have "t = s" "v = u" by (simp_all add: t_def v_def)
      moreover have "evolves z n t u" "hist u = hist t"
        using evolves_resolve [of z n t req] resolve_hist [of n req t] by (simp_all add: u)
      ultimately show ?thesis
        using contest_cong [of s n z v pdu] absr_simps(8) [OF assms(3)] by simp
    qed (rule row_contest)
    have rpl: "rpl (lnk v (n, p)) \<longleftrightarrow> ab_has_rpl c \<and> p = 1"
      using v assms(4) by (auto simp: absr_def good_def ab_of_def role_ok_def lnk_def
          ab_has_rpl_def less_2_disj)
    have g: "g8032 (contest z s n pdu) p req a =
      (if req = ERPS_REQ_CLEAR_SF \<and> ab_has_rpl c \<and> p = 1 \<and> ab_state c \<noteq> ERPS_STATE_PROTECTION
       then c else fold exec (row (contest z v n pdu) p c req) c)"
      unfolding cont by (simp add: g8032_def Some Let_def flip: c_def)
    note disp = sim_states [OF assms(1,2) v assms(4,5), where pdu = pdu and
        Q = "\<lambda>r s'. r = 0 \<and> absr z n (fold exec (row (contest z v n pdu) p c req) c) s'"]
    have st: "state (nodes v n) = ab_state c"
      using v by (rule absr_simps(4))
    show ?thesis
    proof (cases "req = ERPS_REQ_CLEAR_SF \<and> ab_has_rpl c \<and> p = 1 \<and>
        ab_state c \<noteq> ERPS_STATE_PROTECTION")
      case True
      then have "req = ERPS_REQ_CLEAR_SF \<and> rpl (lnk v (n, p)) \<and>
          state (nodes v n) \<noteq> ERPS_STATE_PROTECTION"
        unfolding rpl st by blast
      then show ?thesis
        unfolding eq g if_P [OF True] using ru(1) v by simp
    next
      case False
      then have "\<not> (req = ERPS_REQ_CLEAR_SF \<and> rpl (lnk v (n, p)) \<and>
          state (nodes v n) \<noteq> ERPS_STATE_PROTECTION)"
        by (simp add: rpl st)
      then show ?thesis
        unfolding eq g if_not_P [OF False] unfolding ru(1)
        using disp [OF assms(6)] by (simp only: if_False) simp
    qed
  qed
qed

lemma sim_post_locked:
  assumes "driver_ok z" and "absr z n a s" and "p < 2"
    and "req \<noteq> ERPS_REQ_INVALID" and "req = ERPS_REQ_RAPS_NR \<Longrightarrow> pdu \<noteq> None"
  shows "wp (erps_fsm_post_locked z (n, p) req pdu s)
    (\<lambda>r s'. r = 0 \<and> absr z n (g8032 (contest z s n pdu) p req a) s')"
  using sim_post_body [OF running.running_post_axioms assms]
  by (simp add: erps_fsm_post_locked_def numeral_2_eq_2)

section \<open>The refinement, for use\<close>

lemmas ab_act_defs = say_def ab_block_def ab_unblock_def ab_unblock_nf_def ab_start_wtr_def
  ab_start_wtb_def ab_note_def Let_def

lemma post_refines:
  assumes "driver_ok z" and "good z n s" and "p < 2" and "req \<noteq> ERPS_REQ_INVALID"
    and "req = ERPS_REQ_RAPS_NR \<Longrightarrow> pdu \<noteq> None"
  shows "\<exists>s'. erps_fsm_post_locked z (n, p) req pdu s = Some (0, s') \<and> good z n s' \<and>
    ab_of z n s' = g8032 (contest z s n pdu) p req (ab_of z n s)"
proof -
  have "absr z n (ab_of z n s) s" using assms(2) by (simp add: absr_def)
  from sim_post_locked [OF assms(1) this assms(3-5)] show ?thesis
    by (auto simp: wp_iff_Some absr_def)
qed

text \<open>Reading the fields of a node off the table's view of it.\<close>

lemma ab_of_fields:
  "state (nodes s n) = ab_state (ab_of z n s)" "local_topreq (nodes s n) = ab_top (ab_of z n s)"
  "blocked (lnk s (n, p)) = ab_blocked (ab_of z n s) p"
  "failed (lnk s (n, p)) = ab_failed (ab_of z n s) p"
  "mut_rs_sc (pdu_mut (nodes s n)) = fst (ab_msg (ab_of z n s))"
  "mut_status (pdu_mut (nodes s n)) = snd (ab_msg (ab_of z n s))"
  "rpl_owner (nodes s n) = ab_owner (ab_of z n s)" "rpl_nbr (nodes s n) = ab_nbr (ab_of z n s)"
  "revertive (nodes s n) = ab_revertive (ab_of z n s)"
  by (simp_all add: ab_of_def)

end
