(* ===== verification/Erps_Rows.thy ===== *)
theory Erps_Rows
  imports Erps_Refine
begin

text \<open>
  What follows from the table alone: the rows that a failure and its recovery go through, and
  what every row keeps.
\<close>

declare raps_req_states [simp del]

section \<open>Failure and recovery\<close>

lemma less_2_other: "(p :: nat) < 2 \<Longrightarrow> 1 - p \<noteq> p"
  by arith

lemma rs_sc_values: "raps_rs_sc RAPS_SF 0 = 0xb0" "raps_rs_sc RAPS_NR 0 = 0"
  by (simp_all add: raps_rs_sc_def RAPS_SF_def RAPS_NR_def)

text \<open>A port fails: it is blocked, the other one is opened, and SF is announced.\<close>

lemma table_signal_fail:
  fixes a :: ab and higher :: bool and p :: nat
  assumes "p < 2" and "ab_state a \<notin> {ERPS_STATE_FORCED_SWITCH, ERPS_STATE_UNINIT}"
    and "ERPS_REQ_SF \<le> ab_top a"
  defines "b \<equiv> g8032 higher p ERPS_REQ_SF a"
  shows "ab_state b = ERPS_STATE_PROTECTION" "ab_top b = ERPS_REQ_SF" "ab_blocked b p"
    "ab_failed b p" "\<not> ab_blocked b (1 - p)"
    "ab_msg b = (0xb0, if ab_blocked a p then RAPS_DNF else 0)" "\<not> ab_failed b (1 - p)"
  unfolding b_def using less_2_other [OF assms(1)] assms(2,3)
  by (cases "ab_state a"; simp add: g8032_def admit_def local_reqs_def row_def row_defs
      switch_port_def stop_timers_def ab_act_defs rs_sc_values)+

text \<open>The owner's WTR timer expires: the RPL is blocked, the other port opened, NR, RB announced.\<close>

lemma table_wtr_expires:
  fixes a :: ab and higher :: bool and p :: nat
  assumes "ab_owner a" and "ab_state a = ERPS_STATE_PENDING" and "ERPS_REQ_WTR_EXPIRES \<le> ab_top a"
  defines "b \<equiv> g8032 higher p ERPS_REQ_WTR_EXPIRES a"
  shows "ab_state b = ERPS_STATE_IDLE" "ab_blocked b 1" "\<not> ab_blocked b 0" "\<not> ab_wtb b"
    "ab_msg b = (0, if ab_blocked a 1 then RAPS_RB OR RAPS_DNF else RAPS_RB)"
    "ab_top b = ERPS_REQ_INVALID" "ab_failed b = (ab_failed a)(0 := False)"
  unfolding b_def using assms(1-3)
  by (simp_all add: g8032_def admit_def local_reqs_def row_def row_pending_def block_rpl_def
      ab_act_defs rs_sc_values)

text \<open>A remote failure reaches an idle node: every port that has not failed is opened.\<close>

lemma table_remote_failure:
  fixes a :: ab and higher :: bool and p :: nat
  assumes "ab_state a = ERPS_STATE_IDLE" and "ERPS_REQ_RAPS_SF \<le> ab_top a"
    and "\<not> ab_failed a 0" and "\<not> ab_failed a 1"
  defines "b \<equiv> g8032 higher p ERPS_REQ_RAPS_SF a"
  shows "ab_state b = ERPS_STATE_PROTECTION" "\<not> ab_blocked b 0" "\<not> ab_blocked b 1"
    "ab_top b = ERPS_REQ_INVALID" "\<not> ab_failed b 0" "\<not> ab_failed b 1"
  unfolding b_def using assms(1-4)
  by (simp_all add: g8032_def admit_def local_reqs_def row_def row_idle_def follow_def
      ab_unblock_nf_def ab_msg_simps)

text \<open>A port that counts as failed stays as it is.\<close>

lemma table_failed_port:
  fixes a :: ab and higher :: bool and p :: nat
  assumes "ab_state a = ERPS_STATE_IDLE" and "ERPS_REQ_RAPS_SF \<le> ab_top a" and "ab_failed a 1"
  defines "b \<equiv> g8032 higher p ERPS_REQ_RAPS_SF a"
  shows "ab_state b = ERPS_STATE_PROTECTION" "ab_blocked b 1 = ab_blocked a 1"
  unfolding b_def using assms(1-3)
  by (cases "ab_failed a 0"; simp add: g8032_def admit_def local_reqs_def row_def row_idle_def
      follow_def ab_unblock_nf_def ab_msg_simps)+

text \<open>The owner's NR, RB reaches a pending node: it blocks its end of the RPL and nothing else.\<close>

lemma table_idle_again:
  fixes a :: ab and higher :: bool and p :: nat
  assumes "ab_state a = ERPS_STATE_PENDING" and "ERPS_REQ_RAPS_NR_RB \<le> ab_top a"
    and "\<not> ab_owner a"
  defines "b \<equiv> g8032 higher p ERPS_REQ_RAPS_NR_RB a"
  shows "ab_state b = ERPS_STATE_IDLE" "ab_blocked b 1 = ab_nbr a" "\<not> ab_blocked b 0"
    "ab_top b = ERPS_REQ_INVALID" "\<not> ab_failed b 0" "ab_failed b 1 = (ab_nbr a \<and> ab_failed a 1)"
  unfolding b_def using assms(1-3)
  by (simp_all add: g8032_def admit_def local_reqs_def row_def row_pending_def follow_all_def
      ab_msg_simps)

text \<open>
  The failure is cleared, and the clearing is heard of: nothing is switched, and the owner waits to
  restore.
\<close>

lemma table_clear_failure:
  fixes a :: ab and higher :: bool and p :: nat
  assumes "ab_state a = ERPS_STATE_PROTECTION" and "ab_top a = ERPS_REQ_SF"
  defines "b \<equiv> g8032 higher p ERPS_REQ_CLEAR_SF a"
  shows "ab_state b = ERPS_STATE_PENDING" "ab_blocked b = ab_blocked a" "ab_failed b = ab_failed a"
    "ab_msg b = (0, 0)" "reverts b = reverts a"
    "ab_top b = (if reverts a \<and> \<not> ab_wtr a then ERPS_REQ_WTR_RUNNING else ERPS_REQ_INVALID)"
  unfolding b_def using assms(1,2)
  by (simp_all add: g8032_def admit_def local_reqs_def row_def row_protection_def ab_start_wtr_def
      ab_note_def say_def rs_sc_values req_order reverts_def)

lemma table_recovery_heard:
  fixes a :: ab and higher :: bool and p :: nat
  assumes "ab_state a = ERPS_STATE_PROTECTION" and "ERPS_REQ_RAPS_NR \<le> ab_top a"
  defines "b \<equiv> g8032 higher p ERPS_REQ_RAPS_NR a"
  shows "ab_state b = ERPS_STATE_PENDING" "ab_blocked b = ab_blocked a" "ab_failed b = ab_failed a"
    "reverts b = reverts a"
    "ab_top b = (if reverts a \<and> \<not> ab_wtr a then ERPS_REQ_WTR_RUNNING else ERPS_REQ_INVALID)"
  unfolding b_def using assms(1,2)
  by (simp_all add: g8032_def admit_def local_reqs_def row_def row_protection_def ab_start_wtr_def
      ab_note_def say_def reverts_def)

text \<open>A flush changes nothing the rows depend on.\<close>

lemma table_flush:
  assumes "xs = [] \<or> xs = [Flush p]"
  shows "ab_state (fold exec xs a) = ab_state a" "ab_top (fold exec xs a) = ab_top a"
    "ab_failed (fold exec xs a) = ab_failed a" "ab_owner (fold exec xs a) = ab_owner a"
    "ab_nbr (fold exec xs a) = ab_nbr a"
  using assms by (auto simp: say_def)

section \<open>IDLE blocks the RPL\<close>

text \<open>In IDLE the RPL is blocked and the other port is open.\<close>

definition ab_reverted :: "ab \<Rightarrow> bool" where
  "ab_reverted a \<longleftrightarrow> (ab_state a = ERPS_STATE_IDLE \<longrightarrow> ab_blocked a 1 \<and> \<not> ab_blocked a 0)"

text \<open>The table keeps the RPL blocked in IDLE at both its ends.\<close>

lemma exec_state:
  "ab_state (exec x a) = (case x of Goto st \<Rightarrow> st | _ \<Rightarrow> ab_state a)"
  by (cases x) simp_all

lemma fold_exec_idle:
  "ab_state (fold exec xs a) = ERPS_STATE_IDLE \<Longrightarrow>
    ab_state a = ERPS_STATE_IDLE \<or> Goto ERPS_STATE_IDLE \<in> set xs"
proof (induction xs arbitrary: a)
  case (Cons x xs)
  then show ?case using Cons.IH [of "exec x a"] by (cases x) (auto simp: exec_state)
qed simp

lemma fold_exec_leaves:
  "ab_state (fold exec (xs @ [Goto st] @ ys) a) = ab_state (fold exec ys (a\<lparr>ab_state := st\<rparr>))"
proof -
  have "ab_state b = ab_state c \<Longrightarrow> ab_state (fold exec ys b) = ab_state (fold exec ys c)" for b c
    by (induction ys arbitrary: b c) (simp_all add: exec_state split: act.split)
  then show ?thesis by simp
qed

text \<open>The rows that end in IDLE.\<close>

lemma row_to_idle:
  assumes "ab_state (fold exec (row h p a req) a) = ERPS_STATE_IDLE"
  shows "ab_state a = ERPS_STATE_IDLE \<and> (req \<in> {ERPS_REQ_RAPS_NR_RB, ERPS_REQ_RAPS_NR} \<or>
      row h p a req = []) \<or>
    ab_state a = ERPS_STATE_PENDING \<and> (req \<in> {ERPS_REQ_CLEAR, ERPS_REQ_RAPS_NR_RB} \<or>
      req \<in> {ERPS_REQ_WTR_EXPIRES, ERPS_REQ_WTB_EXPIRES} \<and> ab_owner a)"
proof (cases "ab_state a = ERPS_STATE_IDLE")
  case True
  then show ?thesis
    using assms fold_exec_leaves [of "butlast (row h p a req)" _ "[]" a]
    by (cases req) (simp_all add: row_def row_idle_def switch_port_def follow_def follow_all_def)
next
  case False
  then have "Goto ERPS_STATE_IDLE \<in> set (row h p a req)"
    using fold_exec_idle [OF assms] by simp
  with False show ?thesis
    by (cases "ab_state a"; cases req)
      (simp_all add: row_def row_defs switch_port_def follow_def follow_all_def stop_timers_def
        recover_def block_rpl_def split: if_splits)
qed

lemma row_reverted:
  assumes "ab_reverted a" and "ab_has_rpl a"
    and "ab_owner a \<Longrightarrow> req \<noteq> ERPS_REQ_RAPS_NR_RB"
  shows "ab_reverted (fold exec (row h p a req) a)"
  unfolding ab_reverted_def
proof
  assume "ab_state (fold exec (row h p a req) a) = ERPS_STATE_IDLE"
  from row_to_idle [OF this] assms
  show "ab_blocked (fold exec (row h p a req) a) 1 \<and> \<not> ab_blocked (fold exec (row h p a req) a) 0"
    by (auto simp: ab_reverted_def ab_has_rpl_def row_def row_defs stop_timers_def block_rpl_def
        split: if_splits)
qed

text \<open>What the priority logic lets through differs from the node at most in the top request.\<close>

lemma admit_fields:
  assumes "admit req a = Some b"
  shows "ab_state b = ab_state a" "ab_blocked b = ab_blocked a" "ab_failed b = ab_failed a"
    "ab_owner b = ab_owner a" "ab_nbr b = ab_nbr a" "ab_has_rpl b = ab_has_rpl a"
    "ab_reverted b = ab_reverted a"
  using assms by (auto simp: admit_def ab_has_rpl_def ab_reverted_def split: if_splits)

lemma g8032_keeps:
  assumes "P a" and "\<And>b. admit req a = Some b \<Longrightarrow> P b"
    and "\<And>b f. P b \<Longrightarrow> P (b\<lparr>ab_failed := f\<rparr>)"
    and "\<And>b. P b \<Longrightarrow> P (fold exec (row h p b req) b)"
  shows "P (g8032 h p req a)"
  using assms(1) assms(2-4)
  by (cases "admit req a") (simp_all add: g8032_def Let_def)

lemma g8032_role [simp]:
  "ab_owner (g8032 h p req a) = ab_owner a" "ab_nbr (g8032 h p req a) = ab_nbr a"
  by (rule g8032_keeps [where P = "\<lambda>b. ab_owner b = ab_owner a"], simp_all add: admit_fields)
    (rule g8032_keeps [where P = "\<lambda>b. ab_nbr b = ab_nbr a"], simp_all add: admit_fields)

lemma g8032_reverted:
  assumes "ab_reverted a" and "ab_has_rpl a" and "ab_owner a \<Longrightarrow> req \<noteq> ERPS_REQ_RAPS_NR_RB"
  shows "ab_reverted (g8032 h p req a)"
proof -
  let ?P = "\<lambda>b. ab_reverted b \<and> ab_has_rpl b \<and> ab_owner b = ab_owner a"
  have "?P (g8032 h p req a)"
  proof (rule g8032_keeps [where P = ?P])
    show "?P (fold exec (row h p b req) b)" if "?P b" for b
      using that assms(3) row_reverted [of b req h p] by (auto simp: ab_has_rpl_def)
  qed (use assms(1,2) in \<open>auto simp: admit_fields ab_reverted_def ab_has_rpl_def\<close>)
  then show ?thesis by simp
qed

end
