(* ===== verification/Erps_Sim_Recv.thy ===== *)
theory Erps_Sim_Recv
  imports Erps_Recv Erps_Refine
begin

text \<open>
  The refinement of \<^verbatim>\<open>Erps_Refine\<close> carried through the mutex and the receive path: a frame that is
  meant for a node does to it what the table says of the request it carries, after at most one
  flush of the forwarding database.
\<close>

declare raps_req_states [simp del]

section \<open>The mutex\<close>

lemma sim_post:
  assumes "driver_ok z" and "absr z n a s" and "p < 2" and "req \<noteq> ERPS_REQ_INVALID"
    and "req = ERPS_REQ_RAPS_NR \<Longrightarrow> pdu \<noteq> None"
    and "k_mutex_lock z (hist s) n (K_MSEC 250) = 0"
    and "\<And>h s'. absr z n (g8032 h p req a) s' \<Longrightarrow> Q 0 s'"
  shows "wp (erps_fsm_post z (n, p) req pdu s) Q"
proof -
  have node: "erps_link_get_node s (n, p) = n" using assms(2,3) by simp
  have drop: "absr z n b t \<Longrightarrow> absr z n b (emit (MutexUnlock n) t)" for b t
    by (auto simp: absr_def good_def ab_of_unseen assms(1))
  have "absr z n a (emit (MutexLock n 0) s)"
    using assms(2) by (auto simp: absr_def good_def ab_of_unseen assms(1))
  then have "wp (erps_fsm_post_locked z (n, p) req pdu (emit (MutexLock n 0) s))
      (\<lambda>r t. r = 0 \<and> (\<exists>h. absr z n (g8032 h p req a) t))"
    by (rule wp_mono [OF sim_post_locked [OF assms(1) _ assms(3-5)]]) auto
  then show ?thesis
    by (auto simp: erps_fsm_post_def node do_mutex_lock_def assms(6) Let_def wp_iff_Some
        intro: assms(7) [OF drop])
qed

section \<open>The conditional flush\<close>

lemma sim_flush_pair:
  assumes "driver_ok z" and "absr z n a s" and "p < 2"
    and "\<And>xs s'. xs = [] \<or> xs = [Flush p] \<Longrightarrow> absr z n (fold exec xs a) s' \<Longrightarrow> Q 0 s'"
  shows "wp (erps_raps_node_id_bpr_flush z (n, p) req pdu s) Q"
proof -
  have none: "absr z n a t \<Longrightarrow> Q 0 t" for t
    using assms(4) [of "[]" t] by simp
  have del: "absr z n a (erps_link_delete_node_id_bpr (n, p) t)" if "absr z n a t" for t
    by (rule absr_step [OF that evolves_delete, where g = "\<lambda>x. x"])
      (simp add: erps_link_delete_node_id_bpr_def ab_of_upd_link_neutral)
  have pair: "absr z n a (upd_link (n, p) (bpr_update (\<lambda>_. b)) t)"
    "absr z n a (upd_link (n, p) (last_node_id_update (\<lambda>_. m)) t)" if "absr z n a t" for t b m
    by (rule absr_step [OF that evolves_upd_link, where g = "\<lambda>x. x"];
        simp add: ab_of_upd_link_neutral)+
  have fl: "wp (erps_flush_fdb z (n, p) t) Q" if "absr z n a t" for t
    using assms(4) [of "[Flush p]"] by (intro sim_flush [OF assms(1) that assms(3)]) simp
  define u where "u = upd_link (n, p) (last_node_id_update (\<lambda>_. node_id (raps_info pdu)))
    (upd_link (n, p) (bpr_update (\<lambda>_. of_bool (raps_pdu_bpr pdu))) s)"
  have u: "absr z n a u" unfolding u_def by (intro pair assms(2))
  obtain mac where id: "erps_link_get_node_id z (n, p) u = Inr mac"
    using absr_node_id [OF assms(1) u assms(3)] by blast
  show ?thesis
    unfolding erps_raps_node_id_bpr_flush_def Let_def
    using none [OF assms(2)] none [OF del [OF assms(2)]] none [OF u] fl [OF u] id
    by (auto simp: u_def)
qed

section \<open>Frames\<close>

text \<open>The request a PDU stands for on a node of a given version; an event stands for none.\<close>

definition raps_request :: "u8 \<Rightarrow> raps_pdu \<Rightarrow> erps_request option" where
  "raps_request ver pdu =
     (let rs = raps_pdu_get_req_state pdu
      in if rs = RAPS_NR then Some (if raps_pdu_rb pdu then ERPS_REQ_RAPS_NR_RB else ERPS_REQ_RAPS_NR)
         else if rs = RAPS_SF then Some ERPS_REQ_RAPS_SF
         else if ver = ERPS_RAPS_VER_1 then None
         else if rs = RAPS_MS then Some ERPS_REQ_RAPS_MS
         else if rs = RAPS_FS then Some ERPS_REQ_RAPS_FS
         else None)"

text \<open>What reading the packet gives.\<close>

definition carries :: "zephyr \<Rightarrow> pkt \<Rightarrow> net_eth_vlan_hdr \<Rightarrow> raps_pdu \<Rightarrow> bool" where
  "carries z pkt hdr pdu \<longleftrightarrow>
     (\<forall>h. sizeof_raps_pdu \<le> net_pkt_get_len z h pkt \<and>
       sizeof_net_eth_vlan_hdr z \<le> net_pkt_remaining_data z h pkt \<and>
       (\<exists>bs. net_pkt_read z h pkt (sizeof_net_eth_vlan_hdr z) = (0, bs) \<and>
         net_eth_vlan_hdr_of_bytes z bs = hdr) \<and>
       (\<exists>bs. net_pkt_read z h pkt sizeof_raps_pdu = (0, bs) \<and> raps_pdu_of_bytes bs = pdu))"

text \<open>
  A frame for this node: on its control VLAN, for its ring, of an R-APS PDU that it did not send
  itself, while its guard timer does not run.
\<close>

definition addressed :: "zephyr \<Rightarrow> sys \<Rightarrow> nat \<Rightarrow> net_eth_vlan_hdr \<Rightarrow> raps_pdu \<Rightarrow> bool" where
  "addressed z s n hdr pdu \<longleftrightarrow>
     net_ntohs z (hdr_tpid hdr) = NET_ETH_PTYPE_VLAN z \<and>
     net_eth_vlan_get_vid z (net_ntohs z (hdr_tci hdr)) = ctrl_vid (nodes s n) \<and>
     mac_last (hdr_dst hdr) = ring_id (nodes s n) \<and> opcode (cfm_hdr pdu) = RAPS_OPCODE \<and>
     (\<forall>h. sys_timepoint_expired z h (guard_timer_expiry (nodes s n)) \<and>
       net_if_get_link_addr z h (net_if_lookup_by_dev z (dev (lnk s (n, 0)))) \<noteq>
         Some (mac_bytes (node_id (raps_info pdu))))"

lemma sim_raps_recv_req:
  assumes "driver_ok z" and "absr z n a s" and "p < 2" and "req \<noteq> ERPS_REQ_INVALID"
    and "\<And>h. sys_timepoint_expired z h (guard_timer_expiry (nodes s n))"
    and "\<And>h. k_mutex_lock z h n (K_MSEC 250) = 0"
    and "\<And>h xs s'. xs = [] \<or> xs = [Flush p] \<Longrightarrow> absr z n (g8032 h p req (fold exec xs a)) s' \<Longrightarrow>
      Q NET_OK s'"
  shows "wp (erps_raps_recv_req z (n, p) req pdu s) Q"
proof -
  have node: "erps_link_get_node s (n, p) = n" using assms(2,3) by simp
  have "wp (erps_fsm_post z (n, p) req (Some pdu) t) (\<lambda>r. Q (if r \<noteq> 0 then NET_DROP else NET_OK))"
    if "xs = [] \<or> xs = [Flush p]" "absr z n (fold exec xs a) t" for xs t
    using assms(7) [OF that(1)]
    by (intro sim_post [OF assms(1) that(2) assms(3,4)]) (simp_all add: assms(6))
  then show ?thesis
    unfolding erps_raps_recv_req_def node Let_def using assms(5)
    by (simp add: case_prod_unfold) (rule sim_flush_pair [OF assms(1-3)])
qed

lemma not_local:
  assumes "driver_ok z" and "absr z n a s" and "p < 2"
    and "net_if_get_link_addr z (hist s) (net_if_lookup_by_dev z (dev (lnk s (n, 0)))) \<noteq>
      Some (mac_bytes (node_id (raps_info pdu)))"
  shows "\<not> erps_is_local_raps_frame z (n, p) pdu s"
proof -
  obtain mac where mac: "erps_link_get_node_id z (n, p) s = Inr mac"
    using absr_node_id [OF assms(1-3)] by blast
  then have "net_if_get_link_addr z (hist s) (net_if_lookup_by_dev z (dev (lnk s (n, 0)))) =
      Some (mac_bytes mac)"
    using assms(2,3)
    by (auto simp: erps_link_get_node_id_def lnk_def split: option.splits if_splits)
  with assms(4) show ?thesis by (auto simp: erps_is_local_raps_frame_def mac)
qed

lemma sim_recv:
  assumes "driver_ok z" and "absr z n a s" and "erps_link_lookup_by_iface z i s = Some (n, p)"
    and "carries z pkt hdr pdu" and "addressed z s n hdr pdu"
    and "raps_request (raps_ver (nodes s n)) pdu = Some req"
    and "\<And>h. k_mutex_lock z h n (K_MSEC 250) = 0"
  shows "\<exists>h xs t. erps_recv z i pkt s = Some (NET_OK, t) \<and> (xs = [] \<or> xs = [Flush p]) \<and>
    absr z n (g8032 h p req (fold exec xs a)) t \<and> hd (hist t) = PktUnref pkt"
proof -
  note p = lookup_by_iface_SomeD(2) [OF assms(3)]
  define s1 where "s1 = emit (PktCursorBackup pkt) s"
  define s2 where "s2 = emit (PktRead pkt (sizeof_net_eth_vlan_hdr z) 0) s1"
  define s3 where "s3 = emit (PktRead pkt sizeof_raps_pdu 0) s2"
  have u: "unseen n (PktCursorBackup k)" "unseen n (PktUnref k)" for k by (simp_all add: unseen_def)
  have a1: "absr z n a s1" unfolding s1_def by (rule absr_emit_unseen [OF assms(1,2)]) (simp_all add: u)
  have a2: "absr z n a s2" unfolding s2_def by (rule absr_emit_unseen [OF assms(1) a1]) simp_all
  have a3: "absr z n a s3" unfolding s3_def by (rule absr_emit_unseen [OF assms(1) a2]) simp_all
  note node = absr_get_node [OF a1 p] absr_get_node [OF a2 p] absr_get_node [OF a3 p]
  have nodes: "nodes s1 = nodes s" "nodes s2 = nodes s" "nodes s3 = nodes s" "lnk s3 = lnk s"
    by (simp_all add: s1_def s2_def s3_def fun_eq_iff)
  note c = assms(4) [unfolded carries_def, rule_format]
  note ad = assms(5) [unfolded addressed_def]
  have hdr: "erps_read_vlan_hdr z (n, p) pkt s1 = (Inr hdr, s2)"
    using c [of "hist s1"] ad
    by (auto simp: erps_read_vlan_hdr_def node nodes do_pkt_read_def Let_def s2_def not_less)
  obtain bs where bs: "net_pkt_read z (hist s2) pkt sizeof_raps_pdu = (0, bs)"
    "raps_pdu_of_bytes bs = pdu" using c [of "hist s2"] by blast
  have foreign: "\<not> erps_is_local_raps_frame z (n, p) pdu s3"
    using ad by (intro not_local [OF assms(1) a3 p]) (simp add: nodes)
  define Q where "Q r t \<longleftrightarrow> r = NET_OK \<and> (\<exists>h xs. (xs = [] \<or> xs = [Flush p]) \<and>
    absr z n (g8032 h p req (fold exec xs a)) t)" for r t
  have "req \<noteq> ERPS_REQ_INVALID"
    using assms(6) by (auto simp: raps_request_def Let_def split: if_splits)
  then have "wp (erps_raps_recv_req z (n, p) req pdu s3) Q"
    using ad by (intro sim_raps_recv_req [OF assms(1) a3 p]) (auto simp: nodes assms(7) Q_def)
  then have "wp (erps_raps_recv z (n, p) pdu s3) Q"
    using ad assms(6) unfolding erps_raps_recv_def node nodes Let_def raps_request_def
    by (auto simp: raps_req_states split: if_splits)
  then have "wp (erps_eth_recv z (n, p) pkt s1) Q"
    using ad foreign
    by (simp add: erps_eth_recv_def hdr node do_pkt_read_def bs [simplified] erps_is_stray_raps_pdu_def nodes
        s3_def [symmetric, simplified])
  then obtain t where t: "erps_eth_recv z (n, p) pkt s1 = Some (NET_OK, t)" "Q NET_OK t"
    by (auto simp: wp_iff_Some Q_def)
  have "erps_recv z i pkt s = Some (NET_OK, emit (PktUnref pkt) t)"
    using c [of "hist s1"] by (simp add: erps_recv_def assms(3) t(1) flip: s1_def)
  moreover have "absr z n b (emit (PktUnref pkt) t)" if "absr z n b t" for b
    by (rule absr_emit_unseen [OF assms(1) that]) (simp_all add: u)
  ultimately show ?thesis using t(2) unfolding Q_def by (metis emit_simps(3) list.sel(1))
qed

end
