(* ===== verification/Erps_Sim_Sys.thy ===== *)
theory Erps_Sim_Sys
  imports Erps_Events Erps_Rows Erps_Sim_Recv
begin

text \<open>
  The refinement for the running system: every event it handles, whatever frame arrives and
  whatever the mutex answers, is at each node a step of the protection switching table or
  nothing that the table can see.
\<close>

declare raps_req_states [simp del]

section \<open>Steps of the table\<close>

text \<open>
  What the table sees of a node, but for its timers, which the environment moves on its own, and
  the record of its commands.
\<close>

definition core :: "ab \<Rightarrow> ab" where
  "core a = a\<lparr>ab_wtr := False, ab_wtb := False, ab_out := []\<rparr>"

lemma core_fields:
  "ab_owner (core a) = ab_owner a" "ab_nbr (core a) = ab_nbr a"
  "ab_revertive (core a) = ab_revertive a" "ab_state (core a) = ab_state a"
  "ab_top (core a) = ab_top a" "ab_blocked (core a) = ab_blocked a"
  "ab_failed (core a) = ab_failed a" "ab_msg (core a) = ab_msg a" "ab_if (core a) = ab_if a"
  by (simp_all add: core_def)

lemma core_eqD:
  assumes "core a = core b"
  shows "ab_owner a = ab_owner b" "ab_nbr a = ab_nbr b" "ab_revertive a = ab_revertive b"
    "ab_state a = ab_state b" "ab_top a = ab_top b" "ab_blocked a = ab_blocked b"
    "ab_failed a = ab_failed b" "ab_msg a = ab_msg b" "ab_if a = ab_if b"
  using arg_cong [OF assms, of ab_owner] arg_cong [OF assms, of ab_nbr]
    arg_cong [OF assms, of ab_revertive] arg_cong [OF assms, of ab_state]
    arg_cong [OF assms, of ab_top] arg_cong [OF assms, of ab_blocked]
    arg_cong [OF assms, of ab_failed] arg_cong [OF assms, of ab_msg] arg_cong [OF assms, of ab_if]
  by (simp_all add: core_fields)

lemma core_flush: "xs = [] \<or> xs = [Flush p] \<Longrightarrow> core (fold exec xs a) = core a"
  by (auto simp: core_def say_def)

lemma core_unchanged: "nodes t n = nodes s n \<Longrightarrow> core (ab_of z n t) = core (ab_of z n s)"
  by (simp add: core_def ab_of_def iface_of_def lnk_def fun_eq_iff)

text \<open>Requests come with the outcome of the contest of node identifiers and a port.\<close>

inductive table_step :: "(bool \<times> nat \<times> erps_request) set \<Rightarrow> ab \<Rightarrow> ab \<Rightarrow> bool" for R a b where
  table_idle: "core b = core a \<Longrightarrow> table_step R a b"
| table_request: "(higher, p, req) \<in> R \<Longrightarrow> core c = core a \<Longrightarrow>
    core b = core (g8032 higher p req c) \<Longrightarrow> table_step R a b"

inductive_cases table_stepE: "table_step R a b"

lemma table_step_mono: "table_step R a b \<Longrightarrow> R \<subseteq> R' \<Longrightarrow> table_step R' a b"
  by (auto elim!: table_stepE intro: table_step.intros)

text \<open>What the table keeps and the timers do not matter for is kept by a step.\<close>

lemma table_step_keeps:
  assumes "table_step R a b" and "Q a" and "\<And>x y. core x = core y \<Longrightarrow> Q x = Q y"
    and "\<And>h p req c. (h, p, req) \<in> R \<Longrightarrow> core c = core a \<Longrightarrow> Q (g8032 h p req c)"
  shows "Q b"
  using assms(1)
proof (cases rule: table_step.cases)
  case table_idle
  then show ?thesis using assms(2) assms(3) [of b a] by simp
next
  case (table_request h p req c)
  then show ?thesis using assms(3) [of b "g8032 h p req c"] assms(4) by simp
qed

section \<open>The requests of an event\<close>

text \<open>A packet may turn out to carry this PDU.\<close>

definition may_carry :: "zephyr \<Rightarrow> pkt \<Rightarrow> raps_pdu \<Rightarrow> bool" where
  "may_carry z k pdu \<longleftrightarrow>
     (\<exists>h bs. net_pkt_read z h k sizeof_raps_pdu = (0, bs) \<and> pdu = raps_pdu_of_bytes bs)"

definition frame_request :: "zephyr \<Rightarrow> sys \<Rightarrow> nat \<Rightarrow> pkt \<Rightarrow> bool \<Rightarrow> erps_request \<Rightarrow> bool" where
  "frame_request z s n k higher req \<longleftrightarrow> (\<exists>pdu h mac. may_carry z k pdu \<and>
     opcode (cfm_hdr pdu) = RAPS_OPCODE \<and> raps_request (raps_ver (nodes s n)) pdu = Some req \<and>
     net_if_get_link_addr z h (net_if_lookup_by_dev z (dev (lnk s (n, 0)))) = Some (mac_bytes mac) \<and>
     higher = (0 < memcmp (mac_bytes (node_id (raps_info pdu))) (mac_bytes mac)))"

fun ctl_request :: "erps_event \<Rightarrow> erps_request option" where
  "ctl_request ERPS_SIGNAL_FAIL = Some ERPS_REQ_SF"
| "ctl_request ERPS_CLEAR_SIGNAL_FAIL = Some ERPS_REQ_CLEAR_SF"
| "ctl_request ERPS_ADM_CLEAR = Some ERPS_REQ_CLEAR"
| "ctl_request ERPS_ADM_FORCED_SWITCH = Some ERPS_REQ_FS"
| "ctl_request ERPS_ADM_MANUAL_SWITCH = Some ERPS_REQ_MS"
| "ctl_request (ERPS_EVENT_OTHER v) = None"

fun event_requests :: "zephyr \<Rightarrow> sys \<Rightarrow> erps_input \<Rightarrow> nat \<Rightarrow> (bool \<times> nat \<times> erps_request) set" where
  "event_requests z s (Ctl i ev) n = {(h, p, req).
     erps_link_lookup_by_iface z i s = Some (n, p) \<and> ctl_request ev = Some req}"
| "event_requests z s (Frame i k) n = {(h, p, req).
     erps_link_lookup_by_iface z i s = Some (n, p) \<and> frame_request z s n k h req}"
| "event_requests z s (WtrTimer m) n = {(h, p, req). m = n \<and> p = 0 \<and> req = ERPS_REQ_WTR_EXPIRES}"
| "event_requests z s (WtbTimer m) n = {(h, p, req). m = n \<and> p = 0 \<and> req = ERPS_REQ_WTB_EXPIRES}"
| "event_requests z s (LinkDownTimer m q) n = {(h, p, req). m = n \<and> p = q \<and> req = ERPS_REQ_SF}"
| "event_requests z s ev n = {}"

section \<open>Posting\<close>

lemma absr_mutex:
  assumes "driver_ok z" and "absr z n a s"
  shows "absr z n a (emit (MutexLock n r) s)" "absr z n a (emit (MutexUnlock n) s)"
  using assms(2) by (auto simp: absr_def good_def ab_of_unseen [OF assms(1)] unseen_def)

lemma sim_post_any:
  assumes "driver_ok z" and "absr z n a s" and "p < 2" and "req \<noteq> ERPS_REQ_INVALID"
    and "req = ERPS_REQ_RAPS_NR \<Longrightarrow> pdu \<noteq> None"
    and "\<And>r s'. absr z n a s' \<Longrightarrow> Q r s'"
    and "\<And>h s'. h = contest z (emit (MutexLock n 0) s) n pdu \<Longrightarrow> absr z n (g8032 h p req a) s' \<Longrightarrow> Q 0 s'"
  shows "wp (erps_fsm_post z (n, p) req pdu s) Q"
proof -
  have node: "erps_link_get_node s (n, p) = n" using assms(2,3) by simp
  let ?c = "contest z (emit (MutexLock n 0) s) n pdu"
  have "wp (erps_fsm_post_locked z (n, p) req pdu (emit (MutexLock n 0) s))
      (\<lambda>r t. r = 0 \<and> absr z n (g8032 ?c p req a) t)"
    by (rule sim_post_locked [OF assms(1) absr_mutex(1) [OF assms(1,2)] assms(3-5)])
  then obtain t where t: "erps_fsm_post_locked z (n, p) req pdu (emit (MutexLock n 0) s) = Some (0, t)"
    "absr z n (g8032 ?c p req a) t" by (auto simp: wp_iff_Some)
  have "Q 0 (emit (MutexUnlock n) t)"
    by (rule assms(7) [OF refl absr_mutex(2) [OF assms(1) t(2)]])
  then show ?thesis
    using assms(6) [OF absr_mutex(1) [OF assms(1,2)]] t(1)
    by (auto simp: erps_fsm_post_def node do_mutex_lock_def Let_def)
qed

lemma contest_value:
  assumes "driver_ok z" and "absr z n a s"
  shows "\<exists>mac. net_if_get_link_addr z (hist s) (Some (ab_if a 0)) = Some (mac_bytes mac) \<and>
    contest z s n (Some pdu) = (0 < memcmp (mac_bytes (node_id (raps_info pdu))) (mac_bytes mac))"
proof -
  obtain mac where mac: "erps_link_get_node_id z (n, 0) s = Inr mac"
    using absr_node_id [OF assms, of 0] by auto
  then have "net_if_get_link_addr z (hist s) (net_if_lookup_by_dev z (dev (lnk s (n, 0)))) =
      Some (mac_bytes mac)"
    using assms(2) by (auto simp: erps_link_get_node_id_def lnk_def split: option.splits if_splits)
  moreover have "net_if_lookup_by_dev z (dev (lnk s (n, 0))) = Some (ab_if a 0)"
    using absr_iface [OF assms(2), of 0] by simp
  ultimately show ?thesis by (auto simp: contest_def mac)
qed

section \<open>Receiving\<close>

text \<open>A received frame, at the end: perhaps a flush, and perhaps a request it may carry.\<close>

definition frame_done :: "zephyr \<Rightarrow> sys \<Rightarrow> nat \<Rightarrow> nat \<Rightarrow> pkt \<Rightarrow> ab \<Rightarrow> sys \<Rightarrow> bool" where
  "frame_done z s n p k a t \<longleftrightarrow> (\<exists>xs. (xs = [] \<or> xs = [Flush p]) \<and>
     (absr z n (fold exec xs a) t \<or> (\<exists>h req. frame_request z s n k h req \<and>
       absr z n (g8032 h p req (fold exec xs a)) t)))"

lemma frame_done_emit:
  assumes "driver_ok z" and "frame_done z s n p k a t" and "quiet x" and "unseen n x"
  shows "frame_done z s n p k a (emit x t)"
  using assms(2) absr_emit_unseen [OF assms(1) _ assms(3,4)] unfolding frame_done_def by blast

lemma frame_done_nothing: "absr z n a t \<Longrightarrow> frame_done z s n p k a t"
  unfolding frame_done_def by (intro exI [of _ "[]"]) simp

lemma sim_recv_req_any:
  assumes "driver_ok z" and "absr z n a t" and "p < 2"
    and "absr z n a s" and "may_carry z k pdu" and "opcode (cfm_hdr pdu) = RAPS_OPCODE"
    and "raps_request (raps_ver (nodes s n)) pdu = Some req"
  shows "wp (erps_raps_recv_req z (n, p) req pdu t) (\<lambda>_. frame_done z s n p k a)"
proof -
  have node: "erps_link_get_node t (n, p) = n" using assms(2,3) by simp
  have req: "req \<noteq> ERPS_REQ_INVALID"
    using assms(7) by (auto simp: raps_request_def Let_def split: if_splits)
  have if0: "net_if_lookup_by_dev z (dev (lnk s (n, 0))) = Some (ab_if a 0)"
    using absr_iface [OF assms(4), of 0] by simp
  have "wp (erps_fsm_post z (n, p) req (Some pdu) u) (\<lambda>_. frame_done z s n p k a)"
    if xs: "xs = [] \<or> xs = [Flush p]" and u: "absr z n (fold exec xs a) u" for xs u
  proof -
    have none: "frame_done z s n p k a v" if "absr z n (fold exec xs a) v" for v
      using xs that unfolding frame_done_def by blast
    have some: "frame_done z s n p k a v"
      if h: "h = contest z (emit (MutexLock n 0) u) n (Some pdu)"
        and v: "absr z n (g8032 h p req (fold exec xs a)) v" for h v
    proof -
      have "ab_if (fold exec xs a) = ab_if a" using xs by (auto simp: say_def)
      then have "frame_request z s n k h req"
        unfolding frame_request_def if0 h
        using contest_value [OF assms(1) absr_mutex(1) [OF assms(1) u], of 0 pdu] assms(5-7) by auto
      then show ?thesis using xs v unfolding frame_done_def by blast
    qed
    show ?thesis
      by (rule sim_post_any [OF assms(1) u assms(3) req]) (simp_all add: none some)
  qed
  note post = this
  have "wp (erps_raps_node_id_bpr_flush z (n, p) req pdu t) (\<lambda>_ u.
      wp (erps_fsm_post z (n, p) req (Some pdu) u) (\<lambda>_. frame_done z s n p k a))"
    by (rule sim_flush_pair [OF assms(1-3)]) (rule post)
  then show ?thesis
    unfolding erps_raps_recv_req_def node Let_def
    by (auto simp: frame_done_nothing [OF assms(2)])
qed

lemma sim_raps_recv_any:
  assumes "driver_ok z" and "absr z n a t" and "p < 2"
    and "absr z n a s" and "may_carry z k pdu" and "nodes t = nodes s"
  shows "wp (erps_raps_recv z (n, p) pdu t) (\<lambda>_. frame_done z s n p k a)"
proof -
  have node: "erps_link_get_node t (n, p) = n" using assms(2,3) by simp
  have fl: "wp (erps_flush_fdb z (n, p) t) (\<lambda>_. frame_done z s n p k a)"
  proof (rule sim_flush [OF assms(1-3)])
    show "frame_done z s n p k a u" if "absr z n (say (FlushFdb (ab_if a p)) a) u" for u
      using that unfolding frame_done_def by (intro exI [of _ "[Flush p]"]) simp
  qed
  note req = sim_recv_req_any [OF assms(1-5), unfolded raps_request_def Let_def]
  show ?thesis
    unfolding erps_raps_recv_def node Let_def assms(6) erps_handle_raps_event_def
    using fl frame_done_nothing [OF assms(2), of s p k]
    by (auto simp: wp_iff_Some raps_req_states intro!: req [unfolded wp_iff_Some])
qed

lemma unseen_pkt:
  "unseen n (PktCursorBackup k)" "unseen n (PktUnref k)" "unseen n (PktCursorRestore k)"
  "unseen n (PktRead k len r)"
  by (simp_all add: unseen_def)

lemma sim_eth_recv_any:
  assumes "driver_ok z" and "absr z n a t" and "p < 2" and "absr z n a s" and "nodes t = nodes s"
  shows "wp (erps_eth_recv z (n, p) k t) (\<lambda>_. frame_done z s n p k a)"
proof -
  have node: "erps_link_get_node t (n, p) = n" using assms(2,3) by simp
  have none: "frame_done z s n p k a u" if "absr z n a u" for u
    using that by (rule frame_done_nothing)
  have rd: "absr z n a (emit (PktRead k len r) u)" if "absr z n a u" for u len r
    using that by (rule absr_emit_unseen [OF assms(1)]) (simp_all add: unseen_pkt)
  obtain hdr u where u: "erps_read_vlan_hdr z (n, p) k t = (hdr, u)" by fastforce
  have u': "absr z n a u" "nodes u = nodes s"
    using read_vlan_hdr_state [of z "(n, p)" k t] u assms(2,5) rd by auto
  have pdu: "wp (erps_raps_recv z (n, p) (raps_pdu_of_bytes bs) (emit (PktRead k sizeof_raps_pdu 0) u))
      (\<lambda>_. frame_done z s n p k a)"
    if "net_pkt_read z (hist u) k sizeof_raps_pdu = (0, bs)" for bs
    using that u' by (intro sim_raps_recv_any [OF assms(1) rd [OF u'(1)] assms(3,4)])
      (auto simp: may_carry_def)
  show ?thesis
    unfolding erps_eth_recv_def u node Let_def do_pkt_read_def
    using none [OF u'(1)] none [OF rd [OF u'(1)]] pdu
    by (auto simp: case_prod_unfold prod_eq_iff split: sum.split)
qed

lemma sim_recv_any:
  assumes "driver_ok z" and "absr z n a s" and "erps_link_lookup_by_iface z i s = Some (n, p)"
  shows "wp (erps_recv z i k s) (\<lambda>_. frame_done z s n p k a)"
proof -
  note p = lookup_by_iface_SomeD(2) [OF assms(3)]
  have t: "absr z n a (emit (PktCursorBackup k) s)"
    by (rule absr_emit_unseen [OF assms(1,2)]) (simp_all add: unseen_pkt)
  have fin: "frame_done z s n p k a (emit (PktUnref k) u)"
    "frame_done z s n p k a (emit (PktCursorRestore k) u)" if "frame_done z s n p k a u" for u
    by (rule frame_done_emit [OF assms(1) that]; simp add: unseen_pkt)+
  have "wp (erps_eth_recv z (n, p) k (emit (PktCursorBackup k) s)) (\<lambda>_. frame_done z s n p k a)"
    by (rule sim_eth_recv_any [OF assms(1) t p assms(2)]) simp
  then show ?thesis
    using fin frame_done_nothing [OF t, of s p k]
    by (auto simp: erps_recv_def assms(3) Let_def wp_iff_Some)
qed

section \<open>Every event\<close>

text \<open>
  \<open>sys_step\<close>: the system is in order after an event, and each of its nodes has made a step of the
  table. For an event that acts on a node alone it is enough to look at that node.
\<close>

definition sys_ok :: "zephyr \<Rightarrow> sys \<Rightarrow> bool" where
  "sys_ok z s \<longleftrightarrow> driver_ok z \<and> ring_ok z s \<and> (\<forall>n < nnodes s. good z n s)"

definition sys_step :: "zephyr \<Rightarrow> erps_input \<Rightarrow> sys \<Rightarrow> sys \<Rightarrow> bool" where
  "sys_step z ev s t \<longleftrightarrow> nnodes t = nnodes s \<and> (\<forall>n < nnodes s.
     table_step (event_requests z s ev n) (ab_of z n s) (ab_of z n t) \<and>
     dev (lnk t (n, 0)) = dev (lnk s (n, 0)) \<and> raps_ver (nodes t n) = raps_ver (nodes s n))"

lemma sys_okD:
  assumes "sys_ok z s" and "n < nnodes s"
  shows "driver_ok z" "ring_ok z s" "good z n s" "absr z n (ab_of z n s) s" "node_ok z s n"
  using assms ring_okD by (simp_all add: sys_ok_def absr_def)

lemma sys_ok_ring: "sys_ok z s \<Longrightarrow> ring_ok z s"
  by (simp add: sys_ok_def)

lemma sys_step_local:
  assumes "sys_ok z s" and "n < nnodes s" and "evolves z n s t"
    and "table_step (event_requests z s ev n) (ab_of z n s) (ab_of z n t)"
  shows "sys_ok z t \<and> sys_step z ev s t"
proof -
  note ok = sys_okD [OF assms(1,2)]
  have nn: "nnodes t = nnodes s" using assms(3) by (rule evolves_nnodes)
  have same: "nodes t m = nodes s m" if "m \<noteq> n" for m
    using assms(3) that by (simp add: evolves_def)
  have "good z m t" if "m < nnodes t" for m
    using good_evolves [OF ok(3) assms(3)] sys_okD(3) [OF assms(1)] that
    by (cases "m = n") (auto simp: nn good_def same lnk_def)
  moreover have "table_step (event_requests z s ev m) (ab_of z m s) (ab_of z m t)" if "m < nnodes s" for m
    using assms(4) that by (cases "m = n") (auto intro: table_idle core_unchanged [OF same])
  moreover have "raps_ver (nodes t m) = raps_ver (nodes s m)" for m
    using evolves_cfg [OF assms(3), of m] by (simp add: node_cfg_def)
  ultimately show ?thesis
    using ok(1) ring_ok_evolves [OF ok(2) assms(3,2)] nn evolves_dev [OF assms(3)]
    by (simp add: sys_ok_def sys_step_def)
qed

lemma sys_step_refl: "sys_ok z s \<Longrightarrow> sys_ok z s \<and> sys_step z ev s s"
  by (simp add: sys_step_def table_idle)

text \<open>From a rule that keeps the invariant and one that simulates.\<close>

lemma sys_step_wp:
  assumes "sys_ok z s" and "n < nnodes s" and "wp m (\<lambda>_. stable z n s)"
    and "wp m (\<lambda>_ t. table_step (event_requests z s ev n) (ab_of z n s) (ab_of z n t))"
  shows "\<exists>t. map_option snd m = Some t \<and> sys_ok z t \<and> sys_step z ev s t"
  using wp_conj [OF assms(3,4)] sys_step_local [OF assms(1,2) stable_evolves]
  by (auto simp: wp_iff_Some)

lemma post_sys_step:
  assumes "sys_ok z s" and "n < nnodes s" and "p < 2"
    and "req \<notin> {ERPS_REQ_RAPS_NR, ERPS_REQ_INVALID}" and "\<And>h. (h, p, req) \<in> event_requests z s ev n"
  shows "\<exists>t. map_option snd (erps_fsm_post z (n, p) req None s) = Some t \<and> sys_ok z t \<and> sys_step z ev s t"
proof (rule sys_step_wp [OF assms(1,2)])
  note ok = sys_okD [OF assms(1,2)]
  show "wp (erps_fsm_post z (n, p) req None s) (\<lambda>_. stable z n s)"
    using assms(4) by (intro wp_post_ok [OF ok(2) assms(2,3)]) auto
  show "wp (erps_fsm_post z (n, p) req None s)
      (\<lambda>_ t. table_step (event_requests z s ev n) (ab_of z n s) (ab_of z n t))"
    using assms(4,5)
    by (intro sim_post_any [OF ok(1,4) assms(3)])
      (auto simp: absr_def intro: table_idle table_request [OF _ refl])
qed

lemma ctl_sys_step:
  assumes "sys_ok z s"
  shows "\<exists>t. map_option snd (net_erps_ctl z i e s) = Some t \<and> sys_ok z t \<and> sys_step z (Ctl i e) s t"
proof (cases "ctl_request e")
  case None
  then show ?thesis
    using sys_step_refl [OF assms] by (cases e) (auto simp: net_erps_ctl_def)
next
  case (Some req)
  then have eq: "net_erps_ctl z i e s = net_erps_fsm_post z i req s"
    and req: "req \<notin> {ERPS_REQ_RAPS_NR, ERPS_REQ_INVALID}"
    by (cases e; auto simp: net_erps_ctl_def)+
  show ?thesis
  proof (cases "erps_link_lookup_by_iface z i s")
    case None
    then show ?thesis
      using sys_step_refl [OF assms] by (auto simp: eq net_erps_fsm_post_def)
  next
    case (Some l)
    obtain n p where l: "l = (n, p)" by fastforce
    note np = lookup_by_iface_SomeD [OF Some [unfolded l]]
    have "(h, p, req) \<in> event_requests z s (Ctl i e) n" for h
      using \<open>ctl_request e = Some req\<close> by (simp add: Some l)
    from post_sys_step [OF assms np(1,2) req this] show ?thesis
      by (simp add: eq net_erps_fsm_post_def Some l)
  qed
qed

lemma frame_sys_step:
  assumes "sys_ok z s"
  shows "\<exists>t. map_option snd (erps_recv z i k s) = Some t \<and> sys_ok z t \<and> sys_step z (Frame i k) s t"
proof (cases "erps_link_lookup_by_iface z i s")
  case None
  then show ?thesis using sys_step_refl [OF assms] by (auto simp: erps_recv_def)
next
  case (Some l)
  obtain n p where l: "l = (n, p)" by fastforce
  note np = lookup_by_iface_SomeD [OF Some [unfolded l]]
  note ok = sys_okD [OF assms np(1)]
  have step: "table_step (event_requests z s (Frame i k) n) (ab_of z n s) (ab_of z n t)"
    if fd: "frame_done z s n p k (ab_of z n s) t" for t
  proof -
    obtain xs where xs: "xs = [] \<or> xs = [Flush p]"
      "absr z n (fold exec xs (ab_of z n s)) t \<or> (\<exists>h req. frame_request z s n k h req \<and>
         absr z n (g8032 h p req (fold exec xs (ab_of z n s))) t)"
      using fd unfolding frame_done_def by blast
    note c = core_flush [OF xs(1), of "ab_of z n s"]
    from xs(2) show ?thesis
    proof (elim disjE exE conjE)
      assume "absr z n (fold exec xs (ab_of z n s)) t"
      then show ?thesis using c by (intro table_idle) (simp add: absr_def)
    next
      fix h req
      assume r: "frame_request z s n k h req" "absr z n (g8032 h p req (fold exec xs (ab_of z n s))) t"
      then have "(h, p, req) \<in> event_requests z s (Frame i k) n" by (simp add: Some l)
      moreover have "core (ab_of z n t) = core (g8032 h p req (fold exec xs (ab_of z n s)))"
        using r(2) by (simp add: absr_def)
      ultimately show ?thesis using c by (intro table_request)
    qed
  qed
  have "wp (erps_recv z i k s) (\<lambda>_. stable z n s)"
    by (rule wp_recv_ok [OF ok(2) Some [unfolded l]])
  then show ?thesis
    by (rule sys_step_wp [OF assms np(1)])
      (rule wp_mono [OF sim_recv_any [OF ok(1,4) Some [unfolded l]]], rule step)
qed

lemma quiet_sys_step:
  assumes "sys_ok z s" and "n < nnodes s" and "evolves z n s t"
    and "core (ab_of z n t) = core (ab_of z n s)"
  shows "sys_ok z t \<and> sys_step z ev s t"
  using assms(4) by (intro sys_step_local [OF assms(1-3)] table_idle)

lemma core_tx_work: "core (ab_of z n (erps_tx_work z (n, p) s)) = core (ab_of z n s)"
proof -
  have "nodes (erps_link_tx_single_pdu z (n, p) s) = nodes s"
    using only_calls_tx_single by (simp add: only_calls_def)
  then have "core (ab_of z n (erps_link_tx_single_pdu z (n, p) s)) = core (ab_of z n s)"
    by (intro core_unchanged) simp
  moreover have "core (ab_of z n (upd_link (n, p) (\<lambda>k. k\<lparr>tx_burst := tx_burst k - 1\<rparr>) t)) =
      core (ab_of z n t)" for t
    by (simp add: ab_of_upd_link_neutral)
  moreover have "core (ab_of z n (emit a t)) = core (ab_of z n t)" for a t
    by (rule core_unchanged) simp
  ultimately show ?thesis
    by (simp add: erps_tx_work_def do_reschedule_def Let_def)
qed

lemma world_sys_step:
  assumes "sys_ok z s"
  shows "sys_ok z (emit (WorldStep k) s) \<and> sys_step z ev s (emit (WorldStep k) s)"
proof -
  have "core (ab_of z n (emit (WorldStep k) s)) = core (ab_of z n s)" for n
    by (rule core_unchanged) simp
  then show ?thesis
    using assms world_ring_ok [of z s k]
    by (simp add: sys_ok_def sys_step_def table_idle good_def)
qed

lemma set_ring_id_sys_step:
  assumes "sys_ok z s"
  shows "sys_ok z (snd (net_erps_set_ring_id z i r s)) \<and> sys_step z ev s (snd (net_erps_set_ring_id z i r s))"
proof -
  let ?t = "snd (net_erps_set_ring_id z i r s)"
  have t: "nnodes ?t = nnodes s" "nodes ?t n = nodes s n \<or> nodes ?t n = (nodes s n)\<lparr>ring_id := r\<rparr>" for n
    by (auto simp: net_erps_set_ring_id_def upd_node_def split: option.split)
  have "hist ?t = hist s"
    by (auto simp: net_erps_set_ring_id_def upd_node_def split: option.split)
  have "core (ab_of z n ?t) = core (ab_of z n s) \<and> good z n ?t = good z n s \<and>
      lnk ?t (n, 0) = lnk s (n, 0) \<and> raps_ver (nodes ?t n) = raps_ver (nodes s n)" for n
    using t(2) [of n]
    by (auto simp: core_def ab_of_def iface_of_def lnk_def fun_eq_iff good_def idx_ok_def role_ok_def)
  then show ?thesis
    using assms t(1) set_ring_id_ring_ok [of z s i r]
    by (simp add: sys_ok_def sys_step_def table_idle)
qed

lemma handle_sys_step:
  assumes "sys_ok z s" and "erps_ready z s ev"
  shows "\<exists>t. erps_handle z ev s = Some t \<and> sys_ok z t \<and> sys_step z ev s t"
proof (cases ev)
  case (LinkDownTimer n p)
  then show ?thesis
    using assms sys_step_refl [OF assms(1)] post_sys_step [OF assms(1), of n p ERPS_REQ_SF ev]
    by (auto simp: erps_link_down_work_def split: option.split)
next
  case (TxTimer n p)
  then show ?thesis
    using assms quiet_sys_step [OF assms(1) _ evolves_tx_work core_tx_work] by simp
next
  case (MgmtEvent n u i)
  have "core (ab_of z n (erps_iface_up_cb z n u i s)) = core (ab_of z n s)"
    by (rule core_unchanged) (simp add: erps_iface_up_cb_def do_reschedule_def Let_def)
  with MgmtEvent show ?thesis
    using assms quiet_sys_step [OF assms(1) _ evolves_iface_up_cb] by simp
next
  case (WtrTimer n)
  then show ?thesis
    using assms post_sys_step [OF assms(1), of n 0 ERPS_REQ_WTR_EXPIRES ev] by (simp add: erps_wtr_work_def)
next
  case (WtbTimer n)
  then show ?thesis
    using assms post_sys_step [OF assms(1), of n 0 ERPS_REQ_WTB_EXPIRES ev] by (simp add: erps_wtb_work_def)
next
  case (SetRpl i own)
  then show ?thesis
    using sys_step_refl [OF assms(1)] set_as_rpl_started [OF sys_ok_ring [OF assms(1)]] by simp
next
  case (UnsetRpl i)
  then show ?thesis
    using sys_step_refl [OF assms(1)] unset_rpl_started [OF sys_ok_ring [OF assms(1)], of i] assms(2)
    by (simp del: map_option_eq_Some)
qed (use assms in \<open>simp_all del: map_option_eq_Some add: ctl_sys_step frame_sys_step set_ring_id_sys_step world_sys_step\<close>)

interpretation table: event_loop "erps_handle z" "erps_ready z" "sys_ok z" for z
  by unfold_locales (use handle_sys_step in blast)

section \<open>The RPL in IDLE\<close>

text \<open>
  Which nodes never leave the RPL open in IDLE: its neighbour, and the owner if it hears no NR,RB.
\<close>

definition hears_no_rb :: "zephyr \<Rightarrow> bool" where
  "hears_no_rb z \<longleftrightarrow> (\<forall>k pdu. may_carry z k pdu \<longrightarrow>
     \<not> (raps_pdu_get_req_state pdu = RAPS_NR \<and> raps_pdu_rb pdu))"

definition rpl_end :: "zephyr \<Rightarrow> erps_node \<Rightarrow> bool" where
  "rpl_end z nd \<longleftrightarrow> rpl_nbr nd \<or> rpl_owner nd \<and> hears_no_rb z"

definition reverted_ok :: "zephyr \<Rightarrow> sys \<Rightarrow> bool" where
  "reverted_ok z s \<longleftrightarrow> sys_ok z s \<and>
     (\<forall>n < nnodes s. rpl_end z (nodes s n) \<longrightarrow> ab_reverted (ab_of z n s))"

lemma no_rb_request:
  assumes "hears_no_rb z" and "(h, p, req) \<in> event_requests z s ev n"
  shows "req \<noteq> ERPS_REQ_RAPS_NR_RB"
proof (cases ev)
  case (Ctl i e)
  then show ?thesis using assms(2) by (cases e) auto
next
  case (Frame i k)
  then obtain pdu where "may_carry z k pdu" "raps_request (raps_ver (nodes s n)) pdu = Some req"
    using assms(2) by (auto simp: frame_request_def)
  then show ?thesis
    using assms(1) by (auto simp: hears_no_rb_def raps_request_def Let_def split: if_splits)
qed (use assms(2) in auto)

lemma core_reverted:
  assumes "core a = core b"
  shows "ab_reverted a = ab_reverted b" "ab_owner a = ab_owner b" "ab_nbr a = ab_nbr b"
  using core_eqD [OF assms] by (simp_all add: ab_reverted_def)

lemma reverted_step:
  assumes "reverted_ok z s" and "erps_ready z s ev"
  shows "\<exists>t. erps_handle z ev s = Some t \<and> reverted_ok z t"
proof -
  have ok: "sys_ok z s" using assms(1) by (simp add: reverted_ok_def)
  obtain t where t: "erps_handle z ev s = Some t" "sys_ok z t" "sys_step z ev s t"
    using handle_sys_step [OF ok assms(2)] by blast
  have "ab_reverted (ab_of z n t)" if n: "n < nnodes t" "rpl_end z (nodes t n)" for n
  proof -
    let ?a = "ab_of z n s" and ?Q = "\<lambda>b. (ab_owner b = ab_owner (ab_of z n s) \<and>
      ab_nbr b = ab_nbr (ab_of z n s)) \<and> (rpl_end z (nodes s n) \<longrightarrow> ab_reverted b)"
    have ns: "n < nnodes s" using n(1) t(3) by (simp add: sys_step_def)
    then have ts: "table_step (event_requests z s ev n) ?a (ab_of z n t)"
      using t(3) by (simp add: sys_step_def)
    have "?Q (ab_of z n t)"
      using ts
    proof (rule table_step_keeps [where Q = ?Q])
      show "?Q ?a" using assms(1) ns by (simp add: reverted_ok_def)
      show "?Q x = ?Q y" if "core x = core y" for x y
        using core_reverted [OF that] by simp
      fix h p req c assume r: "(h, p, req) \<in> event_requests z s ev n" and c: "core c = core ?a"
      note cr = core_reverted [OF c]
      have "ab_reverted (g8032 h p req c)" if "rpl_end z (nodes s n)"
      proof (rule g8032_reverted)
        show "ab_reverted c" using assms(1) ns that by (simp add: cr reverted_ok_def)
        show "ab_has_rpl c" using that by (auto simp: ab_has_rpl_def cr rpl_end_def ab_of_def)
        have "\<not> (rpl_owner (nodes s n) \<and> rpl_nbr (nodes s n))"
          using sys_okD(3) [OF ok ns] by (auto simp: good_def role_ok_def)
        then show "ab_owner c \<Longrightarrow> req \<noteq> ERPS_REQ_RAPS_NR_RB"
          using that no_rb_request [OF _ r] by (auto simp: cr rpl_end_def ab_of_def)
      qed
      then show "?Q (g8032 h p req c)" by (simp add: cr)
    qed
    moreover from this have "rpl_end z (nodes s n)"
      using n(2) by (simp add: rpl_end_def ab_of_fields(7,8) [where z = z])
    ultimately show ?thesis by blast
  qed
  then show ?thesis using t by (simp add: reverted_ok_def)
qed

interpretation reverted: event_loop "erps_handle z" "erps_ready z" "reverted_ok z" for z
  by unfold_locales (rule reverted_step)

end
