(* ===== verification/Erps_Ring.thy ===== *)
theory Erps_Ring
  imports Erps_Rows Erps_Sim_Recv Erps_Tx
begin

text \<open>
  Two nodes: what leaves the one, and what it does to the other. The PDU composed on a port, and
  a receiver that hears it.
\<close>

declare raps_req_states [simp del]

section \<open>What leaves a node\<close>

lemma fill_wf [simp]: "raps_pdu_wf (erps_raps_fill nd mac pdu)"
  by (simp add: erps_raps_fill_def raps_pdu_wf_def)

lemma fill_decoded [simp]: "raps_pdu_of_bytes (raps_pdu_bytes (erps_raps_fill nd mac pdu)) =
    erps_raps_fill nd mac pdu"
  by (rule pdu.dec_enc) simp

text \<open>The bytes last put into a packet, and the PDU they are when a port composes it.\<close>

fun pkt_data :: "action list \<Rightarrow> pkt \<Rightarrow> u8 list option" where
  "pkt_data [] k = None"
| "pkt_data (PktSetData k' bs r # h) k = (if k' = k then Some bs else pkt_data h k)"
| "pkt_data (a # h) k = pkt_data h k"

definition composed :: "zephyr \<Rightarrow> link_ref \<Rightarrow> pkt \<Rightarrow> sys \<Rightarrow> raps_pdu option" where
  "composed z l k s =
     map_option raps_pdu_of_bytes (pkt_data (hist (snd (erps_raps_create z l k s))) k)"

lemma composed_fill:
  assumes "idx_ok (nodes s n)" and "p < 2" and "net_pkt_get_data z (hist s) k = Some buf"
    and "erps_link_get_node_id z (n, p) s = Inr mac"
  shows "composed z (n, p) k s = Some (erps_raps_fill (nodes s n) mac (raps_pdu_of_bytes buf))"
  using assms(3,4) get_node_eq [OF assms(1,2)]
  by (auto simp: composed_def erps_raps_create_def do_set_data_def do_pkt_write_def Let_def)

lemma bit_flags: "raps_pdu_rb pdu = bit (status (raps_info pdu)) 7"
  "raps_pdu_dnf pdu = bit (status (raps_info pdu)) 6" "raps_pdu_bpr pdu = bit (status (raps_info pdu)) 5"
  by (simp_all only: raps_pdu_rb_def raps_pdu_dnf_def raps_pdu_bpr_def RAPS_RB_def RAPS_DNF_def
      RAPS_BPR_def and_exp_eq_0_iff_not_bit push_bit_of_1 not_not)

lemma composed_good:
  assumes "driver_ok z" and "good z n s" and "q < 2" and "net_pkt_get_data z (hist s) k \<noteq> None"
  shows "\<exists>pdu mac. composed z (n, q) k s = Some pdu \<and> raps_pdu_wf pdu \<and>
    opcode (cfm_hdr pdu) = RAPS_OPCODE \<and>
    raps_pdu_get_req_state pdu = drop_bit 4 (fst (ab_msg (ab_of z n s))) \<and>
    raps_pdu_rb pdu = bit (snd (ab_msg (ab_of z n s))) 7 \<and>
    node_id (raps_info pdu) = mac \<and> erps_link_get_node_id z (n, 0) s = Inr mac"
proof -
  have "absr z n (ab_of z n s) s" using assms(2) by (simp add: absr_def)
  then obtain mac where id: "erps_link_get_node_id z (n, q) s = Inr mac"
    "erps_link_get_node_id z (n, 0) s = Inr mac"
    using absr_node_id [OF assms(1) _ assms(3)] by blast
  obtain buf where "net_pkt_get_data z (hist s) k = Some buf" using assms(4) by blast
  moreover have "idx_ok (nodes s n)" using assms(2) by (simp add: good_def)
  ultimately have "composed z (n, q) k s = Some (erps_raps_fill (nodes s n) mac (raps_pdu_of_bytes buf))"
    using id(1) assms(3) by (intro composed_fill)
  moreover have "bit ((x :: u8) OR 0x20) 7 = bit x 7" for x
    by (simp add: bit_or_iff bit_simps)
  ultimately show ?thesis
    using id(2)
    by (auto simp: bit_flags erps_raps_fill_def raps_pdu_wf_def raps_pdu_get_req_state_def
        raps_info_get_req_state_def ab_of_fields [where z = z] RAPS_RS_SHIFT_def)
qed

section \<open>A receiver\<close>

text \<open>
  The port with interface \<open>i\<close> of the node \<open>n\<close> gets a frame for the node with this PDU in it, in an
  environment that accepts the node's commands.
\<close>

definition hears :: "zephyr \<Rightarrow> net_if option \<Rightarrow> pkt \<Rightarrow> raps_pdu \<Rightarrow> sys \<Rightarrow> nat \<Rightarrow> bool" where
  "hears z i k pdu s n \<longleftrightarrow> driver_ok z \<and> good z n s \<and>
     (\<exists>p. erps_link_lookup_by_iface z i s = Some (n, p)) \<and>
     (\<exists>hdr. carries z k hdr pdu \<and> addressed z s n hdr pdu) \<and>
     (\<forall>h. k_mutex_lock z h n (K_MSEC 250) = 0)"

lemma hears_request:
  assumes "hears z i k pdu s n" and "raps_request (raps_ver (nodes s n)) pdu = Some req"
  obtains higher p xs t where "erps_recv z i k s = Some (NET_OK, t)" "xs = [] \<or> xs = [Flush p]"
    "ab_of z n t = g8032 higher p req (fold exec xs (ab_of z n s))"
proof -
  obtain p hdr where p: "driver_ok z" "good z n s" "erps_link_lookup_by_iface z i s = Some (n, p)"
    "carries z k hdr pdu" "addressed z s n hdr pdu" "\<And>h. k_mutex_lock z h n (K_MSEC 250) = 0"
    using assms(1) unfolding hears_def by blast
  have "absr z n (ab_of z n s) s" using p(2) by (simp add: absr_def)
  from sim_recv [OF p(1) this p(3-5) assms(2) p(6)] show thesis
    using that unfolding absr_def by blast
qed

lemma hears_failure:
  assumes "hears z i k pdu s n" and "raps_pdu_get_req_state pdu = RAPS_SF"
    and "state (nodes s n) = ERPS_STATE_IDLE" and "ERPS_REQ_RAPS_SF \<le> local_topreq (nodes s n)"
    and "\<not> failed (lnk s (n, 0))" and "\<not> failed (lnk s (n, 1))"
  shows "\<exists>t. erps_recv z i k s = Some (NET_OK, t) \<and> state (nodes t n) = ERPS_STATE_PROTECTION \<and>
    \<not> blocked (lnk t (n, 0)) \<and> \<not> blocked (lnk t (n, 1))"
proof -
  have "raps_request (raps_ver (nodes s n)) pdu = Some ERPS_REQ_RAPS_SF"
    using assms(2) by (simp add: raps_request_def raps_req_states)
  then obtain h p xs t where t: "erps_recv z i k s = Some (NET_OK, t)" "xs = [] \<or> xs = [Flush p]"
    "ab_of z n t = g8032 h p ERPS_REQ_RAPS_SF (fold exec xs (ab_of z n s))"
    by (rule hears_request [OF assms(1)])
  note f = table_flush [OF t(2), of "ab_of z n s"]
  note b = table_remote_failure [of "fold exec xs (ab_of z n s)", unfolded f]
  show ?thesis
    using t(1) b [where higher = h and p = p] assms(3-6)
    by (auto simp: ab_of_fields [where z = z] t(3))
qed

lemma hears_idle:
  assumes "hears z i k pdu s n" and "raps_pdu_get_req_state pdu = RAPS_NR" and "raps_pdu_rb pdu"
    and "state (nodes s n) = ERPS_STATE_PENDING"
    and "ERPS_REQ_RAPS_NR_RB \<le> local_topreq (nodes s n)" and "\<not> rpl_owner (nodes s n)"
  shows "\<exists>t. erps_recv z i k s = Some (NET_OK, t) \<and> state (nodes t n) = ERPS_STATE_IDLE \<and>
    \<not> blocked (lnk t (n, 0)) \<and> blocked (lnk t (n, 1)) = rpl_nbr (nodes s n)"
proof -
  have "raps_request (raps_ver (nodes s n)) pdu = Some ERPS_REQ_RAPS_NR_RB"
    using assms(2,3) by (simp add: raps_request_def raps_req_states)
  then obtain h p xs t where t: "erps_recv z i k s = Some (NET_OK, t)" "xs = [] \<or> xs = [Flush p]"
    "ab_of z n t = g8032 h p ERPS_REQ_RAPS_NR_RB (fold exec xs (ab_of z n s))"
    by (rule hears_request [OF assms(1)])
  note f = table_flush [OF t(2), of "ab_of z n s"]
  note b = table_idle_again [of "fold exec xs (ab_of z n s)", unfolded f]
  show ?thesis
    using t(1) b [where higher = h and p = p] assms(4-6)
    by (auto simp: ab_of_fields [where z = z] t(3))
qed

end
