(* ===== verification/Erps_Boot.thy ===== *)
theory Erps_Boot
  imports Erps_Events Erps_Refine
begin

text \<open>
  What start-up establishes. \<open>keeps\<close> is the part of \<open>evolves\<close> that initialisation respects in
  any environment; a node whose \<open>erps_fsm_init\<close> returned 0 has one port open and one blocked,
  in the driver as in its flags; and when the environment accepts every call, \<open>erps_init\<close>
  brings every node into the invariant \<open>ring_ok\<close>.
\<close>

declare raps_req_states [simp del]

section \<open>What initialisation keeps\<close>

definition keeps :: "zephyr \<Rightarrow> nat \<Rightarrow> sys \<Rightarrow> sys \<Rightarrow> bool" where
  "keeps z n s s' \<longleftrightarrow>
     nnodes s' = nnodes s \<and> (\<forall>m. m \<noteq> n \<longrightarrow> nodes s' m = nodes s m) \<and>
     node_cfg (nodes s' n) = node_cfg (nodes s n) \<and>
     (\<exists>h. hist s' = h @ hist s) \<and> (\<forall>m. mutex_held (hist s') m = mutex_held (hist s) m) \<and>
     (topreq_ok (nodes s n) \<longrightarrow> topreq_ok (nodes s' n)) \<and>
     (tx_ok (nodes s n) \<longrightarrow> tx_ok (nodes s' n)) \<and>
     (ifaces_distinct z s \<and> n < nnodes s \<longrightarrow>
       (\<forall>m < nnodes s. m \<noteq> n \<longrightarrow> hw_sync z s m \<longrightarrow> hw_sync z s' m))"

lemma evolves_keeps: "evolves z n s s' \<Longrightarrow> keeps z n s s'"
  by (auto simp: evolves_def keeps_def)

lemma keeps_refl [simp]: "keeps z n s s"
  by (simp add: keeps_def)

lemma keeps_cfg: "keeps z n s s' \<Longrightarrow> node_cfg (nodes s' m) = node_cfg (nodes s m)"
  by (cases "m = n") (auto simp: keeps_def)

lemma keeps_dev: "keeps z n s s' \<Longrightarrow> dev (lnk s' l) = dev (lnk s l)"
  using keeps_cfg [of z n s s' "fst l"] by (auto simp: node_cfg_def lnk_def fun_eq_iff)

lemma keeps_ifaces_distinct: "keeps z n s s' \<Longrightarrow> ifaces_distinct z s' = ifaces_distinct z s"
  by (rule ifaces_distinct_cong) (erule keeps_dev, simp add: keeps_def)

lemma keeps_trans:
  assumes "keeps z n s t" and "keeps z n t u"
  shows "keeps z n s u"
proof -
  have "\<exists>h. hist u = h @ hist s"
    using assms unfolding keeps_def by (metis append.assoc)
  then show ?thesis
    using assms keeps_ifaces_distinct [OF assms(1)] unfolding keeps_def by simp
qed

lemma keeps_idx_ok: "keeps z n s s' \<Longrightarrow> idx_ok (nodes s' m) = idx_ok (nodes s m)"
  using keeps_cfg [THEN node_cfg_idx_ok] by blast

lemma keeps_role_ok: "keeps z n s s' \<Longrightarrow> role_ok (nodes s' m) = role_ok (nodes s m)"
  using keeps_cfg [THEN node_cfg_role_ok] by blast

lemma keeps_emit: "quiet a \<Longrightarrow> keeps z n s (emit a s)"
  by (rule evolves_keeps [OF evolves_emit])

text \<open>Setting the flag of a port, which \<open>erps_link_unblock_force\<close> does.\<close>

lemma keeps_set_blocked: "keeps z n s (upd_link (n, p) (blocked_update (\<lambda>_. b)) s)"
proof -
  have "hw_sync z (upd_link (n, p) (blocked_update (\<lambda>_. b)) s) m = hw_sync z s m" if "m \<noteq> n" for m
    using that by (simp add: hw_sync_def)
  then show ?thesis
    by (auto simp: keeps_def nodes_upd_link node_cfg_def topreq_ok_def tx_ok_def fun_eq_iff)
qed

lemma keeps_wp:
  assumes "wp m (\<lambda>_. evolves z n t)" and "keeps z n s t"
    and "\<And>r u. m = Some (r, u) \<Longrightarrow> keeps z n s u \<Longrightarrow> evolves z n t u \<Longrightarrow> Q r u"
  shows "wp m Q"
  using assms(1,3) keeps_trans [OF assms(2) evolves_keeps] by (auto simp: wp_iff_Some)

section \<open>Operations that leave the ports alone\<close>

definition same_ports :: "nat \<Rightarrow> sys \<Rightarrow> sys \<Rightarrow> bool" where
  "same_ports n s s' \<longleftrightarrow> (\<forall>p. blocked (lnk s' (n, p)) = blocked (lnk s (n, p))) \<and>
     pdu_mut (nodes s' n) = pdu_mut (nodes s n)"

lemma sched_ports_nodes:
  "erps_node_sched_ports z n is ret s = (r, s') \<Longrightarrow> nodes s' = nodes s"
  by (induction "is" arbitrary: ret s)
    (auto simp: do_reschedule_def Let_def split: if_splits)

lemma sched_tx_ports:
  assumes "raps_req_state_valid rs" and "erps_node_sched_tx z n rs 0 st s = Some (r, s')"
  shows "blocked (lnk s' l) = blocked (lnk s l)"
    and "pdu_mut (nodes s' n) = \<lparr>mut_rs_sc = raps_rs_sc rs 0, mut_status = st\<rparr>"
proof -
  obtain r' where sp: "erps_node_sched_ports z n [0, 1] 0 (sched_prep n (raps_rs_sc rs 0) st s) = (r', s')"
    using assms by (auto simp: sched_tx_eq Let_def split: prod.splits)
  note n = sched_ports_nodes [OF sp]
  show "blocked (lnk s' l) = blocked (lnk s l)"
    unfolding lnk_def n
    by (auto simp: sched_prep_def Let_def nodes_upd_link)
  show "pdu_mut (nodes s' n) = \<lparr>mut_rs_sc = raps_rs_sc rs 0, mut_status = st\<rparr>"
    unfolding n by (simp add: sched_prep_def Let_def nodes_upd_link)
qed

lemma post_locked_Suc: "erps_fsm_post_locked z = erps_fsm_post_locked_fuel (Suc (Suc 0)) z"
  by (simp add: erps_fsm_post_locked_def fun_eq_iff numeral_2_eq_2)

lemma start_wtr_ports:
  assumes "idx_ok (nodes s n)" and "erps_node_start_wtr (erps_fsm_post_locked z) z n s = Some (r, s')"
  shows "same_ports n s s'"
  using assms(2)
  unfolding erps_node_start_wtr_def post_locked_Suc running.start_timer_eq [OF assms(1)]
  by (auto simp: same_ports_def note_running_def Let_def lnk_def split: if_splits)

section \<open>The state machine of a node\<close>

text \<open>One port blocked and the other opened, in the driver as in the flags.\<close>

definition split_at :: "zephyr \<Rightarrow> nat \<Rightarrow> nat \<Rightarrow> sys \<Rightarrow> bool" where
  "split_at z n b s \<longleftrightarrow> blocked (lnk s (n, b)) \<and> \<not> blocked (lnk s (n, 1 - b)) \<and> hw_sync z s n"

lemma unblock_force_ok:
  assumes "idx_ok (nodes s n)" and "p < 2"
    and "erps_link_unblock_force z (n, p) s = Some (0, s')"
  obtains i v where "net_if_lookup_by_dev z (dev (lnk s (n, p))) = Some i"
    and "s' = emit (IfUp v) (unblock_switch n p i (unfail n p
      (upd_link (n, p) (blocked_update (\<lambda>_. True)) s)))"
proof -
  have i: "idx_ok (nodes (upd_link (n, p) (blocked_update (\<lambda>_. True)) s) n)"
    using assms(1) by simp
  from that show ?thesis
    using assms(3) unfolding erps_link_unblock_force_def unblock_eq [OF i assms(2)]
    by (auto simp: Let_def split: option.splits if_splits)
qed

lemma block_ok:
  assumes "idx_ok (nodes s n)" and "p < 2" and "\<not> blocked (lnk s (n, p))"
    and "erps_link_block z (n, p) s = Some (0, s')"
  obtains i v where "net_if_lookup_by_dev z (dev (lnk s (n, p))) = Some i"
    and "s' = emit (IfDown v) (block_switch n p i s)"
  using assms(3,4) that unfolding block_eq [OF assms(1,2)]
  by (auto simp: Let_def split: option.splits if_splits)

lemma split_at_init:
  assumes idx: "idx_ok (nodes s n)" and b: "b < 2" and "\<not> blocked (lnk s (n, b))"
    and distinct: "ifaces_distinct z s" "n < nnodes s"
    and "erps_link_block z (n, b) s = Some (0, t)"
    and "erps_link_unblock_force z (n, 1 - b) t = Some (0, u)"
  shows "split_at z n b u"
proof -
  obtain i v where i: "net_if_lookup_by_dev z (dev (lnk s (n, b))) = Some i"
    and t: "t = emit (IfDown v) (block_switch n b i s)"
    using block_ok [OF idx b assms(3,6)] .
  have q: "1 - b < 2" by simp
  have idx': "idx_ok (nodes t n)"
    using idx by (simp add: t block_switch_def erps_link_delete_node_id_bpr_def)
  obtain j w where j: "net_if_lookup_by_dev z (dev (lnk t (n, 1 - b))) = Some j"
    and u: "u = emit (IfUp w) (unblock_switch n (1 - b) j (unfail n (1 - b)
      (upd_link (n, 1 - b) (blocked_update (\<lambda>_. True)) t)))"
    using unblock_force_ok [OF idx' q assms(7)] .
  have j': "net_if_lookup_by_dev z (dev (lnk s (n, 1 - b))) = Some j"
    using j by (simp add: t block_switch_def erps_link_delete_node_id_bpr_def split: if_splits)
  have "i \<noteq> j"
    using ifaces_distinctD [OF distinct(1,2) b distinct(2) q i] j' b by (cases b) auto
  moreover have "b \<noteq> 1 - b" by arith
  ultimately have u_facts: "port_enabled (hist u) i = Some False" "port_enabled (hist u) j = Some True"
    "blocked (lnk u (n, b))" "\<not> blocked (lnk u (n, 1 - b))"
    "\<And>l. dev (lnk u l) = dev (lnk s l)"
    by (simp_all add: u t unblock_switch_def unfail_def block_switch_def
        erps_link_delete_node_id_bpr_def)
  have "p = b \<or> p = 1 - b" if "p < 2" for p
    using b that by auto
  then have "hw_sync z u n"
    unfolding hw_sync_def using u_facts i j' by (metis option.inject)
  then show ?thesis
    using u_facts by (simp add: split_at_def)
qed

text \<open>What follows the switch of the ports does not undo it.\<close>

lemma split_at_evolves:
  assumes "split_at z n b s" and "evolves z n s t" and "ifaces_distinct z s" and "n < nnodes s"
    and "\<And>p. blocked (lnk t (n, p)) = blocked (lnk s (n, p))"
  shows "split_at z n b t"
  using assms by (auto simp: split_at_def evolves_def)

definition announces :: "nat \<Rightarrow> u8 \<Rightarrow> u8 \<Rightarrow> sys \<Rightarrow> bool" where
  "announces n rs st s \<longleftrightarrow> pdu_mut (nodes s n) = \<lparr>mut_rs_sc = rs, mut_status = st\<rparr>"

lemma keeps_unblock_force:
  assumes "keeps z n s0 s" and "idx_ok (nodes s n)" and "p < 2"
    and "\<And>r t. erps_link_unblock_force z (n, p) s = Some (r, t) \<Longrightarrow> keeps z n s0 t \<Longrightarrow> Q r t"
  shows "wp (erps_link_unblock_force z (n, p) s) Q"
  unfolding erps_link_unblock_force_def
proof (rule keeps_wp [OF evolves_unblock])
  show "keeps z n s0 (upd_link (n, p) (blocked_update (\<lambda>_. True)) s)"
    using assms(1) keeps_set_blocked by (rule keeps_trans)
  show "Q r u" if "erps_link_unblock z (n, p) (upd_link (n, p) (blocked_update (\<lambda>_. True)) s) =
      Some (r, u)" "keeps z n s0 u" for r u
    using assms(4) that by (simp add: erps_link_unblock_force_def)
qed (use assms(2,3) in simp_all)

text \<open>The common part of the three branches of \<open>erps_fsm_init\<close>: which port is blocked differs.\<close>

definition init_ports :: "zephyr \<Rightarrow> nat \<Rightarrow> nat \<Rightarrow> sys \<Rightarrow> (int \<times> sys) option" where
  "init_ports z n b s = do {
     (ret, s) \<leftarrow> erps_link_block z (n, b) s;
     (ret, s) \<leftarrow> on_ok ret s (erps_link_unblock_force z (n, 1 - b));
     on_ok ret s (erps_node_sched_tx z n RAPS_NR 0 0)
   }"

lemma wp_init_ports:
  assumes idx: "idx_ok (nodes s n)" and b: "b < 2" and nb: "\<not> blocked (lnk s (n, b))"
  shows "wp (init_ports z n b s) (\<lambda>r t. keeps z n s t \<and>
    (r = 0 \<and> ifaces_distinct z s \<and> n < nnodes s \<longrightarrow> split_at z n b t \<and> announces n 0 0 t))"
  unfolding init_ports_def wp_bind prod.case
proof (rule keeps_wp [OF evolves_block [OF idx b] keeps_refl])
  fix r1 t1 assume 1: "erps_link_block z (n, b) s = Some (r1, t1)" "keeps z n s t1"
  have idx1: "idx_ok (nodes t1 n)"
    using keeps_idx_ok [OF 1(2)] idx by simp
  let ?Q = "\<lambda>r t. keeps z n s t \<and> (r = 0 \<and> ifaces_distinct z s \<and> n < nnodes s \<longrightarrow>
    split_at z n b t \<and> announces n 0 0 t)"
  show "wp (on_ok r1 t1 (erps_link_unblock_force z (n, 1 - b)))
      (\<lambda>r s. wp (on_ok r s (erps_node_sched_tx z n RAPS_NR 0 0)) ?Q)"
  proof (cases "r1 = 0")
    case False
    then show ?thesis using 1(2) by simp
  next
    case True
    have "wp (erps_link_unblock_force z (n, 1 - b) t1)
      (\<lambda>r s. wp (on_ok r s (erps_node_sched_tx z n RAPS_NR 0 0)) ?Q)"
    proof (rule keeps_unblock_force [OF 1(2) idx1])
      fix r2 t2 assume 2: "erps_link_unblock_force z (n, 1 - b) t1 = Some (r2, t2)" "keeps z n s t2"
      show "wp (on_ok r2 t2 (erps_node_sched_tx z n RAPS_NR 0 0)) ?Q"
      proof (cases "r2 = 0")
        case False
        then show ?thesis using 2(2) by simp
      next
        case True
        have sp: "split_at z n b t2" if "ifaces_distinct z s" "n < nnodes s"
          using split_at_init [OF idx b nb that] 1(1) 2(1) \<open>r1 = 0\<close> True by simp
        have "wp (erps_node_sched_tx z n RAPS_NR 0 0 t2) ?Q"
        proof (rule keeps_wp [OF evolves_sched_tx 2(2)])
          fix r3 t3 assume 3: "erps_node_sched_tx z n RAPS_NR 0 0 t2 = Some (r3, t3)"
            "keeps z n s t3" "evolves z n t2 t3"
          have "raps_req_state_valid RAPS_NR" by (simp add: raps_req_state_valid_def)
          note p = sched_tx_ports [OF this 3(1)]
          have "split_at z n b t3" if "ifaces_distinct z s" "n < nnodes s"
            using split_at_evolves [OF sp [OF that] 3(3)] p(1) that
              keeps_ifaces_distinct [OF 2(2)] 2(2) by (simp add: keeps_def)
          moreover have "announces n 0 0 t3"
            using p(2) by (simp add: announces_def raps_rs_sc_def RAPS_NR_def)
          ultimately show "?Q r3 t3" using 3(2) by simp
        qed
        then show ?thesis using True by simp
      qed
    qed simp
    then show ?thesis using True by simp
  qed
qed

text \<open>The port a node starts with blocked: the RPL, or port 0 of a node that has none.\<close>

definition boot_port :: "erps_node \<Rightarrow> nat" where
  "boot_port nd = (if rpl_owner nd \<or> rpl_nbr nd then 1 else 0)"

lemma boot_port_less [simp]: "boot_port nd < 2"
  by (simp add: boot_port_def)

definition stop_guard :: "zephyr \<Rightarrow> nat \<Rightarrow> sys \<Rightarrow> sys" where
  "stop_guard z n s = upd_node n (\<lambda>nd. nd\<lparr>guard_timer_expiry := sys_timepoint_calc z (hist s) K_NO_WAIT\<rparr>)
     (emit (TimepointCalc K_NO_WAIT) s)"

lemma fsm_init_eq:
  assumes "role_ok (nodes s n)" and "own = rpl_owner (nodes s n)"
  shows "erps_fsm_init z n s = do {
     (ret, s) \<leftarrow> init_ports z n (boot_port (nodes s n)) (stop_guard z n s);
     (ret, s) \<leftarrow> (if ret = 0 \<and> own \<and> erps_node_is_revertive s n
                 then erps_node_start_wtr (erps_fsm_post_locked z) z n s else Some (ret, s));
     Some (ret, erps_fsm_transition n ERPS_STATE_PENDING s)
   }"
  using assms
  by (auto simp: erps_fsm_init_def init_ports_def stop_guard_def do_timepoint_calc_def
      erps_node_get_rpl_def role_ok_def boot_port_def erps_node_is_rpl_owner_def
      erps_node_is_rpl_nbr_def erps_node_is_revertive_def Let_def case_prod_unfold
      simp del: erps_node_sched_ports.simps)

lemma evolves_stop_guard: "evolves z n s (stop_guard z n s)"
  unfolding stop_guard_def
  by (rule evolves_trans [OF evolves_emit evolves_upd_node])
    (auto simp: node_cfg_def topreq_ok_def tx_ok_def started_def)

lemma wp_fsm_init:
  assumes idx: "idx_ok (nodes s n)" and role: "role_ok (nodes s n)"
    and nb: "\<not> blocked (lnk s (n, boot_port (nodes s n)))"
  shows "wp (erps_fsm_init z n s) (\<lambda>r t. keeps z n s t \<and> state (nodes t n) = ERPS_STATE_PENDING \<and>
    (r = 0 \<and> ifaces_distinct z s \<and> n < nnodes s \<longrightarrow>
      split_at z n (boot_port (nodes s n)) t \<and> announces n 0 0 t))"
proof -
  define b where "b = boot_port (nodes s n)"
  define J where "J r t \<longleftrightarrow> keeps z n s t \<and>
    (r = (0 :: int) \<and> ifaces_distinct z s \<and> n < nnodes s \<longrightarrow> split_at z n b t \<and> announces n 0 0 t)"
    for r t
  have step: "J r u" if "J r t" "evolves z n t u"
    "\<And>p. blocked (lnk u (n, p)) = blocked (lnk t (n, p))" "pdu_mut (nodes u n) = pdu_mut (nodes t n)"
    for r t u
    using that split_at_evolves [OF _ that(2) _ _ that(3), of b]
      keeps_trans [OF _ evolves_keeps [OF that(2)], of s]
      keeps_ifaces_distinct [of z n s t] by (auto simp: J_def announces_def keeps_def [of z n s t])
  have fin: "J r (erps_fsm_transition n ERPS_STATE_PENDING t)" if "J r t" for r t
    by (rule step [OF that evolves_transition]) (simp_all add: erps_fsm_transition_def lnk_def)
  have go: "state (nodes (erps_fsm_transition n ERPS_STATE_PENDING t) n) = ERPS_STATE_PENDING" for t
    by (simp add: erps_fsm_transition_def)
  have weak: "J r t" if "J 0 t" for r t
    using that by (simp add: J_def)
  have wtr: "wp (erps_node_start_wtr (erps_fsm_post_locked z) z n t) J" if "J 0 t" for t
  proof -
    have i: "idx_ok (nodes t n)" and ro: "role_ok (nodes t n)"
      using that keeps_idx_ok [of z n s t] keeps_role_ok [of z n s t] idx role
      by (auto simp: J_def)
    have "wp (erps_node_start_wtr (erps_fsm_post_locked z) z n t) (\<lambda>_. stable z n t)"
      unfolding post_locked_Suc by (rule running.wp_start_wtr [OF stable_refl [OF i ro]])
    then show ?thesis
      using start_wtr_ports [OF i] weak [OF that] unfolding wp_iff_Some same_ports_def
      by (metis step stable_evolves)
  qed
  have "wp (init_ports z n b (stop_guard z n s)) J"
  proof -
    have k: "keeps z n s (stop_guard z n s)"
      by (rule evolves_keeps [OF evolves_stop_guard])
    have "idx_ok (nodes (stop_guard z n s) n)" "b < 2"
      using keeps_idx_ok [OF k] idx by (simp_all add: b_def)
    moreover have "\<not> blocked (lnk (stop_guard z n s) (n, b))"
      using nb by (simp add: stop_guard_def lnk_def b_def)
    ultimately show ?thesis
      by (rule wp_mono [OF wp_init_ports])
        (use keeps_ifaces_distinct [OF k] keeps_trans [OF k] k in
          \<open>auto simp: J_def keeps_def [of z n s "stop_guard z n s"]\<close>)
  qed
  then have "wp (erps_fsm_init z n s) (\<lambda>r t. J r t \<and> state (nodes t n) = ERPS_STATE_PENDING)"
    unfolding fsm_init_eq [OF role refl] wp_bind prod.case b_def [symmetric]
    by (rule wp_mono) (auto simp: go intro: fin wp_mono [OF wtr])
  then show ?thesis
    by (rule wp_mono) (simp add: J_def b_def)
qed

section \<open>A node\<close>

lemma only_calls_keeps: "only_calls s t \<Longrightarrow> keeps z n s t"
  using evolves_keeps [OF only_calls_evolves] .

lemma only_calls_link_init: "only_calls s (snd (erps_link_init z l s))"
proof -
  have vlan: "only_calls s (snd (erps_link_configure_vlan z l t))" if "only_calls s t" for t
    using that by (auto simp: erps_link_configure_vlan_def do_vlan_enable_def Let_def
        intro!: only_calls_emit split: option.split)
  have timer: "only_calls s (snd (erps_start_link_down_timer z l t))" if "only_calls s t" for t
    using that by (simp add: erps_start_link_down_timer_def do_reschedule_def Let_def
        only_calls_emit)
  show ?thesis
    unfolding erps_link_init_def
    by (rule only_calls_branch only_calls_let2 vlan timer only_calls_refl only_calls_let1
          only_calls_emit | assumption | simp)+
qed

lemma only_calls_initial_tx: "only_calls s (snd (erps_node_initial_tx z n is ret s))"
proof (induction "is" arbitrary: ret s)
  case (Cons i "is")
  have "only_calls s (snd (erps_node_initial_tx z n is r (emit (WorkReschedule w t x) s)))" for r w t x
    by (rule only_calls_trans [OF only_calls_emit Cons.IH]) simp_all
  then show ?case
    using Cons.IH by (simp add: do_reschedule_def Let_def split: option.split)
qed simp

definition prep_node :: "nat \<Rightarrow> sys \<Rightarrow> sys" where
  "prep_node n s = upd_node n (\<lambda>nd. nd\<lparr>local_topreq := ERPS_REQ_INVALID\<rparr>)
     (emit (WorkInit (WtbWork n)) (emit (WorkInit (WtrWork n)) s))"

lemma evolves_prep: "evolves z n s (prep_node n s)"
proof -
  have up: "evolves z n t (upd_node n (\<lambda>nd. nd\<lparr>local_topreq := ERPS_REQ_INVALID\<rparr>) t)" for t
    by (rule evolves_topreq) simp
  show ?thesis
    unfolding prep_node_def
    by (rule evolves_trans [OF evolves_then_emit [OF evolves_emit] up]) simp_all
qed

text \<open>The state in which the links have been initialised.\<close>

definition ready_links :: "nat \<Rightarrow> sys \<Rightarrow> sys \<Rightarrow> bool" where
  "ready_links n s t \<longleftrightarrow> only_calls (prep_node n s) t"

lemma wp_links:
  assumes "ready_links n s t"
  shows "wp (for_ok [0, 1] ret (\<lambda>i s. Some (erps_link_init z (n, i) s)) t) (\<lambda>_. ready_links n s)"
  using assms only_calls_trans only_calls_link_init
  by (intro wp_for_ok) (auto simp: ready_links_def wp_Some_pair)

lemma ready_linksD:
  assumes "ready_links n s t"
  shows "keeps z n s t" "topreq_ok (nodes t n)" "local_topreq (nodes t n) = ERPS_REQ_INVALID"
    "blocked (lnk t l) = blocked (lnk s l)" "rpl_owner (nodes t n) = rpl_owner (nodes s n)"
    "rpl_nbr (nodes t n) = rpl_nbr (nodes s n)" "failed (lnk t l) = failed (lnk s l)"
proof -
  show "keeps z n s t"
    using assms keeps_trans [OF evolves_keeps [OF evolves_prep] only_calls_keeps]
    by (simp add: ready_links_def)
  have "nodes t = nodes (prep_node n s)"
    using assms by (simp add: ready_links_def only_calls_def)
  then show "topreq_ok (nodes t n)" "local_topreq (nodes t n) = ERPS_REQ_INVALID"
    "blocked (lnk t l) = blocked (lnk s l)"
    "rpl_owner (nodes t n) = rpl_owner (nodes s n)" "rpl_nbr (nodes t n) = rpl_nbr (nodes s n)"
    "failed (lnk t l) = failed (lnk s l)"
    by (auto simp: prep_node_def topreq_ok_def lnk_def)
qed

lemma node_init_eq:
  "erps_node_init z n s = do {
     (ret, t) \<leftarrow> for_ok [0, 1] (k_mutex_init z (hist (prep_node n s)) n)
       (\<lambda>i s. Some (erps_link_init z (n, i) s))
       (emit (MutexInit n (k_mutex_init z (hist (prep_node n s)) n)) (prep_node n s));
     if ret \<noteq> 0 then Some (ret, t)
     else do {
       (ret, u) \<leftarrow> erps_fsm_init z n t;
       if ret \<noteq> 0 then Some (ret, u)
       else Some (erps_node_initial_tx z n [0, 1] ret (emit (MgmtAdd n) (emit (MgmtInit n) u)))
     }
   }"
  unfolding erps_node_init_def prep_node_def Let_def do_mutex_init_def prod.case by (rule refl)

lemma ready_links_start:
  "ready_links n s (emit (MutexInit n r) (prep_node n s))"
  unfolding ready_links_def by (rule only_calls_emit) simp_all

lemma wp_node_init:
  assumes "idx_ok (nodes s n)" and "role_ok (nodes s n)" and "\<And>p. \<not> blocked (lnk s (n, p))"
  shows "wp (erps_node_init z n s) (\<lambda>_. keeps z n s)"
proof -
  have fsm: "wp (erps_fsm_init z n t) (\<lambda>_. keeps z n s)" if "ready_links n s t" for t
  proof (rule wp_mono [OF wp_fsm_init])
    note k = ready_linksD(1) [OF that, of z]
    show "idx_ok (nodes t n)" "role_ok (nodes t n)"
      using assms(1,2) keeps_idx_ok [OF k] keeps_role_ok [OF k] by simp_all
    show "\<not> blocked (lnk t (n, boot_port (nodes t n)))"
      using assms(3) ready_linksD(4) [OF that] by simp
    show "keeps z n s u" if "keeps z n t u \<and> X \<and> Y" for u X Y
      using keeps_trans [OF k] that by blast
  qed
  have fin: "keeps z n s (snd (erps_node_initial_tx z n is r (emit (MgmtAdd n) (emit (MgmtInit n) t))))"
    if "keeps z n s t" for r t "is"
    by (rule keeps_trans [OF that], rule only_calls_keeps,
        rule only_calls_trans [OF _ only_calls_initial_tx]) (simp add: only_calls_emit)
  show ?thesis
    unfolding node_init_eq wp_bind prod.case
    by (rule wp_mono [OF wp_links [OF ready_links_start]])
      (auto simp del: erps_node_initial_tx.simps simp: wp_Some_pair ready_linksD(1)
        intro!: fin wp_mono [OF fsm])
qed

section \<open>An environment that accepts every call\<close>

definition env_accepts :: "zephyr \<Rightarrow> bool" where
  "env_accepts z \<longleftrightarrow> driver_ok z \<and> (\<forall>h n. k_mutex_init z h n = 0) \<and>
     (\<forall>h i v. net_eth_vlan_enable z h i v = 0)"

lemma good_evolves_ex:
  assumes "good z n s"
  shows "\<exists>a. absr z n a s"
  using assms by (simp add: absr_def)

lemma good_keeps: "good z n s \<Longrightarrow> keeps z n s t \<Longrightarrow> good z n t"
  by (simp add: good_def keeps_idx_ok keeps_role_ok keeps_dev)

text \<open>
  A node on its way up: no local request is in effect but, at the owner, a running WTR timer, and
  no port counts as failed.
\<close>

definition boot_top :: "bool \<Rightarrow> erps_request \<Rightarrow> bool" where
  "boot_top own req \<longleftrightarrow> req = ERPS_REQ_INVALID \<or> own \<and> req = ERPS_REQ_WTR_RUNNING"

definition intact :: "sys \<Rightarrow> nat \<Rightarrow> bool" where
  "intact s n \<longleftrightarrow> (\<forall>p. \<not> failed (lnk s (n, p)))"

definition starting :: "zephyr \<Rightarrow> nat \<Rightarrow> bool \<Rightarrow> sys \<Rightarrow> bool" where
  "starting z n own s \<longleftrightarrow> good z n s \<and> rpl_owner (nodes s n) = own \<and>
     boot_top own (local_topreq (nodes s n)) \<and> intact s n"

lemma starting_absr:
  "starting z n own s \<Longrightarrow> \<exists>a. absr z n a s \<and> ab_owner a = own \<and> boot_top own (ab_top a) \<and>
    (\<forall>p. \<not> ab_failed a p)"
  by (auto simp: starting_def intact_def absr_def ab_of_def)

lemma returns_0:
  assumes "\<And>Q. (\<And>s'. absr z n b s' \<Longrightarrow> Q 0 s') \<Longrightarrow> wp m Q"
    and "ab_owner b = own" and "boot_top own (ab_top b)" and "\<And>p. \<not> ab_failed b p"
  shows "wp m (\<lambda>r t. r = 0 \<and> starting z n own t)"
  using assms(2-4) by (intro assms(1)) (auto simp: starting_def intact_def absr_def ab_of_def)

lemma starting_set_blocked:
  "starting z n own s \<Longrightarrow> starting z n own (upd_link (n, p) (blocked_update (\<lambda>_. True)) s)"
  using good_keeps [OF _ keeps_set_blocked] by (auto simp: starting_def intact_def upd_link_def upd_node_def lnk_def)

lemma sim_unblock_force:
  assumes "driver_ok z" and "starting z n own s" and "p < 2"
  shows "wp (erps_link_unblock_force z (n, p) s) (\<lambda>r t. r = 0 \<and> starting z n own t)"
proof -
  obtain a where a: "absr z n a (upd_link (n, p) (blocked_update (\<lambda>_. True)) s)"
    "ab_owner a = own" "boot_top own (ab_top a)" "\<And>q. \<not> ab_failed a q"
    using starting_absr [OF starting_set_blocked [OF assms(2)]] by blast
  have "ab_top (ab_unblock p a) = ab_top a"
    by (simp add: ab_unblock_def say_def Let_def)
  then show ?thesis
    unfolding erps_link_unblock_force_def
    using sim_unblock [OF assms(1) a(1) assms(3)] a(2-4)
    by (intro returns_0 [where b = "ab_unblock p a"]) auto
qed

lemma sim_init_ports:
  assumes "driver_ok z" and "starting z n own s" and "b < 2"
  shows "wp (init_ports z n b s) (\<lambda>r t. r = 0 \<and> starting z n own t)"
proof -
  have blk: "wp (erps_link_block z (n, b) t) (\<lambda>r t. r = 0 \<and> starting z n own t)" if st: "starting z n own t" for t
  proof -
    obtain a where a: "absr z n a t" "ab_owner a = own" "boot_top own (ab_top a)" "\<And>q. \<not> ab_failed a q"
      using starting_absr [OF st] by blast
    moreover have "ab_top (ab_block b a) = ab_top a" by (simp add: ab_block_def say_def)
    ultimately show ?thesis
      using sim_block [OF assms(1) a(1) assms(3)]
      by (intro returns_0 [where b = "ab_block b a"]) auto
  qed
  have tx: "wp (erps_node_sched_tx z n RAPS_NR 0 0 t) (\<lambda>r t. r = 0 \<and> starting z n own t)"
    if st: "starting z n own t" for t
  proof -
    obtain a where a: "absr z n a t" "ab_owner a = own" "boot_top own (ab_top a)" "\<And>q. \<not> ab_failed a q"
      using starting_absr [OF st] by blast
    moreover have "ab_top (exec (Tx RAPS_NR 0) a) = ab_top a"
      "ab_failed (exec (Tx RAPS_NR 0) a) = ab_failed a" by (simp_all add: say_def)
    ultimately show ?thesis
      using sim_sched_tx [OF assms(1) a(1) valid_states(1)]
      by (intro returns_0 [where b = "exec (Tx RAPS_NR 0) a"]) (auto simp del: exec.simps)
  qed
  show ?thesis
    unfolding init_ports_def wp_bind prod.case
    by (rule wp_mono [OF blk [OF assms(2)]])
      (auto intro!: wp_mono [OF sim_unblock_force [OF assms(1)]] tx)
qed

lemma sim_fsm_init:
  assumes "driver_ok z" and "starting z n own s"
  shows "wp (erps_fsm_init z n s) (\<lambda>r t. r = 0 \<and>
    boot_top own (local_topreq (nodes t n)) \<and> intact t n)"
proof -
  have wtr: "wp (erps_node_start_wtr (erps_fsm_post_locked z) z n t) (\<lambda>r t. r = 0 \<and> starting z n own t)"
    if st: "starting z n own t" and own for t
  proof -
    obtain a where a: "absr z n a t" "ab_owner a = own" "boot_top own (ab_top a)" "\<And>q. \<not> ab_failed a q"
      using starting_absr [OF st] by blast
    moreover have "boot_top own (ab_top (exec StartWtr a))"
      using a(3) that(2) by (simp add: ab_start_wtr_def ab_note_def say_def boot_top_def)
    ultimately show ?thesis
      unfolding post_locked_Suc
      by (intro returns_0 [where b = "exec StartWtr a"]) (auto intro: running.sim_start_wtr [OF assms(1) a(1)])
  qed
  have own: "own = rpl_owner (nodes s n)" using assms(2) by (simp add: starting_def)
  have role: "role_ok (nodes s n)" and g: "starting z n own (stop_guard z n s)"
    using assms(2) good_keeps [OF _ evolves_keeps [OF evolves_stop_guard]]
    by (auto simp: starting_def intact_def good_def stop_guard_def lnk_def upd_node_def)
  have top: "local_topreq (nodes (erps_fsm_transition n st t) n) = local_topreq (nodes t n)"
    "intact (erps_fsm_transition n st t) n = intact t n" for st t
    by (simp_all add: erps_fsm_transition_def intact_def lnk_def)
  show ?thesis
    unfolding fsm_init_eq [OF role own] wp_bind prod.case
    by (rule wp_mono [OF sim_init_ports [OF assms(1) g boot_port_less]])
      (auto simp: top starting_def intro!: wp_mono [OF wtr])
qed

lemma link_init_accepts:
  assumes "env_accepts z" and "net_if_lookup_by_dev z (dev (lnk s l)) \<noteq> None"
  shows "fst (erps_link_init z l s) = 0"
proof -
  have "\<not> k_work_reschedule z h w t < 0" "(net_eth_get_vlan_iface z h i v = None) = False"
    "net_eth_vlan_enable z h i v = 0" for h w t i v
    using assms(1) driver_okD(2,4) by (auto simp: env_accepts_def)
  note acc = this
  show ?thesis
    using assms(2)
    by (auto simp: acc erps_link_init_def erps_link_configure_vlan_def do_vlan_enable_def
        erps_start_link_down_timer_def do_reschedule_def Let_def split: option.split)
qed

text \<open>A node before initialisation, and what it is afterwards.\<close>

definition fresh :: "zephyr \<Rightarrow> sys \<Rightarrow> nat \<Rightarrow> bool" where
  "fresh z s n \<longleftrightarrow> good z n s \<and> (\<forall>p. \<not> blocked (lnk s (n, p))) \<and> intact s n \<and>
     tx_ok (nodes s n) \<and> \<not> mutex_held (hist s) n"

definition up :: "zephyr \<Rightarrow> sys \<Rightarrow> nat \<Rightarrow> bool" where
  "up z s n \<longleftrightarrow> node_ok z s n \<and> state (nodes s n) = ERPS_STATE_PENDING \<and>
     split_at z n (boot_port (nodes s n)) s \<and> announces n 0 0 s \<and>
     boot_top (rpl_owner (nodes s n)) (local_topreq (nodes s n)) \<and> intact s n"

lemma fsm_init_up:
  assumes "env_accepts z" and "fresh z s n" and "ifaces_distinct z s" and "n < nnodes s"
    and "ready_links n s t"
  shows "wp (erps_fsm_init z n t) (\<lambda>r u. r = 0 \<and> keeps z n s u \<and> up z u n)"
proof -
  note k = ready_linksD(1) [OF assms(5), of z] and rl = ready_linksD [OF assms(5)]
  have g: "good z n t"
    using assms(2) good_keeps [OF _ k] by (simp add: fresh_def)
  have nb: "\<not> blocked (lnk t (n, boot_port (nodes t n)))"
    using assms(2) rl(4) by (simp add: fresh_def)
  have i: "idx_ok (nodes t n)" "role_ok (nodes t n)"
    using g by (simp_all add: good_def)
  have d: "driver_ok z" using assms(1) by (simp add: env_accepts_def)
  have t: "ifaces_distinct z t" "n < nnodes t" "tx_ok (nodes t n)" "\<not> mutex_held (hist t) n"
    using assms(2-4) k keeps_ifaces_distinct [OF k] by (simp_all add: keeps_def fresh_def)
  have "up z u n" if u: "keeps z n t u" "state (nodes u n) = ERPS_STATE_PENDING"
    "split_at z n (boot_port (nodes t n)) u" "announces n 0 0 u"
    "boot_top (rpl_owner (nodes t n)) (local_topreq (nodes u n))" "intact u n" for u
  proof -
    have "boot_port (nodes u n) = boot_port (nodes t n)" "rpl_owner (nodes u n) = rpl_owner (nodes t n)"
      using keeps_cfg [OF u(1), of n] by (simp_all add: boot_port_def node_cfg_def)
    then show ?thesis
      using u t i rl(2) keeps_idx_ok [OF u(1)] keeps_role_ok [OF u(1)]
      by (simp add: up_def node_ok_def started_def split_at_def keeps_def)
  qed
  moreover have "starting z n (rpl_owner (nodes t n)) t" using g rl(3) ready_linksD(7) [OF assms(5)] assms(2) by (simp add: starting_def boot_top_def fresh_def intact_def)
  ultimately show ?thesis
    by (intro wp_mono [OF wp_conj [OF wp_fsm_init [OF i nb] sim_fsm_init [OF d]]])
      (use t keeps_trans [OF k] in auto)
qed

lemma keeps_up:
  assumes "keeps z n s t" and "m \<noteq> n" and "ifaces_distinct z s" and "n < nnodes s"
    and "m < nnodes s" and "up z s m"
  shows "up z t m"
proof -
  have "nodes t m = nodes s m" "hw_sync z t m" "mutex_held (hist t) m = mutex_held (hist s) m"
    using assms by (auto simp: keeps_def up_def node_ok_def)
  then show ?thesis
    using assms(6) by (simp add: up_def node_ok_def split_at_def announces_def intact_def lnk_def)
qed

lemma evolves_up:
  assumes "only_calls s t" and "up z s n" and "ifaces_distinct z s" and "n < nnodes s"
  shows "up z t n"
proof -
  have "nodes t = nodes s" "hw_sync z t n" "mutex_held (hist t) n = mutex_held (hist s) n"
    using assms only_calls_evolves [OF assms(1), of z n]
    by (auto simp: only_calls_def [of s] evolves_def up_def node_ok_def)
  then show ?thesis
    using assms(2) by (simp add: up_def node_ok_def split_at_def announces_def intact_def lnk_def)
qed

lemma node_init_up:
  assumes "env_accepts z" and "fresh z s n" and "ifaces_distinct z s" and "n < nnodes s"
  shows "wp (erps_node_init z n s) (\<lambda>_ t. keeps z n s t \<and> up z t n)"
proof -
  have links: "wp (for_ok [0, 1] 0 (\<lambda>i s. Some (erps_link_init z (n, i) s)) t)
      (\<lambda>r u. r = 0 \<and> ready_links n s u)" if "ready_links n s t" for t
  proof -
    have "dev (lnk u (n, p)) = dev (lnk s (n, p))" if "ready_links n s u" for u p
      using ready_linksD(1) [OF that] by (rule keeps_dev)
    then have r0: "fst (erps_link_init z (n, p) u) = 0" if "ready_links n s u" "p < 2" for u p
      using that assms(2) by (intro link_init_accepts [OF assms(1)]) (simp add: fresh_def good_def)
    have rl: "ready_links n s (snd (erps_link_init z (n, p) u))" if "ready_links n s u" for u p
      using that only_calls_trans only_calls_link_init by (auto simp: ready_links_def)
    show ?thesis
      using that by (simp add: wp_Some_pair case_prod_unfold r0 rl)
  qed
  have fin: "keeps z n s u \<and> up z u n" if "keeps z n s t" "up z t n"
    "u = snd (erps_node_initial_tx z n is r (emit (MgmtAdd n) (emit (MgmtInit n) t)))" for t u r "is"
  proof -
    have oc: "only_calls t u"
      unfolding that(3) by (rule only_calls_trans [OF _ only_calls_initial_tx]) (simp add: only_calls_emit)
    show ?thesis
      using evolves_up [OF oc that(2)] keeps_trans [OF that(1) only_calls_keeps [OF oc]] assms(3,4)
        that(1) keeps_ifaces_distinct [OF that(1)] by (simp add: keeps_def)
  qed
  have "k_mutex_init z h n = 0" for h
    using assms(1) by (simp add: env_accepts_def)
  then show ?thesis
    unfolding node_init_eq wp_bind prod.case
    by (simp only: , intro wp_mono [OF links [OF ready_links_start]])
      (auto simp del: erps_node_initial_tx.simps simp: wp_Some_pair
        intro!: wp_mono [OF fsm_init_up [OF assms]] dest: fin)
qed

section \<open>All nodes\<close>

lemma fresh_keeps:
  assumes "fresh z s m" and "keeps z n s t" and "m \<noteq> n"
  shows "fresh z t m"
proof -
  have "nodes t m = nodes s m" "mutex_held (hist t) m = mutex_held (hist s) m"
    using assms by (auto simp: keeps_def)
  then show ?thesis
    using assms(1) by (simp add: fresh_def intact_def good_def lnk_def)
qed

lemma init_nodes_up:
  assumes "env_accepts z" and "distinct ns" and "set ns \<subseteq> {..<nnodes s}" and "ifaces_distinct z s"
    and "\<And>n. n \<in> set ns \<Longrightarrow> fresh z s n" and "\<And>n. n < nnodes s \<Longrightarrow> n \<notin> set ns \<Longrightarrow> up z s n"
  shows "\<exists>t. erps_init_nodes z ns s = Some t \<and> nnodes t = nnodes s \<and> ifaces_distinct z t \<and>
    (\<forall>n < nnodes s. up z t n) \<and> (\<forall>n. node_cfg (nodes t n) = node_cfg (nodes s n))"
  using assms(2-)
proof (induction ns arbitrary: s)
  case (Cons n ns)
  then have n: "n < nnodes s" "fresh z s n" by simp_all
  obtain r t where t: "erps_node_init z n s = Some (r, t)" "keeps z n s t" "up z t n"
    using node_init_up [OF assms(1) n(2) Cons.prems(3) n(1)] by (auto simp: wp_iff_Some)
  have nn: "nnodes t = nnodes s" "ifaces_distinct z t"
    using t(2) keeps_ifaces_distinct [OF t(2)] Cons.prems(3) by (simp_all add: keeps_def)
  have "fresh z t m" if "m \<in> set ns" for m
    using fresh_keeps [OF _ t(2)] Cons.prems(1,4) that by auto
  moreover have "up z t m" if "m < nnodes t" "m \<notin> set ns" for m
    using keeps_up [OF t(2) _ Cons.prems(3) n(1)] Cons.prems(5) t(3) that nn by (cases "m = n") auto
  ultimately have "\<exists>u. erps_init_nodes z ns t = Some u \<and> nnodes u = nnodes t \<and>
      ifaces_distinct z u \<and> (\<forall>n < nnodes t. up z u n) \<and>
      (\<forall>n. node_cfg (nodes u n) = node_cfg (nodes t n))"
    using Cons.prems(1,2) nn by (intro Cons.IH) auto
  then show ?case using t(1) nn keeps_cfg [OF t(2)] by auto
qed simp

text \<open>Without that environment the loop still runs to its end.\<close>

lemma init_nodes_total:
  assumes "distinct ns"
    and "\<And>n. n \<in> set ns \<Longrightarrow> idx_ok (nodes s n) \<and> role_ok (nodes s n) \<and> (\<forall>p. \<not> blocked (lnk s (n, p)))"
  shows "\<exists>t. erps_init_nodes z ns s = Some t \<and> nnodes t = nnodes s \<and> (\<exists>h. hist t = h @ hist s)"
  using assms
proof (induction ns arbitrary: s)
  case (Cons n ns)
  obtain r t where t: "erps_node_init z n s = Some (r, t)" "keeps z n s t"
    using wp_node_init [of s n z] Cons.prems(2) [of n] by (auto simp: wp_iff_Some)
  have "nodes t m = nodes s m" if "m \<in> set ns" for m
    using t(2) Cons.prems(1) that by (auto simp: keeps_def)
  then have "idx_ok (nodes t m) \<and> role_ok (nodes t m) \<and> (\<forall>p. \<not> blocked (lnk t (m, p)))"
    if "m \<in> set ns" for m
    using Cons.prems(2) [of m] that by (simp add: lnk_def)
  then have "\<exists>u. erps_init_nodes z ns t = Some u \<and> nnodes u = nnodes t \<and> (\<exists>h. hist u = h @ hist t)"
    using Cons.prems(1) by (intro Cons.IH) auto
  then show ?case
    using t by (auto simp: keeps_def)
qed simp

section \<open>Blocking before starting\<close>

fun is_disable :: "action \<Rightarrow> bool" where
  "is_disable (PortSetEnabled i b r) = (\<not> b)"
| "is_disable a = False"

text \<open>Only ports were switched, and only off.\<close>

definition only_disables :: "sys \<Rightarrow> sys \<Rightarrow> bool" where
  "only_disables s t \<longleftrightarrow> nodes t = nodes s \<and> nnodes t = nnodes s \<and>
     (\<exists>h. hist t = h @ hist s \<and> list_all is_disable h)"

lemma only_disables_refl [simp]: "only_disables s s"
  by (simp add: only_disables_def)

lemma only_disables_trans: "only_disables s t \<Longrightarrow> only_disables t u \<Longrightarrow> only_disables s u"
  by (fastforce simp: only_disables_def)

lemma only_disables_emit: "only_disables s (emit (PortSetEnabled i False r) s)"
  unfolding only_disables_def
  by (intro conjI exI [of _ "[PortSetEnabled i False r]"]) simp_all

lemma disabled_stays:
  assumes "only_disables s t" and "port_enabled (hist s) i = Some False"
  shows "port_enabled (hist t) i = Some False"
proof -
  have "list_all is_disable h \<Longrightarrow> port_enabled g i = Some False \<Longrightarrow>
      port_enabled (h @ g) i = Some False" for h g
  proof (induction h)
    case (Cons a h)
    then show ?case by (cases a) auto
  qed simp
  then show ?thesis using assms by (auto simp: only_disables_def)
qed

definition is_off :: "zephyr \<Rightarrow> link_ref \<Rightarrow> sys \<Rightarrow> bool" where
  "is_off z l s \<longleftrightarrow> (\<exists>i. net_if_lookup_by_dev z (dev (lnk s l)) = Some i \<and>
     port_enabled (hist s) i = Some False)"

lemma is_off_stays: "only_disables s t \<Longrightarrow> is_off z l s \<Longrightarrow> is_off z l t"
  using disabled_stays [of s t] by (auto simp: is_off_def lnk_def only_disables_def [of s t])

lemma block_ports_off:
  "only_disables s (snd (erps_block_ports z n is s)) \<and>
   (fst (erps_block_ports z n is s) = 0 \<longrightarrow>
     (\<forall>i \<in> set is. is_off z (n, i) (snd (erps_block_ports z n is s))))"
proof (induction "is" arbitrary: s)
  case (Cons i "is")
  show ?case
  proof (cases "net_if_lookup_by_dev z (dev (lnk s (n, i)))")
    case (Some iface)
    define r where "r = net_eth_port_set_enabled z (hist s) iface False"
    define t where "t = emit (PortSetEnabled iface False r) s"
    have st: "only_disables s t"
      unfolding t_def by (rule only_disables_emit)
    have eq: "erps_block_ports z n (i # is) s =
        (if r \<noteq> 0 then (r, t) else erps_block_ports z n is t)"
      using Some by (simp add: do_port_set_enabled_def Let_def flip: r_def t_def)
    show ?thesis
    proof (cases "r = 0")
      case True
      then have "is_off z (n, i) t"
        using Some by (simp add: is_off_def t_def)
      then show ?thesis
        using True Cons.IH [of t] only_disables_trans [OF st] is_off_stays [of t]
        by (simp add: eq del: erps_block_ports.simps)
    next
      case False
      then show ?thesis unfolding eq using st by simp
    qed
  qed simp
qed simp

lemma init_block_off:
  "only_disables s (snd (erps_init_block z ns s)) \<and>
   (fst (erps_init_block z ns s) = 0 \<longrightarrow>
     (\<forall>n \<in> set ns. ring_id (nodes s n) \<noteq> ERPS_INVALID_RING \<and>
       (\<forall>p < 2. is_off z (n, p) (snd (erps_init_block z ns s)))))"
proof (induction ns arbitrary: s)
  case (Cons n ns)
  define t where "t = snd (erps_node_block_all z n s)"
  note all = block_ports_off [of s z n "[0, 1]", folded erps_node_block_all_def, folded t_def]
  have st: "only_disables s t"
    using all by blast
  have off: "is_off z (n, p) t" if "fst (erps_node_block_all z n s) = 0" "p < 2" for p
    using all that unfolding less_2_disj by auto
  have same: "nodes t = nodes s" using st by (simp add: only_disables_def)
  define r where "r = fst (erps_node_block_all z n s)"
  have eq: "erps_init_block z (n # ns) s =
      (if ring_id (nodes s n) = ERPS_INVALID_RING then (- EINVAL, s)
       else if r \<noteq> 0 then (r, t) else erps_init_block z ns t)"
    by (simp add: Let_def case_prod_unfold r_def t_def)
  show ?case
  proof (cases "ring_id (nodes s n) = ERPS_INVALID_RING \<or> r \<noteq> 0")
    case True
    then show ?thesis unfolding eq using st by auto
  next
    case False
    define u where "u = snd (erps_init_block z ns t)"
    have eq': "erps_init_block z (n # ns) s = erps_init_block z ns t"
      using False unfolding eq by simp
    have tu: "only_disables t u"
      using Cons.IH [of t] by (simp add: u_def)
    have "is_off z (n, p) u" if "p < 2" for p
      using is_off_stays [OF tu off] False that by (simp add: r_def)
    then show ?thesis
      unfolding eq' u_def [symmetric] using False Cons.IH [of t, folded u_def]
        only_disables_trans [OF st tu] same by auto
  qed
qed simp

section \<open>The system\<close>

lemma node_init_static [simp]:
  "\<not> blocked (ports (ERPS_NODE_INIT d) p)" "\<not> failed (ports (ERPS_NODE_INIT d) p)"
  "tx_ok (ERPS_NODE_INIT d)"
  by (simp_all add: ERPS_NODE_INIT_def ERPS_NODE_LINKS_def ERPS_LINK_INIT_def tx_ok_def)

lemma erps_boot_fresh:
  assumes "\<And>d. d \<in> set ds \<Longrightarrow> erps_node_build_asserts d" and "n < length ds"
  shows "idx_ok (nodes (erps_boot ds) n)" "role_ok (nodes (erps_boot ds) n)"
    "\<not> blocked (lnk (erps_boot ds) (n, p))" "tx_ok (nodes (erps_boot ds) n)"
    "intact (erps_boot ds) n"
  using assms by (simp_all add: erps_boot_def lnk_def intact_def)

text \<open>The two phases of \<open>erps_init\<close>.\<close>

lemma init_phases:
  assumes "b = erps_init_block z [0..<nnodes s] s"
  shows "erps_init z s = (if fst b \<noteq> 0 then Some b
    else map_option (Pair 0) (erps_init_nodes z [0..<nnodes s] (snd b)))"
proof -
  obtain r t where rt: "b = (r, t)" by fastforce
  have n: "nnodes t = nnodes s"
    using init_block_off [of s z "[0..<nnodes s]", folded assms, unfolded rt]
    by (simp add: only_disables_def)
  show ?thesis
    unfolding erps_init_def assms [symmetric] rt Let_def prod.case fst_conv snd_conv n
    by (cases "erps_init_nodes z [0..<nnodes s] t") simp_all
qed

lemma init_total:
  assumes "\<And>n. n < nnodes s \<Longrightarrow>
    idx_ok (nodes s n) \<and> role_ok (nodes s n) \<and> (\<forall>p. \<not> blocked (lnk s (n, p)))"
  obtains t where "only_disables s t"
    and "\<And>n p. n < nnodes s \<Longrightarrow> p < 2 \<Longrightarrow> fst (erps_init_block z [0..<nnodes s] s) = 0 \<Longrightarrow> is_off z (n, p) t"
    and "fst (erps_init_block z [0..<nnodes s] s) \<noteq> 0 \<Longrightarrow>
      erps_init z s = Some (fst (erps_init_block z [0..<nnodes s] s), t)"
    and "fst (erps_init_block z [0..<nnodes s] s) = 0 \<Longrightarrow>
      \<exists>u h. erps_init z s = Some (0, u) \<and> hist u = h @ hist t \<and> nnodes u = nnodes s"
proof -
  define b where "b = erps_init_block z [0..<nnodes s] s"
  note off = init_block_off [of s z "[0..<nnodes s]", folded b_def]
  note eq = init_phases [OF b_def]
  have "nodes (snd b) = nodes s" "nnodes (snd b) = nnodes s"
    using off by (simp_all add: only_disables_def)
  then have "\<exists>u. erps_init_nodes z [0..<nnodes s] (snd b) = Some u \<and> nnodes u = nnodes s \<and>
      (\<exists>h. hist u = h @ hist (snd b))"
    using init_nodes_total [of "[0..<nnodes s]" "snd b" z] assms by (simp add: lnk_def)
  then show ?thesis
    using off by (intro that [of "snd b"]) (auto simp: eq simp flip: b_def)
qed

lemma fresh_only_disables: "fresh z s n \<Longrightarrow> only_disables s t \<Longrightarrow> fresh z t n"
proof -
  have "list_all is_disable h \<Longrightarrow> mutex_held (h @ g) m = mutex_held g m" for h g m
  proof (induction h)
    case (Cons a h)
    then show ?case by (cases a) auto
  qed simp
  then show "fresh z s n \<Longrightarrow> only_disables s t \<Longrightarrow> fresh z t n"
    by (auto simp: fresh_def intact_def good_def lnk_def only_disables_def)
qed

lemma block_ports_accepts:
  assumes "driver_ok z" and "\<And>i. i \<in> set is \<Longrightarrow> net_if_lookup_by_dev z (dev (lnk s (n, i))) \<noteq> None"
  shows "fst (erps_block_ports z n is s) = 0"
  using assms(2)
proof (induction "is" arbitrary: s)
  case (Cons i "is")
  have r: "net_eth_port_set_enabled z h j b = 0" for h j b
    using assms(1) by (rule driver_okD)
  have "fst (erps_block_ports z n is (emit a s)) = 0" for a
    using Cons.prems by (intro Cons.IH) simp
  then show ?case
    using Cons.prems [of i] by (auto simp: do_port_set_enabled_def Let_def r)
qed simp

lemma init_block_accepts:
  assumes "driver_ok z" and "\<And>n. n \<in> set ns \<Longrightarrow> ring_id (nodes s n) \<noteq> ERPS_INVALID_RING \<and>
    (\<forall>p < 2. net_if_lookup_by_dev z (dev (lnk s (n, p))) \<noteq> None)"
  shows "fst (erps_init_block z ns s) = 0"
  using assms(2)
proof (induction ns arbitrary: s)
  case (Cons n ns)
  define t where "t = snd (erps_node_block_all z n s)"
  have "nodes t = nodes s"
    using block_ports_off [of s z n "[0, 1]", folded erps_node_block_all_def]
    by (simp add: t_def only_disables_def)
  then have "fst (erps_init_block z ns t) = 0"
    using Cons.prems by (intro Cons.IH) (simp add: lnk_def)
  moreover have "fst (erps_node_block_all z n s) = 0"
    unfolding erps_node_block_all_def using Cons.prems [of n]
    by (intro block_ports_accepts [OF assms(1)]) auto
  ultimately show ?case
    using Cons.prems [of n] by (simp add: Let_def case_prod_unfold t_def)
qed simp

lemma init_all_up:
  assumes "env_accepts z" and "ifaces_distinct z s" and "\<And>n. n < nnodes s \<Longrightarrow> fresh z s n"
    and "\<And>n. n < nnodes s \<Longrightarrow> ring_id (nodes s n) \<noteq> ERPS_INVALID_RING"
  shows "\<exists>t. erps_init z s = Some (0, t) \<and> nnodes t = nnodes s \<and> ring_ok z t \<and>
    (\<forall>n < nnodes s. up z t n) \<and> (\<forall>n. node_cfg (nodes t n) = node_cfg (nodes s n))"
proof -
  define b where "b = erps_init_block z [0..<nnodes s] s"
  have d: "driver_ok z" using assms(1) by (simp add: env_accepts_def)
  have b0: "fst b = 0"
    unfolding b_def using assms(3,4)
    by (intro init_block_accepts [OF d]) (auto simp: fresh_def good_def)
  have od: "only_disables s (snd b)"
    using init_block_off [of s z "[0..<nnodes s]"] by (simp add: b_def)
  then have n: "nnodes (snd b) = nnodes s" and nd: "nodes (snd b) = nodes s"
    by (simp_all add: only_disables_def)
  then have "ifaces_distinct z (snd b)"
    using assms(2) nd ifaces_distinct_cong [of "snd b" s z] by (simp add: lnk_def)
  then have "\<exists>t. erps_init_nodes z [0..<nnodes s] (snd b) = Some t \<and> nnodes t = nnodes (snd b) \<and>
      ifaces_distinct z t \<and> (\<forall>m < nnodes (snd b). up z t m) \<and>
      (\<forall>n. node_cfg (nodes t n) = node_cfg (nodes (snd b) n))"
    using assms(3) fresh_only_disables [OF _ od] n by (intro init_nodes_up [OF assms(1)]) auto
  then show ?thesis
    using b0 n nd by (auto simp: init_phases [OF b_def] ring_ok_def up_def)
qed

text \<open>From the devicetree.\<close>

lemma build_ring_id:
  assumes "erps_node_build_asserts d" and "dt_ring_id d \<noteq> None"
  shows "ring_id (ERPS_NODE_INIT d) \<noteq> ERPS_INVALID_RING"
proof -
  obtain r where r: "dt_ring_id d = Some r" "1 \<le> r" "r \<le> 239"
    using assms by (auto simp: erps_node_build_asserts_def ERPS_RING_ID_MIN_def ERPS_RING_ID_MAX_def)
  have "(of_int r :: u8) \<noteq> 0xff"
  proof
    assume "(of_int r :: u8) = 0xff"
    then have "uint (of_int r :: u8) = 255" by simp
    moreover have "uint (of_int r :: u8) = r mod 256" by (simp add: unsigned_of_int take_bit_eq_mod)
    ultimately show False using r(2,3) by simp
  qed
  then show ?thesis by (simp add: ERPS_NODE_INIT_def r(1) ERPS_INVALID_RING_def)
qed

lemma boot_up:
  assumes "env_accepts z" and "ifaces_distinct z (erps_boot ds)"
    and "\<And>d. d \<in> set ds \<Longrightarrow> erps_node_build_asserts d \<and> dt_ring_id d \<noteq> None"
    and "\<And>dv. net_if_lookup_by_dev z dv \<noteq> None"
  shows "\<exists>t. erps_init z (erps_boot ds) = Some (0, t) \<and> nnodes t = length ds \<and> ring_ok z t \<and>
    (\<forall>n < length ds. up z t n) \<and> (\<forall>n. node_cfg (nodes t n) = node_cfg (nodes (erps_boot ds) n))"
proof -
  have n: "nnodes (erps_boot ds) = length ds" "hist (erps_boot ds) = []" by (simp_all add: erps_boot_def)
  have "fresh z (erps_boot ds) m" if "m < length ds" for m
    using erps_boot_fresh [of ds m] that assms(3,4) n by (auto simp: fresh_def good_def)
  moreover have "ring_id (nodes (erps_boot ds) m) \<noteq> ERPS_INVALID_RING" if "m < length ds" for m
    using build_ring_id [of "ds ! m"] assms(3) nth_mem [OF that] by (simp add: erps_boot_def)
  ultimately show ?thesis
    using init_all_up [OF assms(1,2)] n by simp
qed

end
