(* ===== verification/Erps_Net.thy ===== *)
theory Erps_Net
  imports Erps_Sim_Sys Erps_Ring Erps_Boot
begin

text \<open>
  A ring of any number of devices, each running the program in an environment of its own, that
  hear of each other only what they transmit. What one of them has put on the air may reach any
  of them at any later time, any number of times, in any order, or not at all.
\<close>

declare raps_req_states [simp del]

section \<open>What a device transmits\<close>

text \<open>The PDUs in the packets that were handed to the network stack.\<close>

fun aired :: "action list \<Rightarrow> raps_pdu list" where
  "aired [] = []"
| "aired (SendData i k v # h) =
     (case pkt_data h k of None \<Rightarrow> aired h | Some bs \<Rightarrow> raps_pdu_of_bytes bs # aired h)"
| "aired (a # h) = aired h"

lemma pkt_data_in: "pkt_data h k = Some bs \<Longrightarrow> \<exists>r. PktSetData k bs r \<in> set h"
  by (induction h k rule: pkt_data.induct) (auto split: if_splits)

lemma aired_in: "pdu \<in> set (aired h) \<Longrightarrow> \<exists>k bs r. PktSetData k bs r \<in> set h \<and> pdu = raps_pdu_of_bytes bs"
proof (induction h rule: aired.induct)
  case (2 i k v h)
  then show ?case using pkt_data_in [of h k] by (auto split: option.splits)
qed auto

text \<open>Every PDU composed is the announcement of the node that composes it.\<close>

definition announced_by :: "zephyr \<Rightarrow> link_ref \<Rightarrow> sys \<Rightarrow> u8 list \<Rightarrow> bool" where
  "announced_by z l s bs \<longleftrightarrow> (\<exists>u mac buf. nodes u = nodes s \<and>
     erps_link_get_node_id z l u = Inr mac \<and>
     bs = raps_pdu_bytes (erps_raps_fill (nodes s (erps_link_get_node s l)) mac buf))"

definition only_announces :: "zephyr \<Rightarrow> link_ref \<Rightarrow> sys \<Rightarrow> sys \<Rightarrow> bool" where
  "only_announces z l s t \<longleftrightarrow> nodes t = nodes s \<and> nnodes t = nnodes s \<and>
     (\<exists>h. hist t = h @ hist s \<and> (\<forall>k bs r. PktSetData k bs r \<in> set h \<longrightarrow> announced_by z l s bs))"

lemma only_announces_refl [simp]: "only_announces z l s s"
  by (simp add: only_announces_def)

lemma only_announces_emit:
  assumes "only_announces z l s t" and "\<And>k bs r. a = PktSetData k bs r \<Longrightarrow> announced_by z l s bs"
  shows "only_announces z l s (emit a t)"
proof -
  obtain h where h: "hist t = h @ hist s"
    "\<And>k bs r. PktSetData k bs r \<in> set h \<Longrightarrow> announced_by z l s bs"
    and nd: "nodes t = nodes s" "nnodes t = nnodes s"
    using assms(1) unfolding only_announces_def by blast
  have "announced_by z l s bs" if "PktSetData k bs r \<in> set (a # h)" for k bs r
    using that h(2) assms(2) by auto
  then show ?thesis
    unfolding only_announces_def using h(1) nd by (intro conjI exI [of _ "a # h"]) auto
qed

lemma only_announces_create:
  assumes "only_announces z l s t"
  shows "only_announces z l s (snd (erps_raps_create z l k t))"
proof -
  have nd: "nodes t = nodes s" "nnodes t = nnodes s" using assms by (simp_all add: only_announces_def)
  then have g: "erps_link_get_node t l = erps_link_get_node s l"
    by (simp add: erps_link_get_node_def lnk_def)
  have ann: "announced_by z l s (raps_pdu_bytes (erps_raps_fill (nodes s (erps_link_get_node s l)) mac buf))"
    if "erps_link_get_node_id z l t = Inr mac" for mac buf
    using that nd unfolding announced_by_def by blast
  show ?thesis
    using assms
    by (auto simp: erps_raps_create_def do_set_data_def do_pkt_write_def Let_def g nd
        intro!: only_announces_emit ann split: option.split sum.split)
qed

lemma only_announces_snds:
  assumes "only_announces z l s t"
  shows "only_announces z l s (snd (do_set_src z k a t))" "only_announces z l s (snd (do_set_dst z k b t))"
    "only_announces z l s (snd (do_send z i k t))" "only_announces z l s (snd (do_pkt_alloc z i len tm t))"
    "only_announces z l s (emit (PktSetProto k c) t)" "only_announces z l s (emit (PktUnref k) t)"
  using assms
  by (auto simp: do_set_src_def do_set_dst_def do_send_def do_pkt_alloc_def Let_def
      intro!: only_announces_emit)

lemma snd_let2:
  "P (snd m) \<Longrightarrow> (\<And>r t. P t \<Longrightarrow> P (snd (f r t))) \<Longrightarrow> P (snd (let (r, t) = m in f r t))"
  by (cases m) simp

lemma snd_let1: "P t \<Longrightarrow> (\<And>t. P t \<Longrightarrow> P (snd (f t))) \<Longrightarrow> P (snd (let t = t in f t))"
  by simp

lemma snd_branch:
  "(b \<Longrightarrow> P (snd x)) \<Longrightarrow> (\<not> b \<Longrightarrow> P (snd y)) \<Longrightarrow> P (snd (if b then x else y))"
  "(b \<Longrightarrow> P t) \<Longrightarrow> (\<not> b \<Longrightarrow> P u) \<Longrightarrow> P (if b then t else u)"
  "P (snd v) \<Longrightarrow> (\<And>k. P (snd (g k))) \<Longrightarrow> P (snd (case ov of None \<Rightarrow> v | Some k \<Rightarrow> g k))"
  "P t \<Longrightarrow> P (snd (r, t))"
  by (simp_all split: option.split)

lemma only_announces_send: "only_announces z l s (snd (erps_link_send_pdu z l i s))"
proof -
  define node where "node = erps_link_get_node s l"
  define size where "size = (if CONFIG_NET_ERPS_PAD_RAPS_PDUS z
    then NET_ETH_MINIMAL_FRAME_SIZE z else sizeof_raps_pdu)"
  show ?thesis
    unfolding erps_link_send_pdu_def node_def [symmetric] size_def [symmetric]
      Let_def [of node] Let_def [of size]
    by (rule snd_branch [where P = "only_announces z l s"] snd_let2 [where P = "only_announces z l s"]
          snd_let1 [where P = "only_announces z l s"] only_announces_snds only_announces_create
          only_announces_refl | assumption | simp)+
qed

lemma only_announces_tx_single: "only_announces z l s (erps_link_tx_single_pdu z l s)"
  by (auto simp: erps_link_tx_single_pdu_def Let_def only_announces_send split: option.split)

text \<open>What is new in a history.\<close>

definition new_hist :: "sys \<Rightarrow> sys \<Rightarrow> action list" where
  "new_hist s t = take (length (hist t) - length (hist s)) (hist t)"

lemma tx_work_new_hist:
  assumes "hist (erps_link_tx_single_pdu z l s) = h @ hist s"
  shows "\<exists>w d x. new_hist s (erps_tx_work z l s) = WorkReschedule w d x # h"
proof -
  obtain w d x where "hist (erps_tx_work z l s) = WorkReschedule w d x # h @ hist s"
    by (auto simp: erps_tx_work_def do_reschedule_def Let_def assms)
  then show ?thesis by (simp add: new_hist_def Suc_diff_le)
qed

lemma tx_work_announces:
  assumes "PktSetData k bs r \<in> set (new_hist s (erps_tx_work z l s))"
  shows "announced_by z l s bs"
proof -
  have "only_announces z l s (erps_link_tx_single_pdu z l s)" by (rule only_announces_tx_single)
  then obtain h where h: "hist (erps_link_tx_single_pdu z l s) = h @ hist s"
    "\<And>k bs r. PktSetData k bs r \<in> set h \<Longrightarrow> announced_by z l s bs"
    unfolding only_announces_def by blast
  show ?thesis using assms h(2) tx_work_new_hist [OF h(1)] by auto
qed

section \<open>Who wins the contest of node identifiers\<close>

lemma memcmp_trans:
  "length xs = length ys \<Longrightarrow> length ys = length zs \<Longrightarrow> memcmp xs ys \<le> 0 \<Longrightarrow> memcmp ys zs \<le> 0 \<Longrightarrow>
    memcmp xs zs \<le> 0"
  by (induction xs ys zs rule: list_induct3) (auto split: if_splits)

abbreviation mac_le :: "net_eth_addr \<Rightarrow> net_eth_addr \<Rightarrow> bool" where
  "mac_le a b \<equiv> memcmp (mac_bytes a) (mac_bytes b) \<le> 0"

lemma mac_le_trans: "mac_le a b \<Longrightarrow> mac_le b c \<Longrightarrow> mac_le a c"
  by (rule memcmp_trans [where ys = "mac_bytes b"]) simp_all

lemma mac_le_total: "mac_le a b \<or> mac_le b a"
  using memcmp_swap [of "mac_bytes a" "mac_bytes b"] by linarith

lemma champion_exists:
  fixes addr :: "nat \<Rightarrow> net_eth_addr"
  assumes "0 < M"
  shows "\<exists>c < M. \<forall>m < M. mac_le (addr m) (addr c)"
  using assms
proof (induction M)
  case (Suc M)
  show ?case
  proof (cases "M = 0")
    case True
    then show ?thesis by auto
  next
    case False
    then obtain c where c: "c < M" "\<And>m. m < M \<Longrightarrow> mac_le (addr m) (addr c)"
      using Suc.IH by auto
    show ?thesis
    proof (cases "mac_le (addr M) (addr c)")
      case True
      then show ?thesis using c by (intro exI [of _ c]) (auto simp: less_Suc_eq)
    next
      case False
      then have "mac_le (addr c) (addr M)" using mac_le_total by blast
      then show ?thesis
        using c mac_le_trans by (intro exI [of _ M]) (auto simp: less_Suc_eq)
    qed
  qed
qed simp

section \<open>Rows of a ring on which nothing fails and nobody switches\<close>

definition peaceful_reqs :: "erps_request set" where
  "peaceful_reqs = {ERPS_REQ_WTR_EXPIRES, ERPS_REQ_WTB_EXPIRES, ERPS_REQ_CLEAR, ERPS_REQ_CLEAR_SF,
     ERPS_REQ_RAPS_NR, ERPS_REQ_RAPS_NR_RB}"

text \<open>
  A node that is neither switched nor protecting; the owner of the RPL that holds it blocked; a
  node that says nothing but NR yet; one that waits with a blocked port.
\<close>

definition calm_node :: "ab \<Rightarrow> bool" where
  "calm_node a \<longleftrightarrow> ab_state a \<in> {ERPS_STATE_PENDING, ERPS_STATE_IDLE} \<and>
     ab_top a \<notin> {ERPS_REQ_FS, ERPS_REQ_MS} \<and> fst (ab_msg a) = 0"

definition guards_rpl :: "ab \<Rightarrow> bool" where
  "guards_rpl a \<longleftrightarrow> ab_owner a \<and> ab_state a = ERPS_STATE_IDLE \<and> ab_blocked a 1"

definition waits :: "ab \<Rightarrow> bool" where
  "waits a \<longleftrightarrow> ab_state a = ERPS_STATE_PENDING \<and> ab_msg a = (0, 0)"

definition splits :: "ab \<Rightarrow> bool" where
  "splits a \<longleftrightarrow> ab_blocked a 0 \<or> ab_blocked a 1"

lemma core_calm:
  assumes "core a = core b"
  shows "calm_node a = calm_node b" "guards_rpl a = guards_rpl b" "waits a = waits b" "splits a = splits b"
  using core_eqD [OF assms] by (simp_all add: calm_node_def guards_rpl_def waits_def splits_def)

lemma peaceful_g8032:
  fixes a :: ab
  assumes "req \<in> peaceful_reqs" and "P a"
    and "\<And>b. b = a\<lparr>ab_top := ERPS_REQ_INVALID\<rparr> \<Longrightarrow> P b"
    and "\<And>b. b = a\<lparr>ab_top := ERPS_REQ_INVALID\<rparr> \<Longrightarrow>
      req \<noteq> ERPS_REQ_CLEAR \<or> ab_top a \<in> {ERPS_REQ_FS, ERPS_REQ_MS} \<or> ab_owner b \<Longrightarrow>
      P (fold exec (row higher p b req) b)"
  shows "P (g8032 higher p req a)"
proof -
  have r: "req \<notin> local_reqs" "req \<noteq> ERPS_REQ_SF"
    using assms(1) by (auto simp: peaceful_reqs_def local_reqs_def)
  show ?thesis
  proof (cases "admit req a")
    case None
    then show ?thesis using assms(2) by (simp add: g8032_def)
  next
    case (Some c)
    then have c: "c = a\<lparr>ab_top := ERPS_REQ_INVALID\<rparr>"
      "req \<noteq> ERPS_REQ_CLEAR \<or> ab_top a \<in> {ERPS_REQ_FS, ERPS_REQ_MS} \<or> ab_owner c"
      using r(1) by (auto simp: admit_def split: if_splits)
    then show ?thesis
      using assms(3) [OF c(1)] assms(4) [OF c] r(2) unfolding g8032_def Some Let_def by simp
  qed
qed

lemmas peaceful_defs = row_def row_idle_def row_pending_def stop_timers_def block_rpl_def follow_def
  follow_all_def ab_msg_simps rs_sc_values ab_has_rpl_def

lemma peaceful_calm:
  assumes "calm_node a" and "req \<in> peaceful_reqs"
  shows "calm_node (g8032 higher p req a)"
proof (rule peaceful_g8032 [where P = calm_node, OF assms(2,1)])
  fix b assume "b = a\<lparr>ab_top := ERPS_REQ_INVALID\<rparr>"
  then show b: "calm_node b" using assms(1) by (simp add: calm_node_def)
  then show "calm_node (fold exec (row higher p b req) b)"
    using assms(2) unfolding peaceful_reqs_def
    by (cases "ab_state b"; cases req; simp add: calm_node_def peaceful_defs)
qed

lemma peaceful_guards:
  assumes "guards_rpl a" and "req \<in> peaceful_reqs"
  shows "guards_rpl (g8032 higher p req a)"
proof (rule peaceful_g8032 [where P = guards_rpl, OF assms(2,1)])
  fix b assume "b = a\<lparr>ab_top := ERPS_REQ_INVALID\<rparr>"
  then show b: "guards_rpl b" using assms(1) by (simp add: guards_rpl_def)
  then show "guards_rpl (fold exec (row higher p b req) b)"
    using assms(2) unfolding peaceful_reqs_def
    by (cases req; simp add: guards_rpl_def peaceful_defs)
qed

lemma peaceful_waits:
  assumes "waits a" and "calm_node a" and "req \<in> peaceful_reqs" and "req \<noteq> ERPS_REQ_RAPS_NR_RB"
  shows "waits (g8032 higher p req a) \<or> guards_rpl (g8032 higher p req a)"
proof (rule peaceful_g8032 [where P = "\<lambda>b. waits b \<or> guards_rpl b", OF assms(3)])
  fix b assume b: "b = a\<lparr>ab_top := ERPS_REQ_INVALID\<rparr>"
  then show w: "waits b \<or> guards_rpl b" using assms(1) by (simp add: waits_def)
  assume "req \<noteq> ERPS_REQ_CLEAR \<or> ab_top a \<in> {ERPS_REQ_FS, ERPS_REQ_MS} \<or> ab_owner b"
  then have "req \<noteq> ERPS_REQ_CLEAR \<or> ab_owner b"
    using assms(2) by (auto simp: calm_node_def)
  moreover have "waits b" using assms(1) b by (simp add: waits_def)
  ultimately show "waits (fold exec (row higher p b req) b) \<or> guards_rpl (fold exec (row higher p b req) b)"
    using assms(3,4) unfolding peaceful_reqs_def
    by (cases req; simp add: waits_def guards_rpl_def peaceful_defs)
qed (simp add: assms(1))

lemma peaceful_splits:
  assumes "waits a" and "calm_node a" and "splits a" and "req \<in> peaceful_reqs"
    and "req \<noteq> ERPS_REQ_RAPS_NR_RB" and "req = ERPS_REQ_RAPS_NR \<Longrightarrow> \<not> higher"
  shows "splits (g8032 higher p req a) \<or> guards_rpl (g8032 higher p req a)"
proof (rule peaceful_g8032 [where P = "\<lambda>b. splits b \<or> guards_rpl b", OF assms(4)])
  fix b assume b: "b = a\<lparr>ab_top := ERPS_REQ_INVALID\<rparr>"
  then show w: "splits b \<or> guards_rpl b" using assms(3) by (simp add: splits_def)
  assume "req \<noteq> ERPS_REQ_CLEAR \<or> ab_top a \<in> {ERPS_REQ_FS, ERPS_REQ_MS} \<or> ab_owner b"
  then have "req \<noteq> ERPS_REQ_CLEAR \<or> ab_owner b"
    using assms(2) by (auto simp: calm_node_def)
  moreover have "waits b" "splits b" using assms(1,3) b by (simp_all add: waits_def splits_def)
  ultimately show "splits (fold exec (row higher p b req) b) \<or> guards_rpl (fold exec (row higher p b req) b)"
    using assms(4-6) unfolding peaceful_reqs_def
    by (cases req; simp add: waits_def splits_def guards_rpl_def peaceful_defs)
qed (simp add: assms(3))

section \<open>The network\<close>

text \<open>
  The devices by number, with an environment \<open>zs m\<close> each, and the PDUs on the air. Only the
  transmit work item hands packets to the stack; a frame carries what is on the air.
\<close>

record erps_net =
  devs :: "nat \<Rightarrow> sys"
  wire :: "raps_pdu list"

fun sent :: "erps_input \<Rightarrow> sys \<Rightarrow> sys \<Rightarrow> raps_pdu list" where
  "sent (TxTimer n p) s t = aired (new_hist s t)"
| "sent ev s t = []"

fun net_handle :: "(nat \<Rightarrow> zephyr) \<Rightarrow> nat \<times> erps_input \<Rightarrow> erps_net \<Rightarrow> erps_net option" where
  "net_handle zs (m, ev) N =
     map_option (\<lambda>t. \<lparr>devs = (devs N)(m := t), wire = sent ev (devs N m) t @ wire N\<rparr>)
       (erps_handle (zs m) ev (devs N m))"

fun on_air :: "zephyr \<Rightarrow> erps_input \<Rightarrow> raps_pdu list \<Rightarrow> bool" where
  "on_air z (Frame i k) w = (\<forall>pdu. may_carry z k pdu \<longrightarrow> pdu \<in> set w)"
| "on_air z ev w = True"

fun net_ready :: "(nat \<Rightarrow> zephyr) \<Rightarrow> nat \<Rightarrow> erps_net \<Rightarrow> nat \<times> erps_input \<Rightarrow> bool" where
  "net_ready zs M N (m, ev) \<longleftrightarrow> m < M \<and> erps_ready (zs m) (devs N m) ev \<and> on_air (zs m) ev (wire N)"

text \<open>Nothing fails and nobody switches: the events that say so do not happen.\<close>

fun peaceful :: "nat \<times> erps_input \<Rightarrow> bool" where
  "peaceful (m, Ctl i ev) \<longleftrightarrow> ev \<notin> {ERPS_SIGNAL_FAIL, ERPS_ADM_FORCED_SWITCH, ERPS_ADM_MANUAL_SWITCH}"
| "peaceful (m, LinkDownTimer n p) \<longleftrightarrow> False"
| "peaceful (m, ev) \<longleftrightarrow> True"

definition net_ok :: "(nat \<Rightarrow> zephyr) \<Rightarrow> nat \<Rightarrow> erps_net \<Rightarrow> bool" where
  "net_ok zs M N \<longleftrightarrow> (\<forall>m < M. sys_ok (zs m) (devs N m))"

lemma net_handle_ok:
  assumes "net_ok zs M N" and "net_ready zs M N e"
  shows "\<exists>N'. net_handle zs e N = Some N' \<and> net_ok zs M N'"
proof -
  obtain m ev where e: "e = (m, ev)" by fastforce
  then have "sys_ok (zs m) (devs N m)" "erps_ready (zs m) (devs N m) ev"
    using assms by (simp_all add: net_ok_def)
  from handle_sys_step [OF this] obtain t where
    "erps_handle (zs m) ev (devs N m) = Some t" "sys_ok (zs m) t" by blast
  then show ?thesis using assms(1) by (simp add: e net_ok_def)
qed

interpretation network: event_loop "net_handle zs" "net_ready zs M" "net_ok zs M" for zs M
  by unfold_locales (rule net_handle_ok)

section \<open>Peaceful starts\<close>

text \<open>A device of one node, whose address on the ring is \<open>a\<close>.\<close>

definition has_addr :: "zephyr \<Rightarrow> net_eth_addr \<Rightarrow> sys \<Rightarrow> bool" where
  "has_addr z a s \<longleftrightarrow> nnodes s = 1 \<and>
     (\<forall>h. net_if_get_link_addr z h (net_if_lookup_by_dev z (dev (lnk s (0, 0)))) = Some (mac_bytes a))"

text \<open>An announcement of a quiet ring, and one that does not yet say that the RPL is blocked.\<close>

definition quiet_pdu :: "raps_pdu \<Rightarrow> bool" where
  "quiet_pdu pdu \<longleftrightarrow> raps_pdu_get_req_state pdu = RAPS_NR"

definition view :: "(nat \<Rightarrow> zephyr) \<Rightarrow> erps_net \<Rightarrow> nat \<Rightarrow> ab" where
  "view zs N m = ab_of (zs m) 0 (devs N m)"

text \<open>
  Either the owner of the RPL has blocked it; or nobody has announced more than NR, and the device
  with the highest address, which none of the others' announcements open, has a blocked port.
\<close>

definition quiet_net :: "(nat \<Rightarrow> zephyr) \<Rightarrow> nat \<Rightarrow> (nat \<Rightarrow> net_eth_addr) \<Rightarrow> nat \<Rightarrow> erps_net \<Rightarrow> bool" where
  "quiet_net zs M addr c N \<longleftrightarrow> net_ok zs M N \<and>
     (\<forall>m < M. has_addr (zs m) (addr m) (devs N m) \<and> calm_node (view zs N m)) \<and>
     (\<forall>pdu \<in> set (wire N). quiet_pdu pdu) \<and>
     ((\<exists>m < M. guards_rpl (view zs N m)) \<or>
      (\<forall>m < M. waits (view zs N m)) \<and> splits (view zs N c) \<and>
      (\<forall>pdu \<in> set (wire N). \<not> raps_pdu_rb pdu \<and> mac_le (node_id (raps_info pdu)) (addr c)))"

lemma sent_fill:
  assumes "pdu \<in> set (sent ev s t)" and "erps_handle z ev s = Some t" and "erps_ready z s ev"
    and "has_addr z a s" and "sys_ok z s"
  shows "\<exists>buf. pdu = erps_raps_fill (nodes s 0) a buf"
proof (cases ev)
  case (TxTimer n p)
  have n: "n = 0" "p < 2" "nnodes s = 1"
    using assms(3,4) by (auto simp: TxTimer has_addr_def)
  then have "absr z 0 (ab_of z 0 s) s" using sys_okD [OF assms(5), of 0] by simp
  then have l: "erps_link_get_node s (0, p) = 0" using n(2) by simp
  have t: "t = erps_tx_work z (0, p) s" using assms(2) by (simp add: TxTimer n(1))
  obtain k bs r where k: "PktSetData k bs r \<in> set (new_hist s t)" "pdu = raps_pdu_of_bytes bs"
    using assms(1) aired_in [of pdu "new_hist s t"] unfolding TxTimer by auto
  from tx_work_announces [OF k(1) [unfolded t]] obtain u mac buf where
    u: "nodes u = nodes s" "erps_link_get_node_id z (0, p) u = Inr mac"
      "pdu = erps_raps_fill (nodes s 0) mac buf"
    unfolding announced_by_def l by (auto simp: k(2))
  have "mac_of_bytes (mac_bytes a) = a" by simp
  then have "mac = a"
    using u(2) assms(4) l
    by (auto simp: erps_link_get_node_id_def has_addr_def lnk_def u(1) erps_link_get_node_def
        split: option.splits if_splits)
  with u(3) show ?thesis by blast
qed (use assms(1) in simp_all)

text \<open>The requests of peaceful events.\<close>

lemma peaceful_requests:
  assumes "(h, p, req) \<in> event_requests z s ev 0" and "peaceful (m, ev)" and "on_air z ev w"
    and "\<And>pdu. pdu \<in> set w \<Longrightarrow> quiet_pdu pdu" and "has_addr z a s"
  shows "req \<in> peaceful_reqs \<and> (req = ERPS_REQ_RAPS_NR_RB \<longrightarrow> (\<exists>pdu \<in> set w. raps_pdu_rb pdu)) \<and>
    (req = ERPS_REQ_RAPS_NR \<and> h \<longrightarrow> (\<exists>pdu \<in> set w. \<not> mac_le (node_id (raps_info pdu)) a))"
proof (cases ev)
  case (Ctl i e)
  then show ?thesis using assms(1,2) by (cases e) (auto simp: peaceful_reqs_def)
next
  case (Frame i k)
  then obtain pdu g mac where pdu: "may_carry z k pdu" "raps_request (raps_ver (nodes s 0)) pdu = Some req"
    "net_if_get_link_addr z g (net_if_lookup_by_dev z (dev (lnk s (0, 0)))) = Some (mac_bytes mac)"
    "h = (0 < memcmp (mac_bytes (node_id (raps_info pdu))) (mac_bytes mac))"
    using assms(1) by (auto simp: frame_request_def)
  have "mac = a" using pdu(3) assms(5) mac.enc_inject [of mac a] by (simp add: has_addr_def)
  moreover have "pdu \<in> set w" using pdu(1) assms(3) by (simp add: Frame)
  moreover from this have "raps_pdu_get_req_state pdu = RAPS_NR" using assms(4) by (simp add: quiet_pdu_def)
  ultimately show ?thesis
    using pdu(2,4) by (auto simp: raps_request_def peaceful_reqs_def Let_def not_le split: if_splits)
qed (use assms(1,2) in \<open>auto simp: peaceful_reqs_def\<close>)

lemma sent_quiet:
  assumes "pdu \<in> set (sent ev s t)" and "erps_handle z ev s = Some t" and "erps_ready z s ev"
    and "has_addr z a s" and "sys_ok z s" and "calm_node (ab_of z 0 s)"
  shows "quiet_pdu pdu" "node_id (raps_info pdu) = a" "waits (ab_of z 0 s) \<Longrightarrow> \<not> raps_pdu_rb pdu"
proof -
  obtain buf where pdu: "pdu = erps_raps_fill (nodes s 0) a buf"
    using sent_fill [OF assms(1-5)] by blast
  show "quiet_pdu pdu"
    using assms(6) by (simp add: pdu quiet_pdu_def calm_node_def ab_of_def erps_raps_fill_def
        raps_pdu_get_req_state_def raps_info_get_req_state_def RAPS_NR_def)
  show "node_id (raps_info pdu) = a"
    by (simp add: pdu erps_raps_fill_def)
  show "waits (ab_of z 0 s) \<Longrightarrow> \<not> raps_pdu_rb pdu"
    by (simp add: pdu erps_raps_fill_def waits_def ab_of_def raps_pdu_rb_def)
qed

text \<open>One device, at one event: what it hears comes from \<open>w\<close>.\<close>

lemma quiet_device:
  assumes "sys_step z ev s t" and "has_addr z a s" and "calm_node (ab_of z 0 s)"
    and "on_air z ev w" and "\<And>pdu. pdu \<in> set w \<Longrightarrow> quiet_pdu pdu" and "peaceful (m, ev)"
  shows "has_addr z a t" "calm_node (ab_of z 0 t)" "guards_rpl (ab_of z 0 s) \<Longrightarrow> guards_rpl (ab_of z 0 t)"
proof -
  have ts: "table_step (event_requests z s ev 0) (ab_of z 0 s) (ab_of z 0 t)"
    using assms(1,2) by (simp add: sys_step_def has_addr_def)
  have req: "req \<in> peaceful_reqs" if "(h, p, req) \<in> event_requests z s ev 0" for h p req
    using peaceful_requests [OF that assms(6,4,5,2)] by simp
  show "has_addr z a t"
    using assms(1,2) by (simp add: sys_step_def has_addr_def)
  show "calm_node (ab_of z 0 t)"
    by (rule table_step_keeps [where Q = calm_node, OF ts assms(3)], erule core_calm(1),
        rule peaceful_calm, simp add: core_calm(1) [of _ "ab_of z 0 s"] assms(3), erule req)
  show "guards_rpl (ab_of z 0 t)" if "guards_rpl (ab_of z 0 s)"
    by (rule table_step_keeps [where Q = guards_rpl, OF ts that], erule core_calm(2),
        rule peaceful_guards, simp add: core_calm(2) [of _ "ab_of z 0 s"] that, erule req)
qed

lemma waiting_device:
  assumes "sys_step z ev s t" and "has_addr z a s" and "calm_node (ab_of z 0 s)"
    and "on_air z ev w" and "\<And>pdu. pdu \<in> set w \<Longrightarrow> quiet_pdu pdu \<and> \<not> raps_pdu_rb pdu"
    and "peaceful (m, ev)" and "waits (ab_of z 0 s)"
  shows "waits (ab_of z 0 t) \<or> guards_rpl (ab_of z 0 t)"
    and "splits (ab_of z 0 s) \<Longrightarrow> (\<And>pdu. pdu \<in> set w \<Longrightarrow> mac_le (node_id (raps_info pdu)) a) \<Longrightarrow>
      splits (ab_of z 0 t) \<or> guards_rpl (ab_of z 0 t)"
proof -
  have ts: "table_step (event_requests z s ev 0) (ab_of z 0 s) (ab_of z 0 t)"
    using assms(1,2) by (simp add: sys_step_def has_addr_def)
  note reqs = peaceful_requests [OF _ assms(6,4) _ assms(2)]
  have req: "req \<in> peaceful_reqs \<and> req \<noteq> ERPS_REQ_RAPS_NR_RB"
    if "(h, p, req) \<in> event_requests z s ev 0" for h p req
    using reqs [OF that] assms(5) by blast
  show "waits (ab_of z 0 t) \<or> guards_rpl (ab_of z 0 t)"
    using ts
  proof (rule table_step_keeps [where Q = "\<lambda>x. waits x \<or> guards_rpl x"])
    fix h p req x assume x: "(h, p, req) \<in> event_requests z s ev 0" "core x = core (ab_of z 0 s)"
    then show "waits (g8032 h p req x) \<or> guards_rpl (g8032 h p req x)"
      using assms(3,7) req [OF x(1)] by (intro peaceful_waits) (simp_all add: core_calm [OF x(2)])
  next
    show "(waits x \<or> guards_rpl x) = (waits y \<or> guards_rpl y)" if "core x = core y" for x y
      using core_calm(2,3) [OF that] by simp
  qed (simp add: assms(7))
  assume sp: "splits (ab_of z 0 s)" and le: "\<And>pdu. pdu \<in> set w \<Longrightarrow> mac_le (node_id (raps_info pdu)) a"
  show "splits (ab_of z 0 t) \<or> guards_rpl (ab_of z 0 t)"
    using ts
  proof (rule table_step_keeps [where Q = "\<lambda>x. splits x \<or> guards_rpl x"])
    fix h p req x assume x: "(h, p, req) \<in> event_requests z s ev 0" "core x = core (ab_of z 0 s)"
    have "\<not> h" if "req = ERPS_REQ_RAPS_NR"
      using reqs [OF x(1)] assms(5) le that by blast
    then show "splits (g8032 h p req x) \<or> guards_rpl (g8032 h p req x)"
      using assms(3,7) sp req [OF x(1)] by (intro peaceful_splits) (simp_all add: core_calm [OF x(2)])
  next
    show "(splits x \<or> guards_rpl x) = (splits y \<or> guards_rpl y)" if "core x = core y" for x y
      using core_calm(2,4) [OF that] by simp
  qed (simp add: sp)
qed

lemma quiet_net_step:
  assumes "quiet_net zs M addr c N" and "c < M" and "\<And>m. m < M \<Longrightarrow> mac_le (addr m) (addr c)"
    and "net_ready zs M N e" and "peaceful e"
  shows "\<exists>N'. net_handle zs e N = Some N' \<and> quiet_net zs M addr c N'"
proof -
  obtain m ev where e: "e = (m, ev)" by fastforce
  define z s where "z = zs m" and "s = devs N m"
  have ok: "net_ok zs M N" and dev: "\<And>m. m < M \<Longrightarrow> has_addr (zs m) (addr m) (devs N m)"
      "\<And>m. m < M \<Longrightarrow> calm_node (view zs N m)"
    and w: "\<And>pdu. pdu \<in> set (wire N) \<Longrightarrow> quiet_pdu pdu"
    using assms(1) by (simp_all add: quiet_net_def)
  have m: "m < M" "erps_ready z s ev" "on_air z ev (wire N)" "peaceful (m, ev)"
    using assms(4,5) by (simp_all add: e z_def s_def)
  have s: "has_addr z (addr m) s" "sys_ok z s" "calm_node (ab_of z 0 s)"
    using ok dev [OF m(1)] m(1) by (simp_all add: net_ok_def view_def z_def s_def)
  obtain t where t: "erps_handle z ev s = Some t" "sys_ok z t" "sys_step z ev s t"
    using handle_sys_step [OF s(2) m(2)] by blast
  note q = quiet_device [OF t(3) s(1,3) m(3) w m(4)] and sent = sent_quiet [OF _ t(1) m(2) s]
  define N' where "N' = \<lparr>devs = (devs N)(m := t), wire = sent ev s t @ wire N\<rparr>"
  have v: "view zs N' j = (if j = m then ab_of z 0 t else view zs N j)"
    "devs N' j = (if j = m then t else devs N j)" for j
    by (simp_all add: view_def N'_def z_def)
  have vs: "view zs N m = ab_of z 0 s" by (simp add: view_def z_def s_def)
  have "(\<exists>j < M. guards_rpl (view zs N' j)) \<or>
      (\<forall>j < M. waits (view zs N' j)) \<and> splits (view zs N' c) \<and>
      (\<forall>pdu \<in> set (wire N'). \<not> raps_pdu_rb pdu \<and> mac_le (node_id (raps_info pdu)) (addr c))"
  proof (cases "(\<exists>j < M. guards_rpl (view zs N j)) \<or> guards_rpl (ab_of z 0 t)")
    case True
    then obtain j where "j < M" "guards_rpl (view zs N j) \<or> j = m \<and> guards_rpl (ab_of z 0 t)"
      using m(1) by blast
    then have "guards_rpl (view zs N' j)" using q(3) vs by (cases "j = m") (auto simp: v)
    then show ?thesis using \<open>j < M\<close> by blast
  next
    case False
    then have old: "\<And>j. j < M \<Longrightarrow> waits (view zs N j)" "splits (view zs N c)"
      "\<And>pdu. pdu \<in> set (wire N) \<Longrightarrow> \<not> raps_pdu_rb pdu \<and> mac_le (node_id (raps_info pdu)) (addr c)"
      using assms(1) by (auto simp: quiet_net_def)
    have sw: "waits (ab_of z 0 s)" using old(1) [OF m(1)] by (simp add: vs)
    note wd = waiting_device [OF t(3) s(1,3) m(3) _ m(4) sw]
    have "waits (ab_of z 0 t)"
      using wd(1) w old(3) False by blast
    moreover have "splits (ab_of z 0 t)" if "m = c"
      using wd(2) w old(2,3) vs False that by simp
    moreover have "\<not> raps_pdu_rb pdu \<and> mac_le (node_id (raps_info pdu)) (addr c)"
      if "pdu \<in> set (wire N')" for pdu
      using that old(3) sent(2,3) sw assms(3) [OF m(1)] by (auto simp: N'_def)
    ultimately show ?thesis using old(1,2) by (intro disjI2) (simp add: v)
  qed
  moreover have "net_handle zs e N = Some N'" using t(1) by (simp add: e N'_def z_def s_def)
  moreover have "\<forall>pdu \<in> set (wire N'). quiet_pdu pdu" using sent(1) w by (auto simp: N'_def)
  moreover have "\<forall>j < M. has_addr (zs j) (addr j) (devs N' j) \<and> calm_node (view zs N' j)"
    using dev q(1,2) by (simp add: v z_def)
  moreover have "net_ok zs M N'"
    using ok t(2) by (simp add: net_ok_def v z_def)
  ultimately show ?thesis unfolding quiet_net_def by blast
qed

text \<open>A device that the devicetree describes with one node, and that has started.\<close>

definition starts_as :: "zephyr \<Rightarrow> dt_node \<Rightarrow> net_eth_addr \<Rightarrow> sys \<Rightarrow> bool" where
  "starts_as z d a s \<longleftrightarrow> env_accepts z \<and> ifaces_distinct z (erps_boot [d]) \<and>
     erps_node_build_asserts d \<and> dt_ring_id d \<noteq> None \<and> (\<forall>dv. net_if_lookup_by_dev z dv \<noteq> None) \<and>
     has_addr z a (erps_boot [d]) \<and> erps_init z (erps_boot [d]) = Some (0, s)"

lemma up_sys_ok:
  assumes "driver_ok z" and "ring_ok z s" and "\<And>dv. net_if_lookup_by_dev z dv \<noteq> None"
  shows "sys_ok z s"
  using assms ring_okD [OF assms(2)] by (auto simp: sys_ok_def good_def node_ok_def)

lemma starts_boot:
  assumes "starts_as z d a s"
  shows "up z s 0" and boot_cfg: "node_cfg (nodes s 0) = node_cfg (ERPS_NODE_INIT d)"
proof -
  have "\<exists>t. erps_init z (erps_boot [d]) = Some (0, t) \<and> up z t 0 \<and>
      node_cfg (nodes t 0) = node_cfg (nodes (erps_boot [d]) 0)"
    using assms boot_up [of z "[d]"] by (auto simp: starts_as_def)
  then show "up z s 0" "node_cfg (nodes s 0) = node_cfg (ERPS_NODE_INIT d)"
    using assms by (auto simp: starts_as_def erps_boot_def)
qed

lemma boot_role:
  assumes "starts_as z d a s"
  shows "rpl_owner (nodes s 0) = rpl_owner (ERPS_NODE_INIT d)"
  using boot_cfg [OF assms] by (simp add: node_cfg_def)

lemma starts_quiet:
  assumes "starts_as z d a s"
  shows "sys_ok z s" "has_addr z a s" "calm_node (ab_of z 0 s)" "waits (ab_of z 0 s)" "splits (ab_of z 0 s)"
proof -
  have st: "env_accepts z" "ifaces_distinct z (erps_boot [d])" "erps_node_build_asserts d"
    "dt_ring_id d \<noteq> None" "\<And>dv. net_if_lookup_by_dev z dv \<noteq> None" "has_addr z a (erps_boot [d])"
    "erps_init z (erps_boot [d]) = Some (0, s)"
    using assms by (simp_all add: starts_as_def)
  from boot_up [OF st(1,2) _ st(5)] st(3,4,7) have s: "nnodes s = 1" "ring_ok z s" "up z s 0"
    "\<And>n. node_cfg (nodes s n) = node_cfg (nodes (erps_boot [d]) n)" by auto
  show "sys_ok z s"
    using st(1) s(2) st(5) by (intro up_sys_ok) (simp_all add: env_accepts_def)
  have "dev (lnk s (0, 0)) = dev (lnk (erps_boot [d]) (0, 0))"
    using s(4) [of 0] by (auto simp: node_cfg_def lnk_def fun_eq_iff)
  then show "has_addr z a s"
    using st(6) s(1) by (simp add: has_addr_def)
  have b: "boot_port (nodes s 0) \<in> {0, 1}"
    by (simp add: boot_port_def)
  show "calm_node (ab_of z 0 s)" "waits (ab_of z 0 s)" "splits (ab_of z 0 s)"
    using s(3) b by (auto simp: up_def boot_top_def announces_def split_at_def calm_node_def waits_def splits_def ab_of_def)
qed

lemma starts_quiet_net:
  assumes "\<And>m. m < M \<Longrightarrow> starts_as (zs m) (ds m) (addr m) (devs N m)" and "wire N = []" and "c < M"
  shows "quiet_net zs M addr c N"
  using starts_quiet [OF assms(1)] assms(2,3) by (simp add: quiet_net_def net_ok_def view_def)

interpretation quiet: event_loop "net_handle zs" "\<lambda>N e. net_ready zs M N e \<and> peaceful e"
    "\<lambda>N. c < M \<and> (\<forall>m < M. mac_le (addr m) (addr c)) \<and> quiet_net zs M addr c N" for zs M addr c
  by unfold_locales (use quiet_net_step in blast)

text \<open>A blocked port is off in its driver.\<close>

definition blocks :: "zephyr \<Rightarrow> sys \<Rightarrow> link_ref \<Rightarrow> bool" where
  "blocks z s l \<longleftrightarrow> blocked (lnk s l) \<and>
     (\<exists>i. net_if_lookup_by_dev z (dev (lnk s l)) = Some i \<and> port_enabled (hist s) i = Some False)"

lemma blocks_blocked:
  assumes "sys_ok z s" and "nnodes s = 1" and "p < 2" and "ab_blocked (ab_of z 0 s) p"
  shows "blocks z s (0, p)"
proof -
  have "blocked (lnk s (0, p))" using assms(4) by (simp add: ab_of_def)
  moreover obtain i where "net_if_lookup_by_dev z (dev (lnk s (0, p))) = Some i"
    using sys_okD(3) [OF assms(1), of 0] assms(2,3) by (auto simp: good_def)
  moreover have "hw_sync z s 0"
    using sys_okD(5) [OF assms(1), of 0] assms(2) by (simp add: node_ok_def)
  ultimately show ?thesis
    using assms(3) by (auto simp: blocks_def hw_sync_def)
qed

lemma quiet_net_blocks:
  assumes "quiet_net zs M addr c N" and "c < M"
  shows "\<exists>m < M. \<exists>p < 2. blocks (zs m) (devs N m) (0, p)"
proof -
  have two: "(0 :: nat) < 2" "(1 :: nat) < 2" by simp_all
  have "\<exists>m < M. \<exists>p < 2. ab_blocked (view zs N m) p"
    using assms two unfolding quiet_net_def guards_rpl_def splits_def by blast
  then obtain m p where m: "m < M" "p < 2" "ab_blocked (view zs N m) p" by blast
  then have "sys_ok (zs m) (devs N m)" "nnodes (devs N m) = 1"
    using assms(1) by (simp_all add: quiet_net_def net_ok_def has_addr_def)
  with m show ?thesis using blocks_blocked unfolding view_def by blast
qed

end
