(* ===== verification/Erps_Settle.thy ===== *)
theory Erps_Settle
  imports Erps_Net
begin

text \<open>
  One device of a ring speaks and the others hear it: it handles a local request, its transmit work
  item runs, and its PDU reaches everybody else. Then the rounds a ring goes through: a failure
  that it is protected from, the recovery from it, and the return to rest.
\<close>

declare raps_req_states [simp del]

lemma reach_trans: "reach handle ready t u \<Longrightarrow> reach handle ready s t \<Longrightarrow> reach handle ready s u"
  by (induction rule: reach.induct) (auto intro: reach_step)

section \<open>A device\<close>

text \<open>A device of one node with the address \<open>a\<close>, which the table sees in a state with \<open>Q\<close>.\<close>

definition stands :: "zephyr \<Rightarrow> net_eth_addr \<Rightarrow> (ab \<Rightarrow> bool) \<Rightarrow> sys \<Rightarrow> bool" where
  "stands z a Q s \<longleftrightarrow> sys_ok z s \<and> has_addr z a s \<and> Q (ab_of z 0 s)"

lemma standsD:
  assumes "stands z a Q s"
  shows "sys_ok z s" "has_addr z a s" "Q (ab_of z 0 s)" "nnodes s = 1"
  using assms by (simp_all add: stands_def has_addr_def)

lemma stands_mono: "stands z a Q s \<Longrightarrow> (\<And>x. Q x \<Longrightarrow> P x) \<Longrightarrow> stands z a P s"
  by (simp add: stands_def)

lemma handle_device:
  assumes "sys_ok z s" and "has_addr z a s" and "erps_ready z s ev" and "erps_handle z ev s = Some t"
  shows "sys_ok z t" "has_addr z a t"
proof -
  obtain t' where "erps_handle z ev s = Some t'" "sys_ok z t'" "sys_step z ev s t'"
    using handle_sys_step [OF assms(1,3)] by blast
  then show "sys_ok z t" "has_addr z a t"
    using assms(2,4) by (auto simp: sys_step_def has_addr_def)
qed

text \<open>Which ports the flags and the drivers have off.\<close>

lemma stands_blocks:
  assumes "stands z a Q s" and "p < 2"
  shows "blocks z s (0, p) = ab_blocked (ab_of z 0 s) p"
  using blocks_blocked [OF standsD(1,4) [OF assms(1)] assms(2)]
  by (auto simp: blocks_def ab_of_def)

section \<open>Local requests\<close>

text \<open>The input makes the device post this request on its port \<open>p\<close>.\<close>

definition posts :: "zephyr \<Rightarrow> sys \<Rightarrow> erps_input \<Rightarrow> nat \<Rightarrow> erps_request \<Rightarrow> bool" where
  "posts z s ev p req \<longleftrightarrow>
     (\<exists>i e. ev = Ctl i e \<and> erps_link_lookup_by_iface z i s = Some (0, p) \<and> ctl_request e = Some req) \<or>
     ev = LinkDownTimer 0 p \<and> p < 2 \<and> req = ERPS_REQ_SF \<or>
     ev = WtrTimer 0 \<and> p = 0 \<and> req = ERPS_REQ_WTR_EXPIRES"

lemma postsD:
  assumes "posts z s ev p req" and "sys_ok z s" and "nnodes s = 1"
  shows "p < 2" "req \<noteq> ERPS_REQ_RAPS_NR" "req \<noteq> ERPS_REQ_INVALID" "erps_ready z s ev"
    "erps_handle z ev s = map_option snd (erps_fsm_post z (0, p) req None s)"
proof -
  have "net_if_lookup_by_dev z (dev (lnk s (0, p))) \<noteq> None" if "p < 2"
    using sys_okD(3) [OF assms(2), of 0] that assms(3) by (simp add: good_def)
  then show "p < 2" "req \<noteq> ERPS_REQ_RAPS_NR" "req \<noteq> ERPS_REQ_INVALID" "erps_ready z s ev"
    "erps_handle z ev s = map_option snd (erps_fsm_post z (0, p) req None s)"
    using assms(1,3) lookup_by_iface_SomeD(2) unfolding posts_def
    by (auto simp: net_erps_ctl_def net_erps_fsm_post_def erps_link_down_work_def erps_wtr_work_def
        elim!: ctl_request.elims)
qed

lemma device_posts:
  assumes "posts z s ev p req" and "sys_ok z s" and "has_addr z a s"
    and "\<And>h. k_mutex_lock z h 0 (K_MSEC 250) = 0" and "erps_handle z ev s = Some t"
  shows "\<exists>h. ab_of z 0 t = g8032 h p req (ab_of z 0 s)"
proof -
  have nn: "nnodes s = 1" using assms(3) by (simp add: has_addr_def)
  note p = postsD [OF assms(1,2) nn] and ok = sys_okD [OF assms(2), of 0, unfolded nn]
  have "wp (erps_fsm_post z (0, p) req None s) (\<lambda>_ t. \<exists>h. ab_of z 0 t = g8032 h p req (ab_of z 0 s))"
    using ok(1,4) p(1-3) by (intro sim_post) (auto simp: absr_def assms(4))
  then show ?thesis
    using assms(5) by (auto simp: wp_iff_Some p(5))
qed

section \<open>Announcements\<close>

text \<open>The request that others take from what a node announces, when it is NR or SF.\<close>

definition msg_request :: "u8 \<times> u8 \<Rightarrow> erps_request option" where
  "msg_request m =
     (if drop_bit 4 (fst m) = RAPS_NR
      then Some (if bit (snd m) 7 then ERPS_REQ_RAPS_NR_RB else ERPS_REQ_RAPS_NR)
      else if drop_bit 4 (fst m) = RAPS_SF then Some ERPS_REQ_RAPS_SF else None)"

lemma msg_request_simps [simp]:
  "msg_request (0, 0) = Some ERPS_REQ_RAPS_NR" "msg_request (0, 0x80) = Some ERPS_REQ_RAPS_NR_RB"
  "msg_request (0, 0xc0) = Some ERPS_REQ_RAPS_NR_RB"
  "msg_request (0xb0, st) = Some ERPS_REQ_RAPS_SF"
  by (simp_all add: msg_request_def RAPS_NR_def RAPS_SF_def bit_simps)

lemma fill_request:
  assumes "msg_request (ab_msg (ab_of z 0 s)) = Some req"
  shows "raps_request v (erps_raps_fill (nodes s 0) mac buf) = Some req"
proof -
  have "bit ((x :: u8) OR 0x20) 7 = bit x 7" for x by (simp add: bit_or_iff bit_simps)
  then show ?thesis
    using assms
    by (auto simp: msg_request_def raps_request_def ab_of_def erps_raps_fill_def bit_flags
        raps_pdu_get_req_state_def raps_info_get_req_state_def RAPS_RS_SHIFT_def Let_def
        split: if_splits)
qed

section \<open>One device speaks\<close>

text \<open>Everybody but \<open>own\<close> hears the PDU, one after the other.\<close>

lemma all_hear:
  assumes "pdu \<in> set (wire N)" and "\<And>v. raps_request v pdu = Some req"
    and "\<And>m. m < M \<Longrightarrow> m \<noteq> own \<Longrightarrow> sys_ok (zs m) (devs N m) \<and> has_addr (zs m) (addr m) (devs N m) \<and>
      hears (zs m) (i m) (k m) pdu (devs N m) 0 \<and> (\<forall>pdu'. may_carry (zs m) (k m) pdu' \<longrightarrow> pdu' = pdu)"
    and "\<And>m h q x. m < M \<Longrightarrow> m \<noteq> own \<Longrightarrow> core x = core (view zs N m) \<Longrightarrow>
      ab_wtr x = ab_wtr (view zs N m) \<Longrightarrow> Q m (g8032 h q req x)"
    and "\<And>m. P (m, Frame (i m) (k m))" and "j \<le> M"
  shows "\<exists>N'. reach (net_handle zs) (\<lambda>N e. net_ready zs M N e \<and> P e) N N' \<and> wire N' = wire N \<and>
    (\<forall>m. m = own \<or> j \<le> m \<longrightarrow> devs N' m = devs N m) \<and>
    (\<forall>m < j. m \<noteq> own \<longrightarrow> stands (zs m) (addr m) (Q m) (devs N' m))"
  using assms(6)
proof (induction j)
  case 0
  then show ?case by (auto intro: reach_refl)
next
  case (Suc j)
  then obtain N1 where N1: "reach (net_handle zs) (\<lambda>N e. net_ready zs M N e \<and> P e) N N1"
    "wire N1 = wire N" "\<And>m. m = own \<or> j \<le> m \<Longrightarrow> devs N1 m = devs N m"
    "\<And>m. m < j \<Longrightarrow> m \<noteq> own \<Longrightarrow> stands (zs m) (addr m) (Q m) (devs N1 m)" by auto
  show ?case
  proof (cases "j = own")
    case True
    then show ?thesis using N1 by (intro exI [of _ N1]) (auto simp: less_Suc_eq)
  next
    case False
    have j: "j < M" using Suc.prems by simp
    note a = assms(3) [OF j False]
    have s: "devs N1 j = devs N j" by (rule N1(3)) simp
    have hears: "hears (zs j) (i j) (k j) pdu (devs N j) 0" using a by simp
    obtain h p xs t where t: "erps_recv (zs j) (i j) (k j) (devs N j) = Some (NET_OK, t)"
      "xs = [] \<or> xs = [Flush p]" "ab_of (zs j) 0 t = g8032 h p req (fold exec xs (view zs N j))"
      unfolding view_def by (rule hears_request [OF hears assms(2)])
    have wtr: "ab_wtr (fold exec xs (view zs N j)) = ab_wtr (view zs N j)"
      using t(2) by (auto simp: say_def)
    have st: "stands (zs j) (addr j) (Q j) t"
      using handle_device [of "zs j" "devs N j" "addr j" "Frame (i j) (k j)" t] a t(1)
        assms(4) [OF j False core_flush [OF t(2)] wtr] by (simp add: stands_def t(3))
    let ?N = "\<lparr>devs = (devs N1)(j := t), wire = wire N1\<rparr>"
    have h: "net_handle zs (j, Frame (i j) (k j)) N1 = Some ?N"
      using t(1) by (simp add: s)
    have r: "net_ready zs M N1 (j, Frame (i j) (k j)) \<and> P (j, Frame (i j) (k j))"
      using j a assms(1,5) by (auto simp: N1(2))
    have "reach (net_handle zs) (\<lambda>N e. net_ready zs M N e \<and> P e) N ?N"
      by (rule reach_step [where ev = "(j, Frame (i j) (k j))", OF N1(1)]) (rule r, rule h)
    then show ?thesis
      using N1 st False by (intro exI [of _ ?N]) (auto simp: less_Suc_eq)
  qed
qed

text \<open>
  The device \<open>own\<close> posts a request, which takes it to a state with \<open>Q own\<close> in which it asks the
  others for \<open>req'\<close>, which takes each of them to a state with its \<open>Q\<close>.
\<close>

lemma one_speaks:
  assumes dev: "\<And>m. m < M \<Longrightarrow> sys_ok (zs m) (devs N m) \<and> has_addr (zs m) (addr m) (devs N m)"
    and own: "own < M" "posts (zs own) (devs N own) ev p req" and q: "q < 2"
    and lock: "\<And>h. k_mutex_lock (zs own) h 0 (K_MSEC 250) = 0"
    and N1: "net_handle zs (own, ev) N = Some N1" and N2: "net_handle zs (own, TxTimer 0 q) N1 = Some N2"
    and pdu: "pdu \<in> set (sent (TxTimer 0 q) (devs N1 own) (devs N2 own))"
    and hear: "\<And>m. m < M \<Longrightarrow> m \<noteq> own \<Longrightarrow> hears (zs m) (i m) (k m) pdu (devs N m) 0 \<and>
      (\<forall>pdu'. may_carry (zs m) (k m) pdu' \<longrightarrow> pdu' = pdu)"
    and says: "\<And>h. Q own (g8032 h p req (view zs N own)) \<and>
      msg_request (ab_msg (g8032 h p req (view zs N own))) = Some req'"
    and follows: "\<And>m h q x. m < M \<Longrightarrow> m \<noteq> own \<Longrightarrow> core x = core (view zs N m) \<Longrightarrow>
      ab_wtr x = ab_wtr (view zs N m) \<Longrightarrow> Q m (g8032 h q req' x)"
    and stable: "\<And>x y. core x = core y \<Longrightarrow> Q own x = Q own y"
    and P: "P (own, ev)" "P (own, TxTimer 0 q)" "\<And>m. P (m, Frame (i m) (k m))"
  shows "\<exists>N'. reach (net_handle zs) (\<lambda>N e. net_ready zs M N e \<and> P e) N N' \<and>
    (\<forall>m < M. stands (zs m) (addr m) (Q m) (devs N' m))"
proof -
  define z s where "z = zs own" and "s = devs N own"
  have s: "sys_ok z s" "has_addr z (addr own) s" "posts z s ev p req" "nnodes s = 1"
    using dev own by (simp_all add: z_def s_def has_addr_def)
  note po = postsD [OF s(3,1,4)]
  obtain t where t: "erps_handle z ev s = Some t" "devs N1 = (devs N)(own := t)"
    using N1 by (auto simp: z_def s_def simp del: erps_handle.simps)
  note ok = handle_device [OF s(1,2) po(4) t(1)]
  obtain h where v: "ab_of z 0 t = g8032 h p req (view zs N own)"
    using device_posts [OF s(3,1,2) lock [folded z_def] t(1)] by (auto simp: view_def z_def s_def)
  have rdy: "erps_ready z t (TxTimer 0 q)" using ok(2) q by (simp add: has_addr_def)
  obtain u where u: "erps_handle z (TxTimer 0 q) t = Some u" "devs N2 = (devs N)(own := u)"
    "wire N2 = sent (TxTimer 0 q) t u @ wire N1"
    using N2 by (auto simp: t(2) z_def simp del: erps_handle.simps)
  note ok2 = handle_device [OF ok rdy u(1)]
  have pdu': "pdu \<in> set (sent (TxTimer 0 q) t u)" using pdu by (simp add: t(2) u(2))
  obtain buf where buf: "pdu = erps_raps_fill (nodes t 0) (addr own) buf"
    using sent_fill [OF pdu' u(1) rdy ok(2,1)] by blast
  have "raps_request w pdu = Some req'" for w
    unfolding buf using says [of h] by (intro fill_request [where z = z]) (simp add: v)
  moreover have "core (ab_of z 0 u) = core (ab_of z 0 t)"
    using u(1) core_tx_work [of z 0 q t] by simp
  then have "stands z (addr own) (Q own) u"
    using ok2 says [of h] stable [of "ab_of z 0 u" "ab_of z 0 t"] by (simp add: stands_def v)
  moreover have "reach (net_handle zs) (\<lambda>N e. net_ready zs M N e \<and> P e) N N2"
  proof (rule reach_step [where ev = "(own, TxTimer 0 q)", OF reach_one [where ev = "(own, ev)"]])
    have "on_air z ev w" for w using s(3) by (auto simp: posts_def)
    then show "net_ready zs M N (own, ev) \<and> P (own, ev)"
      using own(1) po(4) P(1) by (simp add: s_def z_def)
    show "net_ready zs M N1 (own, TxTimer 0 q) \<and> P (own, TxTimer 0 q)"
      using own(1) rdy P(2) by (simp add: t(2) z_def)
  qed (rule N1 N2)+
  moreover have "\<exists>N'. reach (net_handle zs) (\<lambda>N e. net_ready zs M N e \<and> P e) N2 N' \<and> wire N' = wire N2 \<and>
      (\<forall>m. m = own \<or> M \<le> m \<longrightarrow> devs N' m = devs N2 m) \<and>
      (\<forall>m < M. m \<noteq> own \<longrightarrow> stands (zs m) (addr m) (Q m) (devs N' m))"
    if "\<And>w. raps_request w pdu = Some req'"
  proof (rule all_hear [where req = req' and pdu = pdu])
    show "pdu \<in> set (wire N2)" using pdu' by (simp add: u(3))
    show "raps_request w pdu = Some req'" for w by (rule that)
    show "P (m, Frame (i m) (k m))" for m by (rule P(3))
    show "M \<le> M" by simp
    show "sys_ok (zs m) (devs N2 m) \<and> has_addr (zs m) (addr m) (devs N2 m) \<and>
        hears (zs m) (i m) (k m) pdu (devs N2 m) 0 \<and> (\<forall>pdu'. may_carry (zs m) (k m) pdu' \<longrightarrow> pdu' = pdu)"
      if "m < M" "m \<noteq> own" for m
      using dev hear that by (simp add: u(2))
    show "Q m (g8032 h q req' x)" if "m < M" "m \<noteq> own" "core x = core (view zs N2 m)"
      "ab_wtr x = ab_wtr (view zs N2 m)" for m h q x
      using follows [OF that(1,2)] that(2-4) by (simp add: view_def u(2))
  qed
  ultimately obtain N' where N': "reach (net_handle zs) (\<lambda>N e. net_ready zs M N e \<and> P e) N2 N'"
    "devs N' own = u" "\<And>m. m < M \<Longrightarrow> m \<noteq> own \<Longrightarrow> stands (zs m) (addr m) (Q m) (devs N' m)"
    and r: "reach (net_handle zs) (\<lambda>N e. net_ready zs M N e \<and> P e) N N2"
    and o: "stands z (addr own) (Q own) u" by (auto simp: u(2))
  show ?thesis
    using reach_trans [OF N'(1) r] N'(2,3) o unfolding z_def by metis
qed

section \<open>The rounds of a ring\<close>

text \<open>
  At rest: in IDLE with the end of the RPL blocked, if the device has one, and nothing else. In
  protection: the ports \<open>B\<close> have failed and are blocked, the others are open. Waiting: in PENDING,
  whatever is blocked, with no local request in effect but a running WTR timer at the owner, and no
  failure on record for the RPL.
\<close>

definition rests :: "ab \<Rightarrow> bool" where
  "rests a \<longleftrightarrow> ab_state a = ERPS_STATE_IDLE \<and> ab_top a = ERPS_REQ_INVALID \<and> \<not> ab_blocked a 0 \<and>
     ab_blocked a 1 = ab_has_rpl a \<and> \<not> ab_failed a 0 \<and> \<not> ab_failed a 1"

definition protects :: "nat set \<Rightarrow> ab \<Rightarrow> bool" where
  "protects B a \<longleftrightarrow> ab_state a = ERPS_STATE_PROTECTION \<and>
     ab_top a = (if B = {} then ERPS_REQ_INVALID else ERPS_REQ_SF) \<and>
     (\<forall>p < 2. ab_blocked a p = (p \<in> B) \<and> ab_failed a p = (p \<in> B))"

definition waits_on :: "ab \<Rightarrow> bool" where
  "waits_on a \<longleftrightarrow> ab_state a = ERPS_STATE_PENDING \<and>
     (ab_top a = ERPS_REQ_INVALID \<or> ab_owner a \<and> ab_top a = ERPS_REQ_WTR_RUNNING) \<and>
     \<not> (ab_has_rpl a \<and> ab_failed a 1)"

lemma core_rounds:
  assumes "core x = core y"
  shows "rests x = rests y" "protects B x = protects B y" "waits_on x = waits_on y"
    "reverts x = reverts y"
  using core_eqD [OF assms]
  by (simp_all add: rests_def protects_def waits_on_def ab_has_rpl_def reverts_def)

text \<open>A device that has started waits.\<close>

lemma starts_waits:
  assumes "starts_as z d a s"
  shows "stands z a waits_on s"
  using starts_quiet [OF assms] starts_boot(1) [OF assms]
  by (auto simp: stands_def waits_on_def up_def boot_top_def intact_def ab_of_def)

text \<open>A failure, at the device where a port fails and at one that hears of it.\<close>

lemma fails_protects:
  assumes "rests a" and "p < 2"
  shows "protects {p} (g8032 h p ERPS_REQ_SF a)"
    "msg_request (ab_msg (g8032 h p ERPS_REQ_SF a)) = Some ERPS_REQ_RAPS_SF"
proof -
  have "ab_state a \<notin> {ERPS_STATE_FORCED_SWITCH, ERPS_STATE_UNINIT}" "ERPS_REQ_SF \<le> ab_top a"
    using assms(1) by (simp_all add: rests_def)
  note b = table_signal_fail [OF assms(2) this, where higher = h]
  have "r = p \<or> r = 1 - p" if "r < 2" for r using assms(2) that by arith
  moreover have "1 - p \<noteq> p" by arith
  ultimately show "protects {p} (g8032 h p ERPS_REQ_SF a)"
    using b unfolding protects_def by auto
  show "msg_request (ab_msg (g8032 h p ERPS_REQ_SF a)) = Some ERPS_REQ_RAPS_SF"
    by (simp add: b(6))
qed

lemma hears_protects: "rests a \<Longrightarrow> protects {} (g8032 h p ERPS_REQ_RAPS_SF a)"
  using table_remote_failure [of a h p] by (auto simp: rests_def protects_def less_2_disj)

text \<open>The recovery.\<close>

lemma clears_waits:
  assumes "protects {p} a" and "p = 1 \<Longrightarrow> \<not> ab_has_rpl a" and "p < 2"
  shows "waits_on (g8032 h p ERPS_REQ_CLEAR_SF a)"
    "ab_blocked (g8032 h p ERPS_REQ_CLEAR_SF a) = ab_blocked a"
    "msg_request (ab_msg (g8032 h p ERPS_REQ_CLEAR_SF a)) = Some ERPS_REQ_RAPS_NR"
    "\<not> ab_wtr a \<Longrightarrow> ab_top (g8032 h p ERPS_REQ_CLEAR_SF a) =
      (if reverts (g8032 h p ERPS_REQ_CLEAR_SF a) then ERPS_REQ_WTR_RUNNING else ERPS_REQ_INVALID)"
  using table_clear_failure [of a h p] assms
  by (auto simp: protects_def waits_on_def ab_has_rpl_def reverts_def)

lemma hears_waits:
  assumes "protects {} a"
  shows "waits_on (g8032 h p ERPS_REQ_RAPS_NR a)"
    "ab_blocked (g8032 h p ERPS_REQ_RAPS_NR a) = ab_blocked a"
    "\<not> ab_wtr a \<Longrightarrow> ab_top (g8032 h p ERPS_REQ_RAPS_NR a) =
      (if reverts (g8032 h p ERPS_REQ_RAPS_NR a) then ERPS_REQ_WTR_RUNNING else ERPS_REQ_INVALID)"
  using table_recovery_heard [of a h p] assms
  by (auto simp: protects_def waits_on_def ab_has_rpl_def reverts_def)

text \<open>The return to rest.\<close>

lemma restores_rests:
  assumes "waits_on a" and "ab_owner a"
  shows "rests (g8032 h p ERPS_REQ_WTR_EXPIRES a)"
    "msg_request (ab_msg (g8032 h p ERPS_REQ_WTR_EXPIRES a)) = Some ERPS_REQ_RAPS_NR_RB"
proof -
  have "ERPS_REQ_WTR_EXPIRES \<le> ab_top a" "ab_state a = ERPS_STATE_PENDING" "\<not> ab_failed a 1"
    using assms by (auto simp: waits_on_def ab_has_rpl_def req_order)
  with table_wtr_expires [OF assms(2), of h p] assms(2)
  show "rests (g8032 h p ERPS_REQ_WTR_EXPIRES a)"
    "msg_request (ab_msg (g8032 h p ERPS_REQ_WTR_EXPIRES a)) = Some ERPS_REQ_RAPS_NR_RB"
    by (simp_all add: rests_def ab_has_rpl_def)
qed

lemma hears_rests:
  assumes "waits_on a" and "\<not> ab_owner a"
  shows "rests (g8032 h p ERPS_REQ_RAPS_NR_RB a)"
  using table_idle_again [of a h p] assms by (auto simp: rests_def waits_on_def ab_has_rpl_def)

end
