(* ===== verification/Erps_Example.thy ===== *)
theory Erps_Example
  imports Erps_Shell Erps_Settle
begin

text \<open>
  A concrete environment and concrete rings, for the theorems that need one to be applied to:
  a driver that accepts every command, packets whose content is given, and rings built by the
  devicetree macros.
\<close>

text \<open>
  Frames of 18 bytes of VLAN header, read byte by byte in network order; \<open>net_ntohs\<close> is the
  identity because the header is parsed in the order of the wire.
\<close>

definition be16 :: "u8 \<Rightarrow> u8 \<Rightarrow> u16" where
  "be16 a b = push_bit 8 (ucast a) OR ucast b"

definition parse_vlan_hdr :: "u8 list \<Rightarrow> net_eth_vlan_hdr" where
  "parse_vlan_hdr bs = \<lparr>hdr_dst = mac_of_bytes (take 6 bs), hdr_tpid = be16 (bs ! 12) (bs ! 13),
     hdr_tci = be16 (bs ! 14) (bs ! 15), hdr_type = be16 (bs ! 16) (bs ! 17)\<rparr>"

text \<open>
  \<open>calm hdr body\<close>: device and interface numbers agree, the address of interface \<open>i\<close> ends in
  \<open>i\<close>, and every packet received holds \<open>hdr\<close> and then \<open>body\<close>.
\<close>

definition calm :: "u8 list \<Rightarrow> u8 list \<Rightarrow> zephyr" where
  "calm hdr body =
     \<lparr>net_if_lookup_by_dev = (\<lambda>d. Some d),
      net_if_get_device = (\<lambda>i. i),
      net_if_is_up = (\<lambda>h i. True),
      net_if_get_link_addr = (\<lambda>h i. map_option (\<lambda>i. [2, 0, 0, 0, 0, of_nat i]) i),
      net_eth_port_set_enabled = (\<lambda>h i b. 0),
      net_eth_get_vlan_iface = (\<lambda>h i v. Some (100 + i)),
      net_eth_vlan_enable = (\<lambda>h i v. 0),
      net_eth_mac_flush = (\<lambda>h i. 0),
      k_work_reschedule = (\<lambda>h w t. 0),
      k_work_delayable_is_pending = (\<lambda>h w. fold (\<lambda>a. pend_step a w) (rev h) False),
      k_mutex_init = (\<lambda>h n. 0),
      k_mutex_lock = (\<lambda>h n t. 0),
      sys_timepoint_calc = (\<lambda>h t. length h),
      sys_timepoint_expired = (\<lambda>h t. True),
      net_pkt_get_len = (\<lambda>h k. length hdr + length body),
      net_pkt_remaining_data = (\<lambda>h k. length hdr + length body),
      net_pkt_read = (\<lambda>h k n. (0, if n = length hdr then hdr else body)),
      net_pkt_alloc_with_buffer = (\<lambda>h i n t. Some 7),
      net_linkaddr_copy_src = (\<lambda>h k a. 0),
      net_linkaddr_set_dst = (\<lambda>h k a. 0),
      net_pkt_get_data = (\<lambda>h k. Some (replicate sizeof_raps_pdu 0)),
      net_pkt_set_data = (\<lambda>h k bs. 0),
      net_pkt_write = (\<lambda>h k bs. 0),
      net_if_try_send_data = (\<lambda>h i k. NET_OK),
      sizeof_net_eth_vlan_hdr = length hdr,
      net_eth_vlan_hdr_of_bytes = parse_vlan_hdr,
      net_ntohs = (\<lambda>x. x),
      net_eth_vlan_get_vid = (\<lambda>x. x AND 0xfff),
      NET_ETH_PTYPE_VLAN = 0x8100,
      NET_ETH_MINIMAL_FRAME_SIZE = 60,
      CONFIG_NET_ERPS_PAD_RAPS_PDUS = True,
      CONFIG_NET_ERPS_LINK_FAIL_TIMEOUT = 5000\<rparr>"

text \<open>The header of a frame for ring 5 on control VLAN 4093, and the environment without frames.\<close>

definition hdr5 :: "u8 list" where
  "hdr5 = [0x01, 0x19, 0xa7, 0x00, 0x00, 5, 2, 0, 0, 0, 0, 9, 0x81, 0x00, 0x0f, 0xfd, 0x89, 0x02]"

abbreviation calm0 :: zephyr where "calm0 \<equiv> calm hdr5 (replicate 37 0)"

lemma calm_driver_ok [simp]: "driver_ok (calm hdr body)"
proof -
  have "fold (\<lambda>a. pend_step a w) (rev (a # h)) False =
      pend_step a w (fold (\<lambda>a. pend_step a w) (rev h) False)" for a h w
    by simp
  then show ?thesis
    by (simp add: driver_ok_def calm_def)
qed

lemma calm_env_accepts [simp]: "env_accepts (calm hdr body)"
  by (simp add: env_accepts_def) (simp add: calm_def)

section \<open>Rings\<close>

text \<open>A ring link per port, with no RPL; the owner of the RPL; its neighbour.\<close>

definition dt_plain :: dt_node where
  "dt_plain = \<lparr>dt_ring_links = [1, 2], dt_protection_link = None, dt_rpl_owner = False,
     dt_non_revertive = False, dt_raps_version = 1, dt_ring_id = Some 5, dt_raps_mel = 7,
     dt_wtr_timer_duration = 5, dt_guard_timer_duration = 500, dt_control_vid = 4093,
     dt_traffic_vid = 4092, dt_net_pkt_alloc_timeout = 50\<rparr>"

definition dt_owner :: dt_node where
  "dt_owner = dt_plain\<lparr>dt_ring_links := [3], dt_protection_link := Some 4, dt_rpl_owner := True\<rparr>"

definition dt_nbr :: dt_node where
  "dt_nbr = dt_plain\<lparr>dt_ring_links := [5], dt_protection_link := Some 6\<rparr>"

lemma dt_asserts [simp]:
  "erps_node_build_asserts dt_plain" "erps_node_build_asserts dt_owner"
  "erps_node_build_asserts dt_nbr"
  by (simp_all add: erps_node_build_asserts_def dt_plain_def dt_owner_def dt_nbr_def
      ERPS_RING_ID_MIN_def ERPS_RING_ID_MAX_def)

definition ring3 :: sys where
  "ring3 = erps_boot [dt_plain, dt_owner, dt_nbr]"

lemma ring3_simps [simp]:
  "nnodes ring3 = 3" "hist ring3 = []" "nodes ring3 0 = ERPS_NODE_INIT dt_plain"
  "nodes ring3 (Suc 0) = ERPS_NODE_INIT dt_owner" "nodes ring3 2 = ERPS_NODE_INIT dt_nbr"
  by (simp_all add: ring3_def erps_boot_def)

lemma less_3_cases: "(n :: nat) < 3 \<Longrightarrow> n = 0 \<or> n = Suc 0 \<or> n = 2"
  by arith

lemmas node_init_defs = ERPS_NODE_INIT_def ERPS_NODE_LINKS_def ERPS_LINK_INIT_def
  ERPS_LINK_DEVICE_GET_def dt_plain_def dt_owner_def dt_nbr_def

lemma ring3_dev:
  "dev (ports (ERPS_NODE_INIT dt_plain) 0) = 1" "dev (ports (ERPS_NODE_INIT dt_plain) (Suc 0)) = 2"
  "dev (ports (ERPS_NODE_INIT dt_owner) 0) = 3" "dev (ports (ERPS_NODE_INIT dt_owner) (Suc 0)) = 4"
  "dev (ports (ERPS_NODE_INIT dt_nbr) 0) = 5" "dev (ports (ERPS_NODE_INIT dt_nbr) (Suc 0)) = 6"
  by (simp_all add: node_init_defs)

lemma ring3_all_links: "all_links ring3 = [(0, 0), (0, 1), (1, 0), (1, 1), (2, 0), (2, 1)]"
  by (simp add: all_links_def upt_rec)

lemma ring3_distinct [simp]: "ifaces_distinct (calm hdr body) ring3"
  by (simp add: ifaces_distinct_def ring3_all_links lnk_def ring3_dev calm_def)

lemma ring3_fresh: "n < 3 \<Longrightarrow> fresh (calm hdr body) ring3 n"
proof -
  have asserts: "\<And>d. d \<in> set [dt_plain, dt_owner, dt_nbr] \<Longrightarrow> erps_node_build_asserts d"
    by auto
  have b: "idx_ok (nodes ring3 n)" "role_ok (nodes ring3 n)" "\<not> blocked (lnk ring3 (n, p))"
    "tx_ok (nodes ring3 n)" "intact ring3 n" if "n < 3" for p
    using erps_boot_fresh [where ds = "[dt_plain, dt_owner, dt_nbr]" and n = n] asserts
      that unfolding ring3_def by simp_all
  have "net_if_lookup_by_dev (calm hdr body) d \<noteq> None" for d
    by (simp add: calm_def)
  then show "n < 3 \<Longrightarrow> fresh (calm hdr body) ring3 n"
    using b by (simp add: fresh_def good_def)
qed

lemma ring3_ring_id: "n < 3 \<Longrightarrow> ring_id (nodes ring3 n) = 5"
  by (drule less_3_cases) (auto simp: node_init_defs)

text \<open>The started ring.\<close>

definition started3 :: "u8 list \<Rightarrow> u8 list \<Rightarrow> sys" where
  "started3 hdr body = (case erps_init (calm hdr body) ring3 of
     Some (r, t) \<Rightarrow> t | None \<Rightarrow> ring3)"

lemma started3:
  "erps_init (calm hdr body) ring3 = Some (0, started3 hdr body)"
  "nnodes (started3 hdr body) = 3" "ring_ok (calm hdr body) (started3 hdr body)"
  "n < 3 \<Longrightarrow> up (calm hdr body) (started3 hdr body) n"
proof -
  have "\<exists>t. erps_init (calm hdr body) ring3 = Some (0, t) \<and> nnodes t = nnodes ring3 \<and>
      ring_ok (calm hdr body) t \<and> (\<forall>n < nnodes ring3. up (calm hdr body) t n) \<and>
      (\<forall>n. node_cfg (nodes t n) = node_cfg (nodes ring3 n))"
    by (rule init_all_up) (auto simp: ring3_fresh ring3_ring_id ERPS_INVALID_RING_def)
  then show "erps_init (calm hdr body) ring3 = Some (0, started3 hdr body)"
    "nnodes (started3 hdr body) = 3" "ring_ok (calm hdr body) (started3 hdr body)"
    "n < 3 \<Longrightarrow> up (calm hdr body) (started3 hdr body) n"
    by (auto simp: started3_def)
qed

text \<open>The owner of the RPL alone, in a given state.\<close>

definition owner1 :: "erps_node_state \<Rightarrow> erps_request \<Rightarrow> bool \<Rightarrow> bool \<Rightarrow> sys" where
  "owner1 st tr b0 b1 = \<lparr>nodes = (\<lambda>n. (ERPS_NODE_INIT dt_owner)\<lparr>state := st, local_topreq := tr,
       ports := (ports (ERPS_NODE_INIT dt_owner))
         (0 := (ports (ERPS_NODE_INIT dt_owner) 0)\<lparr>blocked := b0\<rparr>,
          1 := (ports (ERPS_NODE_INIT dt_owner) 1)\<lparr>blocked := b1\<rparr>)\<rparr>),
     nnodes = 1, hist = [PortSetEnabled 3 (\<not> b0) 0, PortSetEnabled 4 (\<not> b1) 0]\<rparr>"

lemma owner1_idx [simp]: "idx_ok (nodes (owner1 st tr b0 b1) n)"
  by (simp add: owner1_def idx_ok_def node_init_defs)

lemma owner1_role [simp]: "role_ok (nodes (owner1 st tr b0 b1) n)"
  by (simp add: owner1_def role_ok_def node_init_defs)

lemma owner1_good [simp]: "good (calm hdr body) n (owner1 st tr b0 b1)"
  by (simp add: good_def) (simp add: calm_def)

lemma owner1_simps [simp]:
  "state (nodes (owner1 st tr b0 b1) n) = st" "local_topreq (nodes (owner1 st tr b0 b1) n) = tr"
  "nnodes (owner1 st tr b0 b1) = 1" "rpl_owner (nodes (owner1 st tr b0 b1) n)"
  "\<not> rpl_nbr (nodes (owner1 st tr b0 b1) n)" "revertive (nodes (owner1 st tr b0 b1) n)"
  "blocked (lnk (owner1 st tr b0 b1) (n, 0)) = b0"
  "blocked (lnk (owner1 st tr b0 b1) (n, Suc 0)) = b1" "\<not> mutex_held (hist (owner1 st tr b0 b1)) n"
  by (simp_all add: owner1_def lnk_def node_init_defs)

lemma ab_of_owner1 [simp]:
  "ab_state (ab_of z n (owner1 st tr b0 b1)) = st" "ab_top (ab_of z n (owner1 st tr b0 b1)) = tr"
  "ab_blocked (ab_of z n (owner1 st tr b0 b1)) 0 = b0"
  "ab_blocked (ab_of z n (owner1 st tr b0 b1)) (Suc 0) = b1"
  "ab_failed (ab_of z n (owner1 st tr b0 b1)) p = False"
  "ab_owner (ab_of z n (owner1 st tr b0 b1))" "\<not> ab_nbr (ab_of z n (owner1 st tr b0 b1))"
  "ab_revertive (ab_of z n (owner1 st tr b0 b1))"
  "ab_has_rpl (ab_of z n (owner1 st tr b0 b1))"
  by (simp_all add: ab_of_def owner1_def lnk_def node_init_defs ab_has_rpl_def)

lemma owner1_ring_ok:
  assumes "st \<noteq> ERPS_STATE_UNINIT"
    and "tr \<in> {ERPS_REQ_SF, ERPS_REQ_FS, ERPS_REQ_MS, ERPS_REQ_INVALID}"
  shows "ring_ok (calm hdr body) (owner1 st tr b0 b1)"
proof -
  have "hw_sync (calm hdr body) (owner1 st tr b0 b1) 0"
    by (auto simp: hw_sync_def less_2_disj owner1_def lnk_def node_init_defs calm_def)
  moreover have "ifaces_distinct (calm hdr body) (owner1 st tr b0 b1)"
    by (simp add: ifaces_distinct_def all_links_def owner1_def lnk_def node_init_defs calm_def)
  moreover have "tx_ok (nodes (owner1 st tr b0 b1) 0)"
    by (simp add: tx_ok_def owner1_def node_init_defs)
  moreover have "\<not> mutex_held (hist (owner1 st tr b0 b1)) 0"
    by (simp add: owner1_def)
  ultimately show ?thesis
    using assms by (auto simp: ring_ok_def node_ok_def started_def topreq_ok_def)
qed

section \<open>Frames\<close>

text \<open>A received PDU with a given request byte, status and sender; the address of a node.\<close>

definition heard :: "u8 \<Rightarrow> u8 \<Rightarrow> net_eth_addr \<Rightarrow> raps_pdu" where
  "heard rs stat mac = \<lparr>cfm_hdr = \<lparr>mel_ver = 0xe1, opcode = 0x28, flags = 0, tlv_off = 32\<rparr>,
     raps_info = \<lparr>rs_sc = rs, status = stat, node_id = mac, rfu = replicate 24 0\<rparr>, end_tlv = 0\<rparr>"

definition mac_if :: "u8 \<Rightarrow> net_eth_addr" where
  "mac_if i = Eth 2 0 0 0 0 i"

lemma heard_simps [simp]:
  "opcode (cfm_hdr (heard rs stat mac)) = 0x28" "status (raps_info (heard rs stat mac)) = stat"
  "node_id (raps_info (heard rs stat mac)) = mac"
  "raps_pdu_get_req_state (heard rs stat mac) = drop_bit 4 rs"
  by (simp_all add: heard_def raps_pdu_get_req_state_def raps_info_get_req_state_def)

lemma heard_wf [simp]: "raps_pdu_wf (heard rs stat mac)"
  by (simp add: heard_def raps_pdu_wf_def)

lemma calm_carries: "raps_pdu_wf pdu \<Longrightarrow> carries (calm hdr5 (raps_pdu_bytes pdu)) k (parse_vlan_hdr hdr5) pdu"
  using pdu.length_enc [of pdu] by (simp add: carries_def calm_def hdr5_def)

lemma hdr5_fields: "hdr_tpid (parse_vlan_hdr hdr5) = 0x8100" "hdr_tci (parse_vlan_hdr hdr5) = 0x0ffd"
  "mac_last (hdr_dst (parse_vlan_hdr hdr5)) = 5"
  by (simp_all add: parse_vlan_hdr_def hdr5_def be16_def mac_of_bytes_def)

lemma calm_addressed:
  assumes "opcode (cfm_hdr pdu) = 0x28" and "node_id (raps_info pdu) = mac_if i" and "i \<noteq> 3"
  shows "addressed (calm h b) (owner1 st tr b0 b1) n (parse_vlan_hdr hdr5) pdu"
proof -
  have "(0x0ffd :: u16) AND 0xfff = 4093" by code_simp
  then show ?thesis
    using assms
    by (simp add: addressed_def hdr5_fields mac_if_def) (simp add: calm_def owner1_def node_init_defs lnk_def)
qed

lemma owner1_lookup:
  "erps_link_lookup_by_iface (calm h b) (Some 3) (owner1 st tr b0 b1) = Some (0, 0)"
  "erps_link_lookup_by_iface (calm h b) (Some 4) (owner1 st tr b0 b1) = Some (0, 1)"
  by (simp_all add: erps_link_lookup_by_iface_def all_links_def owner1_def calm_def lnk_def
      node_init_defs)

lemma calm_lock [simp]: "k_mutex_lock (calm h b) g n t = 0"
  by (simp add: calm_def)

lemma calm_lookup: "net_if_lookup_by_dev (calm h b) dv = Some dv"
  by (simp add: calm_def)

lemma owner1_raps_ver [simp]: "raps_ver (nodes (owner1 st tr b0 b1) n) = 1"
  by (simp add: owner1_def node_init_defs)

text \<open>The same environment for another node, whose interfaces all have the address ending in 9.\<close>

definition calm9 :: zephyr where
  "calm9 = calm0\<lparr>net_if_get_link_addr := (\<lambda>h i. map_option (\<lambda>i. [2, 0, 0, 0, 0, 9]) i)\<rparr>"

lemma calm9_driver_ok: "driver_ok calm9"
  using calm_driver_ok [of hdr5 "replicate 37 0"]
  by (simp add: driver_ok_def calm9_def)

lemma owner1_good9: "good calm9 n (owner1 st tr b0 b1)"
  using owner1_good [of hdr5 "replicate 37 0" n st tr b0 b1] by (simp add: good_def calm9_def)

lemma calm9_get_data: "net_pkt_get_data calm9 h k \<noteq> None"
  by (simp add: calm9_def calm_def)

lemma calm9_composed:
  assumes "good calm9 n u" and "q < 2" and "composed calm9 (n, q) k u = Some pdu"
  shows "raps_pdu_wf pdu" "opcode (cfm_hdr pdu) = 0x28" "node_id (raps_info pdu) = mac_if 9"
proof -
  from composed_good [OF calm9_driver_ok assms(1,2) calm9_get_data, of k] assms(3)
  show "raps_pdu_wf pdu" "opcode (cfm_hdr pdu) = 0x28" by auto
  from composed_good [OF calm9_driver_ok assms(1,2) calm9_get_data, of k] assms(3)
  have "erps_link_get_node_id calm9 (n, 0) u = Inr (node_id (raps_info pdu))" by auto
  then show "node_id (raps_info pdu) = mac_if 9"
    by (auto simp: erps_link_get_node_id_def calm9_def mac_of_bytes_def mac_if_def
        split: option.splits if_splits)
qed

lemma calm9_hears:
  assumes "good calm9 n u" and "q < 2" and "composed calm9 (n, q) k u = Some pdu"
  shows "hears (calm hdr5 (raps_pdu_bytes pdu)) (Some 4) k' pdu (owner1 st tr b0 b1) 0"
proof -
  note c = calm9_composed [OF assms]
  have "addressed (calm hdr5 (raps_pdu_bytes pdu)) (owner1 st tr b0 b1) 0 (parse_vlan_hdr hdr5) pdu"
    using c(2,3) by (intro calm_addressed [where i = 9]) simp_all
  then show ?thesis
    using calm_carries [OF c(1), of k'] by (auto simp: hears_def owner1_lookup)
qed

text \<open>The same node at the other end of the RPL, with the RPL open and its other port blocked.\<close>

definition nbr1 :: "erps_node_state \<Rightarrow> sys" where
  "nbr1 st = upd_node 0 (\<lambda>nd. nd\<lparr>rpl_owner := False, rpl_nbr := True\<rparr>)
     (owner1 st ERPS_REQ_INVALID True False)"

lemma nbr1_simps [simp]:
  "state (nodes (nbr1 st) 0) = st" "local_topreq (nodes (nbr1 st) 0) = ERPS_REQ_INVALID"
  "\<not> rpl_owner (nodes (nbr1 st) 0)" "rpl_nbr (nodes (nbr1 st) 0)"
  by (simp_all add: nbr1_def upd_node_def)

lemma calm9_hears_nbr:
  assumes "good calm9 n u" and "q < 2" and "composed calm9 (n, q) k u = Some pdu"
  shows "hears (calm hdr5 (raps_pdu_bytes pdu)) (Some 4) k' pdu (nbr1 st) 0"
proof -
  have same: "lnk (nbr1 st) l = lnk (owner1 st ERPS_REQ_INVALID True False) l"
    "ctrl_vid (nodes (nbr1 st) m) = ctrl_vid (nodes (owner1 st ERPS_REQ_INVALID True False) m)"
    "ring_id (nodes (nbr1 st) m) = ring_id (nodes (owner1 st ERPS_REQ_INVALID True False) m)"
    "guard_timer_expiry (nodes (nbr1 st) m) =
      guard_timer_expiry (nodes (owner1 st ERPS_REQ_INVALID True False) m)"
    "nnodes (nbr1 st) = 1" for l m
    by (simp_all add: nbr1_def upd_node_def lnk_def)
  note h = calm9_hears [OF assms, of k' st ERPS_REQ_INVALID True False]
  have "good (calm hdr5 (raps_pdu_bytes pdu)) 0 (nbr1 st)"
    using h unfolding hears_def good_def same
    by (simp add: nbr1_def upd_node_def idx_ok_def role_ok_def)
  then show ?thesis
    using h unfolding hears_def addressed_def same erps_link_lookup_by_iface_def all_links_def
    by simp
qed

section \<open>Two devices\<close>

lemma owner1_sys_ok:
  assumes "st \<noteq> ERPS_STATE_UNINIT"
    and "tr \<in> {ERPS_REQ_SF, ERPS_REQ_FS, ERPS_REQ_MS, ERPS_REQ_INVALID}"
  shows "sys_ok (calm hdr body) (owner1 st tr b0 b1)"
  using owner1_ring_ok [OF assms] by (simp add: sys_ok_def)

text \<open>Two devices: the owner of the RPL, and its neighbour with another address.\<close>

definition calm9_hearing :: "u8 list \<Rightarrow> zephyr" where
  "calm9_hearing body = (calm hdr5 body)\<lparr>net_if_get_link_addr := (\<lambda>h i. map_option (\<lambda>i. [2, 0, 0, 0, 0, 9]) i)\<rparr>"

lemma calm9_hearing_accepts: "env_accepts (calm9_hearing body)"
proof -
  have "driver_ok (calm9_hearing body)"
    using calm_driver_ok [of hdr5 body] by (simp add: driver_ok_def calm9_hearing_def)
  then show ?thesis by (simp add: env_accepts_def) (simp add: calm9_hearing_def calm_def)
qed

lemma calm9_hearing_lookup: "net_if_lookup_by_dev (calm9_hearing body) dv = Some dv"
  by (simp add: calm9_hearing_def calm_def)

lemma owner_starts: "\<exists>s. starts_as calm0 dt_owner (mac_if 3) s"
proof -
  have d: "ifaces_distinct calm0 (erps_boot [dt_owner])" "\<And>dv. net_if_lookup_by_dev calm0 dv \<noteq> None"
    "\<And>d. d \<in> set [dt_owner] \<Longrightarrow> erps_node_build_asserts d \<and> dt_ring_id d \<noteq> None"
    by (simp_all add: calm_lookup ifaces_distinct_def all_links_def erps_boot_def lnk_def ring3_dev)
      (simp_all add: dt_owner_def dt_plain_def)
  have "has_addr calm0 (mac_if 3) (erps_boot [dt_owner])"
    by (simp add: has_addr_def erps_boot_def lnk_def ring3_dev mac_if_def) (simp add: calm_def)
  then show ?thesis
    using boot_up [OF calm_env_accepts d(1,3,2)] d by (auto simp: starts_as_def)
qed

lemma nbr_starts: "\<exists>s. starts_as (calm9_hearing body) dt_nbr (mac_if 9) s"
proof -
  let ?z = "calm9_hearing body"
  have d: "ifaces_distinct ?z (erps_boot [dt_nbr])" "\<And>dv. net_if_lookup_by_dev ?z dv \<noteq> None"
    "\<And>d. d \<in> set [dt_nbr] \<Longrightarrow> erps_node_build_asserts d \<and> dt_ring_id d \<noteq> None"
    by (simp_all add: calm9_hearing_lookup ifaces_distinct_def all_links_def erps_boot_def lnk_def ring3_dev)
      (simp_all add: dt_nbr_def dt_plain_def)
  have "has_addr ?z (mac_if 9) (erps_boot [dt_nbr])"
    by (simp add: has_addr_def erps_boot_def lnk_def ring3_dev mac_if_def calm9_hearing_lookup)
      (simp add: calm9_hearing_def)
  then show ?thesis
    using boot_up [OF calm9_hearing_accepts d(1,3,2)] d calm9_hearing_accepts by (auto simp: starts_as_def)
qed

definition ring2_env :: "u8 list \<Rightarrow> nat \<Rightarrow> zephyr" where
  "ring2_env body m = (if m = 0 then calm0 else calm9_hearing body)"

text \<open>What the owner sends is on the air.\<close>

lemma calm_env:
  "net_pkt_alloc_with_buffer calm0 h i m t = Some 7" "net_linkaddr_copy_src calm0 h k a = 0"
  "net_linkaddr_set_dst calm0 h k b = 0" "net_pkt_get_data calm0 h k = Some (replicate 37 0)"
  "net_pkt_set_data calm0 h k c = 0" "net_pkt_write calm0 h k c = 0"
  "net_if_try_send_data calm0 h i k = NET_OK" "CONFIG_NET_ERPS_PAD_RAPS_PDUS calm0"
  "net_if_is_up calm0 h i"
  by (simp_all add: calm_def)

lemma calm_airs:
  assumes "idx_ok (nodes s n)" and "p < 2"
    and "\<And>u. nodes u = nodes s \<Longrightarrow> erps_link_get_node_id calm0 (n, p) u = Inr mac"
  shows "\<exists>bs. PktSetData 7 bs 0 \<in> set (new_hist s (erps_tx_work calm0 (n, p) s)) \<and>
    aired (new_hist s (erps_tx_work calm0 (n, p) s)) = [raps_pdu_of_bytes bs]"
proof -
  have l: "erps_link_get_node u (n, p) = n" if "nodes u = nodes s" for u
    using assms(1,2) that by (intro get_node_eq) simp_all
  have hist: "\<exists>c bs b src m tm. hist (snd (erps_link_send_pdu calm0 (n, p) i s)) =
      [SendData i 7 NET_OK, PktWrite 7 c 0, PktSetData 7 bs 0, PktSetDst 7 b 0, PktSetSrc 7 src 0,
        PktSetProto 7 0x8902, PktAlloc i m tm (Some 7)] @ hist s" for i
    by (simp add: erps_link_send_pdu_def do_pkt_alloc_def do_set_src_def do_set_dst_def do_send_def
        Let_def erps_raps_create_def do_set_data_def do_pkt_write_def calm_env l assms(3))
  have send: "\<exists>h bs. hist (snd (erps_link_send_pdu calm0 (n, p) i s)) = h @ hist s \<and>
      PktSetData 7 bs 0 \<in> set h \<and> aired h = [raps_pdu_of_bytes bs]" for i
  proof -
    obtain c bs b src m tm where h: "hist (snd (erps_link_send_pdu calm0 (n, p) i s)) =
      [SendData i 7 NET_OK, PktWrite 7 c 0, PktSetData 7 bs 0, PktSetDst 7 b 0, PktSetSrc 7 src 0,
        PktSetProto 7 0x8902, PktAlloc i m tm (Some 7)] @ hist s"
      using hist by blast
    show ?thesis by (intro exI conjI, rule h) simp_all
  qed
  obtain i where "erps_link_tx_single_pdu calm0 (n, p) s = snd (erps_link_send_pdu calm0 (n, p) i s)"
    using l [OF refl] by (simp add: erps_link_tx_single_pdu_def calm_lookup calm_env Let_def)
  with send [of i] obtain h bs where h: "hist (erps_link_tx_single_pdu calm0 (n, p) s) = h @ hist s"
    "PktSetData 7 bs 0 \<in> set h" "aired h = [raps_pdu_of_bytes bs]" by auto
  then show ?thesis using tx_work_new_hist [OF h(1)] by auto
qed

lemma owner_airs:
  assumes "stands calm0 (mac_if 3) Q s" and "posts calm0 s ev p req"
  shows "\<exists>t u pdu. erps_handle calm0 ev s = Some t \<and> erps_handle calm0 (TxTimer 0 1) t = Some u \<and>
    sent (TxTimer 0 1) t u = [pdu] \<and> raps_pdu_wf pdu \<and> opcode (cfm_hdr pdu) = 0x28 \<and>
    node_id (raps_info pdu) = mac_if 3"
proof -
  note q = standsD [OF assms(1)]
  obtain t where t: "erps_handle calm0 ev s = Some t" "sys_ok calm0 t" "sys_step calm0 ev s t"
    using handle_sys_step [OF q(1) postsD(4) [OF assms(2) q(1,4)]] by blast
  have ta: "has_addr calm0 (mac_if 3) t"
    using q(2) t(3) by (simp add: has_addr_def sys_step_def)
  then have idx: "idx_ok (nodes t 0)"
    using sys_okD(3) [OF t(2), of 0] by (simp add: good_def has_addr_def)
  define u where "u = erps_tx_work calm0 (0, 1) t"
  have u: "erps_handle calm0 (TxTimer 0 1) t = Some u" by (simp add: u_def)
  have "erps_link_get_node_id calm0 (0, 1) v = Inr (mac_if 3)" if "nodes v = nodes t" for v
  proof -
    have l: "erps_link_get_node v (0, 1) = 0" using idx that by (intro get_node_eq) simp_all
    show ?thesis
      unfolding erps_link_get_node_id_def l Let_def
      using ta that by (auto simp: has_addr_def lnk_def calm_lookup)
  qed
  from calm_airs [where p = 1, OF idx _ this] obtain pdu where air: "sent (TxTimer 0 1) t u = [pdu]"
    by (auto simp: u_def)
  then obtain buf where pdu: "pdu = erps_raps_fill (nodes t 0) (mac_if 3) buf"
    using sent_fill [OF _ u _ ta t(2), of pdu] ta by (auto simp: has_addr_def)
  have "raps_pdu_wf pdu" "opcode (cfm_hdr pdu) = 0x28" "node_id (raps_info pdu) = mac_if 3"
    by (simp add: pdu) (simp_all add: pdu erps_raps_fill_def)
  with t(1) u air show ?thesis by blast
qed

text \<open>The neighbour hears it.\<close>

lemma nbr_hears:
  assumes "stands (calm9_hearing (raps_pdu_bytes pdu)) (mac_if 9) Q s"
    and cfg: "node_cfg (nodes s 0) = node_cfg (ERPS_NODE_INIT dt_nbr)"
    and "raps_pdu_wf pdu" and "opcode (cfm_hdr pdu) = 0x28" and "node_id (raps_info pdu) = mac_if 3"
  shows "hears (calm9_hearing (raps_pdu_bytes pdu)) (Some 5) k pdu s 0"
    "may_carry (calm9_hearing (raps_pdu_bytes pdu)) k pdu' \<Longrightarrow> pdu' = pdu"
proof -
  let ?z = "calm9_hearing (raps_pdu_bytes pdu)"
  note q = standsD(1,2) [OF assms(1)] and nn = standsD(4) [OF assms(1)]
  have len: "length (raps_pdu_bytes pdu) = 37" using assms(3) pdu.length_enc [of pdu] by simp
  have dev: "dev (lnk s (0, 0)) = 5" "dev (lnk s (0, 1)) = 6" "ctrl_vid (nodes s 0) = 4093" "ring_id (nodes s 0) = 5"
    using cfg by (simp_all add: node_cfg_def lnk_def fun_eq_iff node_init_defs)
  have "carries ?z k (parse_vlan_hdr hdr5) pdu"
    using calm_carries [OF assms(3), of k] by (simp add: carries_def calm9_hearing_def)
  moreover have "(0x0ffd :: u16) AND 0xfff = 4093" by code_simp
  then have "addressed ?z s 0 (parse_vlan_hdr hdr5) pdu"
    using assms(4,5) by (simp add: addressed_def hdr5_fields dev calm9_hearing_lookup mac_if_def)
      (simp add: calm9_hearing_def calm_def)
  moreover have "erps_link_lookup_by_iface ?z (Some 5) s = Some (0, 0)"
    by (simp add: erps_link_lookup_by_iface_def all_links_def nn dev calm9_hearing_def calm_def)
  moreover have "good ?z 0 s" "driver_ok ?z"
    using sys_okD(1,3) [OF q(1), of 0] nn by simp_all
  ultimately show "hears ?z (Some 5) k pdu s 0"
    unfolding hears_def by (auto simp: calm9_hearing_def)
  show "may_carry ?z k pdu' \<Longrightarrow> pdu' = pdu"
    using assms(3) len by (auto simp: may_carry_def calm9_hearing_def calm_def hdr5_def)
qed

section \<open>Devices in a given state\<close>

text \<open>
  The node of a devicetree node in a given state, with a local request in effect, and with these
  ports blocked and failed.
\<close>

definition dev_in :: "dt_node \<Rightarrow> erps_node_state \<Rightarrow> erps_request \<Rightarrow> nat set \<Rightarrow> nat set \<Rightarrow> sys" where
  "dev_in d st tr B F =
     \<lparr>nodes = (\<lambda>n. (ERPS_NODE_INIT d)\<lparr>state := st, local_topreq := tr,
        ports := (\<lambda>p. (ports (ERPS_NODE_INIT d) p)\<lparr>blocked := p \<in> B, failed := p \<in> F\<rparr>)\<rparr>),
      nnodes = 1, hist = map (\<lambda>p. PortSetEnabled (dev (ports (ERPS_NODE_INIT d) p)) (p \<notin> B) 0) [0, 1]\<rparr>"

lemma dev_in_simps [simp]:
  "nnodes (dev_in d st tr B F) = 1" "state (nodes (dev_in d st tr B F) n) = st"
  "local_topreq (nodes (dev_in d st tr B F) n) = tr" "blocked (lnk (dev_in d st tr B F) (n, p)) = (p \<in> B)"
  "failed (lnk (dev_in d st tr B F) (n, p)) = (p \<in> F)"
  "dev (lnk (dev_in d st tr B F) (n, p)) = dev (ports (ERPS_NODE_INIT d) p)"
  "rpl_owner (nodes (dev_in d st tr B F) n) = rpl_owner (ERPS_NODE_INIT d)"
  "rpl_nbr (nodes (dev_in d st tr B F) n) = rpl_nbr (ERPS_NODE_INIT d)"
  "node_cfg (nodes (dev_in d st tr B F) n) = node_cfg (ERPS_NODE_INIT d)"
  by (simp_all add: dev_in_def lnk_def node_cfg_def)

lemma dev_in_stands:
  assumes "d \<in> {dt_owner, dt_nbr}" and "driver_ok z" and "\<And>dv. net_if_lookup_by_dev z dv = Some dv"
    and "has_addr z a (erps_boot [d])" and "st \<noteq> ERPS_STATE_UNINIT"
    and "tr \<in> {ERPS_REQ_SF, ERPS_REQ_INVALID}" and "Q (ab_of z 0 (dev_in d st tr B F))"
  shows "stands z a Q (dev_in d st tr B F)"
proof -
  let ?s = "dev_in d st tr B F"
  have b: "erps_node_build_asserts d" using assms(1) by auto
  have idx: "idx_ok (nodes ?s n)" "role_ok (nodes ?s n)" for n
    using node_cfg_idx_ok [of "nodes ?s n" "ERPS_NODE_INIT d"] node_init_role_ok [OF b]
      node_cfg_role_ok [of "nodes ?s n" "ERPS_NODE_INIT d"] by simp_all
  have dv: "dev (ports (ERPS_NODE_INIT d) 0) \<noteq> dev (ports (ERPS_NODE_INIT d) (Suc 0))"
    using assms(1) by (auto simp: ring3_dev)
  then have "hw_sync z ?s 0"
    by (auto simp: hw_sync_def less_2_disj assms(3)) (auto simp: dev_in_def)
  moreover have "ifaces_distinct z ?s"
    using dv by (simp add: ifaces_distinct_def all_links_def assms(3))
  moreover have "tx_ok (nodes ?s 0)" "\<not> mutex_held (hist ?s) 0"
    using node_init_static(3) [of d] by (simp_all add: tx_ok_def dev_in_def)
  ultimately have "ring_ok z ?s"
    using idx assms(5,6) by (auto simp: ring_ok_def node_ok_def started_def topreq_ok_def)
  moreover have "has_addr z a ?s"
    using assms(4) by (simp add: has_addr_def erps_boot_def lnk_def) (simp add: dev_in_def)
  ultimately show ?thesis
    using idx assms(2,3,7) by (simp add: stands_def sys_ok_def good_def)
qed

text \<open>The owner and its neighbour, in the environments of \<open>ring2_env\<close>.\<close>

lemma owner_in:
  assumes "st \<noteq> ERPS_STATE_UNINIT" and "tr \<in> {ERPS_REQ_SF, ERPS_REQ_INVALID}"
    and "Q (ab_of calm0 0 (dev_in dt_owner st tr B F))"
  shows "stands calm0 (mac_if 3) Q (dev_in dt_owner st tr B F)"
proof -
  obtain s where "starts_as calm0 dt_owner (mac_if 3) s" using owner_starts by blast
  then show ?thesis
    using assms by (intro dev_in_stands) (simp_all add: starts_as_def calm_lookup)
qed

lemma nbr_in:
  assumes "st \<noteq> ERPS_STATE_UNINIT" and "tr \<in> {ERPS_REQ_SF, ERPS_REQ_INVALID}"
    and "Q (ab_of (calm9_hearing body) 0 (dev_in dt_nbr st tr B F))"
  shows "stands (calm9_hearing body) (mac_if 9) Q (dev_in dt_nbr st tr B F)"
proof -
  obtain s where "starts_as (calm9_hearing body) dt_nbr (mac_if 9) s" using nbr_starts by blast
  then show ?thesis
    using assms calm9_hearing_accepts
    by (intro dev_in_stands) (simp_all add: starts_as_def calm9_hearing_lookup env_accepts_def)
qed

lemma ab_of_dev_in [simp]:
  "ab_state (ab_of z n (dev_in d st tr B F)) = st" "ab_top (ab_of z n (dev_in d st tr B F)) = tr"
  "ab_blocked (ab_of z n (dev_in d st tr B F)) p = (p \<in> B)"
  "ab_failed (ab_of z n (dev_in d st tr B F)) p = (p \<in> F)"
  "ab_has_rpl (ab_of z n (dev_in d st tr B F)) = (rpl_owner (ERPS_NODE_INIT d) \<or> rpl_nbr (ERPS_NODE_INIT d))"
  by (simp_all add: ab_of_def ab_has_rpl_def)

text \<open>The two of them in a ring, whose owner speaks.\<close>

definition ring2 :: "sys \<Rightarrow> sys \<Rightarrow> erps_net" where
  "ring2 s r = \<lparr>devs = (\<lambda>m. if m = 0 then s else r), wire = []\<rparr>"

abbreviation addr2 :: "nat \<Rightarrow> net_eth_addr" where
  "addr2 m \<equiv> if m = 0 then mac_if 3 else mac_if 9"

lemma ring2_devs [simp]: "devs (ring2 s r) 0 = s" "devs (ring2 s r) (Suc m) = r" "m \<noteq> 0 \<Longrightarrow> devs (ring2 s r) m = r"
  by (simp_all add: ring2_def)

lemma ring2_env_simps [simp]:
  "ring2_env body 0 = calm0" "ring2_env body (Suc m) = calm9_hearing body"
  "m \<noteq> 0 \<Longrightarrow> ring2_env body m = calm9_hearing body"
  by (simp_all add: ring2_env_def)

lemma ring2_speaks:
  assumes "stands calm0 (mac_if 3) Q s" and "posts calm0 s ev p req"
    and "\<And>body. stands (calm9_hearing body) (mac_if 9) R (r body)"
    and "\<And>body. node_cfg (nodes (r body) 0) = node_cfg (ERPS_NODE_INIT dt_nbr)"
  shows "\<exists>body pdu N1 N2. net_handle (ring2_env body) (0, ev) (ring2 s (r body)) = Some N1 \<and>
    net_handle (ring2_env body) (0, TxTimer 0 1) N1 = Some N2 \<and>
    pdu \<in> set (sent (TxTimer 0 1) (devs N1 0) (devs N2 0)) \<and>
    (\<forall>m. m \<noteq> 0 \<longrightarrow> hears (ring2_env body m) (Some 5) 7 pdu (devs (ring2 s (r body)) m) 0 \<and>
      (\<forall>pdu'. may_carry (ring2_env body m) 7 pdu' \<longrightarrow> pdu' = pdu))"
proof -
  obtain t u pdu where t: "erps_handle calm0 ev s = Some t"
    and u: "erps_handle calm0 (TxTimer 0 1) t = Some u" and air: "sent (TxTimer 0 1) t u = [pdu]"
    and pdu: "raps_pdu_wf pdu" "opcode (cfm_hdr pdu) = 0x28" "node_id (raps_info pdu) = mac_if 3"
    using owner_airs [OF assms(1,2)] by blast
  let ?body = "raps_pdu_bytes pdu" and ?N = "ring2 s (r (raps_pdu_bytes pdu))"
  note hears = nbr_hears [OF assms(3,4) pdu]
  show ?thesis
  proof (intro exI conjI)
    have "sent ev s t = []" using assms(2) by (auto simp: posts_def)
    then show "net_handle (ring2_env ?body) (0, ev) ?N = Some \<lparr>devs = (devs ?N)(0 := t), wire = []\<rparr>"
      using t by (simp add: ring2_def del: erps_handle.simps)
    show "net_handle (ring2_env ?body) (0, TxTimer 0 1) \<lparr>devs = (devs ?N)(0 := t), wire = []\<rparr> =
        Some \<lparr>devs = (devs ?N)(0 := u), wire = [pdu]\<rparr>"
      using u air by (simp del: erps_handle.simps sent.simps)
    show "pdu \<in> set (sent (TxTimer 0 1) (devs \<lparr>devs = (devs ?N)(0 := t), wire = []\<rparr> 0)
        (devs \<lparr>devs = (devs ?N)(0 := u), wire = [pdu]\<rparr> 0))"
      using air by simp
    show "\<forall>m. m \<noteq> 0 \<longrightarrow> hears (ring2_env ?body m) (Some 5) 7 pdu (devs ?N m) 0 \<and>
        (\<forall>pdu'. may_carry (ring2_env ?body m) 7 pdu' \<longrightarrow> pdu' = pdu)"
      using hears by simp
  qed
qed

end
