(* ===== verification/Erps_Props_Fsm.thy ===== *)
theory Erps_Props_Fsm
  imports Erps_Example
begin

text \<open>
  The properties of the state machine: refinement of the table, the priority logic, what the
  requests do, and what holds of any sequence of them.
\<close>

declare raps_req_states [simp del]

text \<open>
  C1. For every state, role and request, when the drivers accept commands, the state machine
  of the sources returns 0 and does exactly what the protection switching table says: the next
  state, the local top request, the ports blocked and failed, the announced message, the
  timers, and the commands given to the outside, in their order.
\<close>

theorem post_implements_table:
  assumes "driver_ok z" and "good z n s" and "p < 2" and "req \<noteq> ERPS_REQ_INVALID"
    and "req = ERPS_REQ_RAPS_NR \<Longrightarrow> pdu \<noteq> None"
  shows "\<exists>s'. erps_fsm_post_locked z (n, p) req pdu s = Some (0, s') \<and> good z n s' \<and>
    ab_of z n s' = g8032 (contest z s n pdu) p req (ab_of z n s)"
  using assms by (rule post_refines)

theorem post_implements_table_witness:
  "\<exists>s'. erps_fsm_post_locked calm0 (0, 0) ERPS_REQ_SF None
      (owner1 ERPS_STATE_IDLE ERPS_REQ_INVALID False True) = Some (0, s') \<and>
    state (nodes s' 0) = ERPS_STATE_PROTECTION \<and> blocked (lnk s' (0, 0)) \<and>
    \<not> blocked (lnk s' (0, 1))"
  using post_implements_table [of calm0 0 "owner1 ERPS_STATE_IDLE ERPS_REQ_INVALID False True" 0
      ERPS_REQ_SF None]
  by (auto simp: ab_of_fields(1-3) [where z = calm0] g8032_def admit_def row_def row_idle_def
      switch_port_def ab_act_defs)

section \<open>Priority\<close>

text \<open>
  A request of a lower priority than the local top request is ignored, whatever the
  environment: the state machine returns 0 and the state is as it was. (A \<open>CLEAR_SF\<close> is not
  compared with the \<open>SF\<close> it ends, and cancels the link-down timer in any case.)
\<close>

lemma lower_priority_ignored:
  assumes "idx_ok (nodes s n)" and "p < 2" and "local_topreq (nodes s n) < req"
    and "req \<noteq> ERPS_REQ_CLEAR_SF"
  shows "erps_fsm_post_locked z (n, p) req pdu s = Some (0, s)"
  using assms
  by (simp add: erps_fsm_post_locked_def numeral_2_eq_2 erps_fsm_post_body_def
      erps_fsm_resolve_req_prio_def Let_def not_less [symmetric])

text \<open>
  C29. A local clear is let through exactly when a local forced or manual switch is in effect
  or the node is the RPL owner; otherwise the priority logic rejects it and nothing changes.
\<close>

theorem clear_admitted_iff:
  "fst (erps_fsm_resolve_req_prio n ERPS_REQ_CLEAR s) =
     (if local_topreq (nodes s n) \<in> {ERPS_REQ_FS, ERPS_REQ_MS} \<or> rpl_owner (nodes s n)
      then 0 else - EBUSY)"
  by (auto simp: erps_fsm_resolve_req_prio_def erps_local_clear_valid_def
      erps_node_is_rpl_owner_def min_def split: erps_request.split)

text \<open>
  C19. The recursion of the state machine through the timers it starts is at most one deep:
  from a node with consistent port indices and roles, no fuel above 1 changes the result, and
  there is a result, whatever the environment answers.
\<close>

theorem post_terminates:
  assumes "idx_ok (nodes s n)" and "role_ok (nodes s n)" and "p < 2"
    and "req = ERPS_REQ_RAPS_NR \<Longrightarrow> pdu \<noteq> None"
  shows "\<exists>r s'. \<forall>k \<ge> 2. erps_fsm_post_locked_fuel k z (n, p) req pdu s = Some (r, s')"
proof -
  have "wp (erps_fsm_post_locked z (n, p) req pdu s) (\<lambda>_ _. True)"
    using assms(4) by (auto intro!: wp_post_locked [OF stable_refl [OF assms(1,2)] assms(3)])
  then obtain r s' where "erps_fsm_post_locked z (n, p) req pdu s = Some (r, s')"
    by (auto simp: wp_iff_Some)
  then have "erps_fsm_post_locked_fuel k z (n, p) req pdu s = Some (r, s')" if "2 \<le> k" for k
    using post_fuel_enough [of "k - 2" z] by (simp only: le_add_diff_inverse2 [OF that])
  then show ?thesis by blast
qed

theorem post_terminates_witness:
  "\<exists>r s'. \<forall>k \<ge> 2. erps_fsm_post_locked_fuel k calm0 (0, 1) ERPS_REQ_CLEAR_SF None
     (owner1 ERPS_STATE_PROTECTION ERPS_REQ_SF False True) = Some (r, s')"
  by (rule post_terminates) simp_all

section \<open>Switching\<close>

text \<open>What blocking and unblocking do to the flags, in any environment.\<close>

lemma block_flags:
  assumes "idx_ok (nodes s n)" and "p < 2" and "erps_link_block z (n, p) s = Some (r, s')"
  shows "r = 0 \<Longrightarrow> blocked (lnk s' (n, p))" "q \<noteq> p \<Longrightarrow> blocked (lnk s' (n, q)) = blocked (lnk s (n, q))"
  using assms(3) unfolding block_eq [OF assms(1,2)]
  by (auto simp: Let_def block_switch_def erps_link_delete_node_id_bpr_def
      split: if_splits option.splits)

lemma wp_on_ok_keep: "P r t \<Longrightarrow> (P 0 t \<Longrightarrow> wp (f t) P) \<Longrightarrow> wp (on_ok r t f) P"
  by (cases "r = 0") simp_all

lemma flush_ports: "erps_flush_fdb z l s = Some (r, s') \<Longrightarrow> nodes s' = nodes s"
  by (auto simp: erps_flush_fdb_def do_mac_flush_def Let_def split: option.splits)

lemma unblock_flags:
  assumes "idx_ok (nodes s n)" and "p < 2" and "erps_link_unblock z (n, p) s = Some (r, s')"
    and "q \<noteq> p"
  shows "blocked (lnk s' (n, q)) = blocked (lnk s (n, q))"
  using assms(3,4) unfolding unblock_eq [OF assms(1,2)]
  by (auto simp: Let_def unblock_switch_def unfail_def split: if_splits option.splits)

lemma blocked_transition [simp]: "blocked (lnk (erps_fsm_transition n st s) l) = blocked (lnk s l)"
  by (simp add: erps_fsm_transition_def lnk_def)

text \<open>
  C20. Break before make: whatever the drivers answer, a forced switch, a manual switch or a
  signal failure on one port never leaves the other port newly opened unless this one is
  blocked.
\<close>

theorem switch_never_opens_first:
  assumes "idx_ok (nodes s n)" and "p < 2" and "raps_req_state_valid rs"
    and "erps_fsm_fs_sf_ms z (n, p) rs st s = Some (r, s')"
    and "blocked (lnk s (n, 1 - p))" and "\<not> blocked (lnk s' (n, 1 - p))"
  shows "blocked (lnk s' (n, p))"
proof -
  let ?safe = "\<lambda>t. blocked (lnk t (n, 1 - p)) \<or> blocked (lnk t (n, p))"
  have q: "1 - p < 2" "p \<noteq> 1 - p" by arith+
  have node: "erps_link_get_node s (n, p) = n" using assms(1,2) by simp
  define P where "P r t \<longleftrightarrow> idx_ok (nodes t n) \<and> ?safe t \<and> (r = (0::int) \<longrightarrow> blocked (lnk t (n, p)))"
    for r t
  have ev: "idx_ok (nodes u n)" if "evolves z n t u" "idx_ok (nodes t n)" for t u
    using evolves_cfg [OF that(1), of n] node_cfg_idx_ok that(2) by blast
  have blk: "wp (if \<not> erps_link_is_blocked s (n, p) then erps_link_block z (n, p) s
      else Some (0, s)) P"
  proof (cases "blocked (lnk s (n, p))")
    case True
    then show ?thesis using assms(1) by (simp add: P_def erps_link_is_blocked_def)
  next
    case False
    have "wp (erps_link_block z (n, p) s) P"
      using evolves_block [OF assms(1,2), of z] assms(5) q(2)
      unfolding wp_iff_Some P_def by (metis block_flags [OF assms(1,2)] ev assms(1))
    then show ?thesis using False by (simp add: erps_link_is_blocked_def)
  qed
  have tx: "wp (erps_node_sched_tx z n rs 0 stat t) P" if "P 0 t" for stat t
    using evolves_sched_tx [of z n rs stat t] that sched_tx_ports(1) [OF assms(3)]
    unfolding wp_iff_Some P_def by (metis ev)
  have un: "wp (erps_link_unblock z (n, 1 - p) t) P" if "P 0 t" for t
    using evolves_unblock [of t n "1 - p" z] that unblock_flags [of t n "1 - p" z _ _ p] q
    unfolding wp_iff_Some P_def by (metis ev)
  have fl: "wp (erps_flush_fdb z l t) P" if "P 0 t" for l t
    using evolves_flush [of z l t n] that flush_ports [of z l t]
    unfolding wp_iff_Some P_def lnk_def by (metis)
  have tr: "P r (erps_fsm_transition n st t)" if "P r t" for r t
    using that by (auto simp: P_def) (simp_all add: erps_fsm_transition_def idx_ok_def)
  have "wp (erps_fsm_fs_sf_ms z (n, p) rs st s) P"
    unfolding erps_fsm_fs_sf_ms_def node Let_def wp_bind prod.case other_port_stable [OF assms(2)]
    by (rule wp_mono [OF blk], rule wp_mono [OF wp_on_ok_keep [OF _ tx]], assumption, assumption,
        rule wp_mono [OF wp_on_ok_keep [OF _ un]], assumption, assumption,
        rule wp_mono [OF wp_on_ok_keep [where P = P]], assumption) (auto intro: tr fl)
  then have "P r s'" using assms(4) by simp
  then show ?thesis using assms(6) by (simp add: P_def)
qed

theorem switch_never_opens_first_witness:
  "\<exists>r s'. erps_fsm_fs_sf_ms calm0 (0, 0) RAPS_SF ERPS_STATE_PROTECTION
      (owner1 ERPS_STATE_IDLE ERPS_REQ_SF False True) = Some (r, s') \<and>
    \<not> blocked (lnk s' (0, 1)) \<and> blocked (lnk s' (0, 0))"
proof -
  let ?s = "owner1 ERPS_STATE_IDLE ERPS_REQ_SF False True"
  have a: "absr calm0 0 (ab_of calm0 0 ?s) ?s" by (simp add: absr_def)
  have "wp (erps_fsm_fs_sf_ms calm0 (0, 0) RAPS_SF ERPS_STATE_PROTECTION ?s)
      (\<lambda>r t. \<not> blocked (lnk t (0, 1)))"
    by (rule sim_fs_sf_ms [OF calm_driver_ok a])
      (auto simp: ab_of_fields(3) [where z = calm0] absr_def switch_port_def ab_act_defs)
  then obtain r t where t: "erps_fsm_fs_sf_ms calm0 (0, 0) RAPS_SF ERPS_STATE_PROTECTION ?s = Some (r, t)"
    "\<not> blocked (lnk t (0, 1))" by (auto simp: wp_iff_Some)
  have "blocked (lnk t (0, 0))"
    using switch_never_opens_first [OF owner1_idx _ valid_states(3) t(1)] t(2)
    by (simp add: owner1_def lnk_def)
  with t show ?thesis by blast
qed

text \<open>
  A signal failure on a port of a node that is not in a forced switch and has no local
  request above it: the node goes to PROTECTION, that port is blocked and marked as failed, the
  other one is open, and R-APS(SF) is announced, with DNF exactly when the port was blocked
  before.
\<close>

lemma signal_fail_protects:
  assumes "driver_ok z" and "good z n s" and "p < 2"
    and "state (nodes s n) \<notin> {ERPS_STATE_FORCED_SWITCH, ERPS_STATE_UNINIT}"
    and "ERPS_REQ_SF \<le> local_topreq (nodes s n)"
  shows "\<exists>s'. erps_fsm_post_locked z (n, p) ERPS_REQ_SF None s = Some (0, s') \<and>
    state (nodes s' n) = ERPS_STATE_PROTECTION \<and> local_topreq (nodes s' n) = ERPS_REQ_SF \<and>
    blocked (lnk s' (n, p)) \<and> failed (lnk s' (n, p)) \<and> \<not> blocked (lnk s' (n, 1 - p)) \<and>
    pdu_mut (nodes s' n) = \<lparr>mut_rs_sc = 0xb0,
      mut_status = (if blocked (lnk s (n, p)) then RAPS_DNF else 0)\<rparr>"
proof -
  have pd: "m = \<lparr>mut_rs_sc = x, mut_status = y\<rparr> \<longleftrightarrow> mut_rs_sc m = x \<and> mut_status m = y" for m x y
    by (cases m) simp
  note table_signal_fail [OF assms(3) assms(4,5) [unfolded ab_of_fields [where z = z]],
      of "contest z s n None"]
  then show ?thesis
    using post_refines [OF assms(1-3), of ERPS_REQ_SF None]
    by (auto simp: pd ab_of_fields [where z = z])
qed

text \<open>
  A forced switch on a port, of a node in any started state but FORCED SWITCH and with no
  clear pending: the node goes to FORCED SWITCH with that port blocked and the other one open,
  whatever had failed before, and R-APS(FS) is announced.
\<close>

lemma forced_switch_blocks:
  assumes "driver_ok z" and "good z n s" and "p < 2"
    and "state (nodes s n) \<notin> {ERPS_STATE_FORCED_SWITCH, ERPS_STATE_UNINIT}"
    and "ERPS_REQ_FS \<le> local_topreq (nodes s n)"
  shows "\<exists>s'. erps_fsm_post_locked z (n, p) ERPS_REQ_FS None s = Some (0, s') \<and>
    state (nodes s' n) = ERPS_STATE_FORCED_SWITCH \<and> local_topreq (nodes s' n) = ERPS_REQ_FS \<and>
    blocked (lnk s' (n, p)) \<and> \<not> blocked (lnk s' (n, 1 - p)) \<and>
    mut_rs_sc (pdu_mut (nodes s' n)) = 0xd0"
proof -
  have "1 - p \<noteq> p" "raps_rs_sc RAPS_FS 0 = 0xd0"
    by arith (simp add: raps_rs_sc_def RAPS_FS_def)
  then show ?thesis
    using post_refines [OF assms(1-3), of ERPS_REQ_FS None] assms(4,5)
    by (cases "ab_state (ab_of z n s)")
      (auto simp: ab_of_fields [where z = z] g8032_def admit_def local_reqs_def row_def
        row_defs switch_port_def stop_timers_def ab_act_defs split: if_splits)
qed

text \<open>
  Reversion: when the WTR timer of the RPL owner expires in PENDING, the owner goes back to
  IDLE with the RPL blocked and the other port open, the WTB timer stopped, and R-APS(NR,RB)
  announced, with DNF exactly when the RPL was blocked already.
\<close>

lemma wtr_expiry_reverts:
  assumes "driver_ok z" and "good z n s" and "rpl_owner (nodes s n)"
    and "state (nodes s n) = ERPS_STATE_PENDING"
    and "ERPS_REQ_WTR_EXPIRES \<le> local_topreq (nodes s n)"
  shows "\<exists>s'. erps_fsm_post_locked z (n, 0) ERPS_REQ_WTR_EXPIRES None s = Some (0, s') \<and>
    state (nodes s' n) = ERPS_STATE_IDLE \<and> blocked (lnk s' (n, 1)) \<and> \<not> blocked (lnk s' (n, 0)) \<and>
    \<not> k_work_delayable_is_pending z (hist s') (WtbWork n) \<and>
    pdu_mut (nodes s' n) = \<lparr>mut_rs_sc = 0,
      mut_status = (if blocked (lnk s (n, 1)) then RAPS_RB OR RAPS_DNF else RAPS_RB)\<rparr>"
proof -
  have pd: "m = \<lparr>mut_rs_sc = x, mut_status = y\<rparr> \<longleftrightarrow> mut_rs_sc m = x \<and> mut_status m = y" for m x y
    by (cases m) simp
  have wtb: "k_work_delayable_is_pending z (hist t) (WtbWork n) = ab_wtb (ab_of z n t)" for t
    by (simp add: ab_of_def)
  note table_wtr_expires [OF assms(3-5) [unfolded ab_of_fields [where z = z]],
      of "contest z s n None" 0]
  then show ?thesis
    using post_refines [OF assms(1,2), of 0 ERPS_REQ_WTR_EXPIRES None]
    by (auto simp: pd wtb ab_of_fields [where z = z])
qed

section \<open>Sequences of requests\<close>

text \<open>Requests posted to a node one after the other, each with the port it comes from.\<close>

fun post_all :: "zephyr \<Rightarrow> nat \<Rightarrow> (nat \<times> erps_request \<times> raps_pdu option) list \<Rightarrow> sys \<Rightarrow> sys option" where
  "post_all z n [] s = Some s"
| "post_all z n ((p, req, pdu) # rs) s = do {
     (_, s) \<leftarrow> erps_fsm_post_locked z (n, p) req pdu s;
     post_all z n rs s
   }"

text \<open>A request a caller of the state machine makes: on a port, valid, and with its PDU.\<close>

definition post_valid :: "nat \<times> erps_request \<times> raps_pdu option \<Rightarrow> bool" where
  "post_valid x \<longleftrightarrow> (case x of (p, req, pdu) \<Rightarrow>
     p < 2 \<and> req \<noteq> ERPS_REQ_INVALID \<and> (req = ERPS_REQ_RAPS_NR \<longrightarrow> pdu \<noteq> None))"

lemma post_all_reverted:
  assumes "driver_ok z" and "list_all post_valid reqs"
    and "rpl_owner (nodes s n) \<Longrightarrow> list_all (\<lambda>(p, req, pdu). req \<noteq> ERPS_REQ_RAPS_NR_RB) reqs"
    and "good z n s" and "rpl_owner (nodes s n) \<or> rpl_nbr (nodes s n)"
    and "ab_reverted (ab_of z n s)"
  shows "\<exists>s'. post_all z n reqs s = Some s' \<and> good z n s' \<and> ab_reverted (ab_of z n s')"
  using assms(2-)
proof (induction reqs arbitrary: s)
  case (Cons x reqs)
  obtain p req pdu where x: "x = (p, req, pdu)" by (cases x)
  have v: "p < 2" "req \<noteq> ERPS_REQ_INVALID" "req = ERPS_REQ_RAPS_NR \<Longrightarrow> pdu \<noteq> None"
    using Cons.prems(1) by (auto simp: x post_valid_def)
  obtain t where t: "erps_fsm_post_locked z (n, p) req pdu s = Some (0, t)" "good z n t"
    "ab_of z n t = g8032 (contest z s n pdu) p req (ab_of z n s)"
    using post_refines [OF assms(1) Cons.prems(3) v] by blast
  have role: "rpl_owner (nodes t n) = rpl_owner (nodes s n)" "rpl_nbr (nodes t n) = rpl_nbr (nodes s n)"
    by (simp_all add: ab_of_fields(7,8) [where z = z] t(3))
  have "ab_reverted (ab_of z n t)"
    unfolding t(3) using Cons.prems(2,4,5)
    by (intro g8032_reverted) (auto simp: x ab_has_rpl_def ab_of_fields(7,8) [where z = z])
  with Cons.IH [of t] Cons.prems(1,2,4) t(1,2) role show ?case by (simp add: x)
qed simp

text \<open>
  At both ends of the RPL, and whatever requests are posted in whatever order, the node is
  never in IDLE with the RPL open or its other port blocked: the ring cannot close into a loop
  while it is idle. (For the owner this needs that no R-APS(NR,RB) arrives from another node,
  since only the owner sends that message.)
\<close>

lemma idle_blocks_rpl:
  assumes "driver_ok z" and "good z n s" and "rpl_owner (nodes s n) \<or> rpl_nbr (nodes s n)"
    and "list_all post_valid reqs"
    and "rpl_owner (nodes s n) \<Longrightarrow> list_all (\<lambda>(p, req, pdu). req \<noteq> ERPS_REQ_RAPS_NR_RB) reqs"
    and "state (nodes s n) = ERPS_STATE_IDLE \<Longrightarrow> blocked (lnk s (n, 1)) \<and> \<not> blocked (lnk s (n, 0))"
  shows "\<exists>s'. post_all z n reqs s = Some s' \<and>
    (state (nodes s' n) = ERPS_STATE_IDLE \<longrightarrow> blocked (lnk s' (n, 1)) \<and> \<not> blocked (lnk s' (n, 0)))"
  using post_all_reverted [OF assms(1,4,5,2,3)] assms(6)
  by (simp add: ab_reverted_def ab_of_fields(1,3) [where z = z]) blast

section \<open>From failure to recovery\<close>

text \<open>The three steps of a recovery, as the table takes them.\<close>

lemma ab_step_failure:
  assumes "ab_state a = ERPS_STATE_IDLE" and "ab_top a = ERPS_REQ_INVALID"
    and "ab_blocked a 1" and "\<not> ab_blocked a 0" and "b = g8032 h 0 ERPS_REQ_SF a"
  shows "ab_state b = ERPS_STATE_PROTECTION" "ab_top b = ERPS_REQ_SF" "ab_wtr b = ab_wtr a"
    "ab_blocked b 0" "\<not> ab_blocked b 1" "ab_owner b = ab_owner a" "ab_revertive b = ab_revertive a"
  using assms
  by (simp_all add: g8032_def admit_def local_reqs_def row_def row_idle_def switch_port_def ab_act_defs)

lemma ab_step_clear:
  assumes "ab_state a = ERPS_STATE_PROTECTION" and "ab_top a = ERPS_REQ_SF" and "reverts a"
    and "\<not> ab_wtr a" and "b = g8032 h 0 ERPS_REQ_CLEAR_SF a"
  shows "ab_state b = ERPS_STATE_PENDING" "ab_top b = ERPS_REQ_WTR_RUNNING" "ab_wtr b"
    "ab_blocked b = ab_blocked a" "ab_owner b = ab_owner a"
  using assms
  by (simp_all add: g8032_def admit_def local_reqs_def req_order row_def row_protection_def
      reverts_def ab_act_defs)

lemma ab_step_restore:
  assumes "ab_state a = ERPS_STATE_PENDING" and "ab_top a = ERPS_REQ_WTR_RUNNING" and "ab_owner a"
    and "\<not> ab_blocked a 1" and "b = g8032 h 0 ERPS_REQ_WTR_EXPIRES a"
  shows "ab_state b = ERPS_STATE_IDLE" "ab_top b = ERPS_REQ_INVALID" "ab_blocked b 1"
    "\<not> ab_blocked b 0" "ab_msg b = (0, RAPS_RB)"
  using assms
  by (simp_all add: g8032_def admit_def local_reqs_def req_order row_def row_pending_def
      block_rpl_def raps_rs_sc_def RAPS_NR_def ab_act_defs)

text \<open>
  C21. A failed link of the RPL owner comes back, and so does the ring: from IDLE, a signal failure
  takes the revertive owner to PROTECTION with the RPL open, its clearing to PENDING with the
  WTR timer running and nothing switched, and the expiry of the timer back to IDLE with the RPL
  blocked again and R-APS(NR,RB) announced.
\<close>

theorem failure_recovery_cycle:
  assumes "driver_ok z" and "good z n s" and "rpl_owner (nodes s n)" and "revertive (nodes s n)"
    and "state (nodes s n) = ERPS_STATE_IDLE" and "local_topreq (nodes s n) = ERPS_REQ_INVALID"
    and "blocked (lnk s (n, 1))" and "\<not> blocked (lnk s (n, 0))"
    and "\<not> k_work_delayable_is_pending z (hist s) (WtrWork n)"
  shows "\<exists>s1 s2 s3.
    erps_fsm_post_locked z (n, 0) ERPS_REQ_SF None s = Some (0, s1) \<and>
    state (nodes s1 n) = ERPS_STATE_PROTECTION \<and> blocked (lnk s1 (n, 0)) \<and> \<not> blocked (lnk s1 (n, 1)) \<and>
    erps_fsm_post_locked z (n, 0) ERPS_REQ_CLEAR_SF None s1 = Some (0, s2) \<and>
    state (nodes s2 n) = ERPS_STATE_PENDING \<and> blocked (lnk s2 (n, 0)) \<and> \<not> blocked (lnk s2 (n, 1)) \<and>
    k_work_delayable_is_pending z (hist s2) (WtrWork n) \<and>
    erps_fsm_post_locked z (n, 0) ERPS_REQ_WTR_EXPIRES None s2 = Some (0, s3) \<and>
    state (nodes s3 n) = ERPS_STATE_IDLE \<and> blocked (lnk s3 (n, 1)) \<and> \<not> blocked (lnk s3 (n, 0)) \<and>
    pdu_mut (nodes s3 n) = \<lparr>mut_rs_sc = 0, mut_status = RAPS_RB\<rparr>"
proof -
  have wtr: "k_work_delayable_is_pending z (hist t) (WtrWork n) = ab_wtr (ab_of z n t)" for t
    by (simp add: ab_of_def)
  have pd: "m = \<lparr>mut_rs_sc = x, mut_status = y\<rparr> \<longleftrightarrow> (mut_rs_sc m, mut_status m) = (x, y)" for m x y
    by (cases m) simp
  note f = ab_of_fields [where z = z and n = n]
  obtain s1 where s1: "erps_fsm_post_locked z (n, 0) ERPS_REQ_SF None s = Some (0, s1)" "good z n s1"
    "ab_of z n s1 = g8032 (contest z s n None) 0 ERPS_REQ_SF (ab_of z n s)"
    using post_refines [OF assms(1,2), of 0 ERPS_REQ_SF None] by auto
  obtain s2 where s2: "erps_fsm_post_locked z (n, 0) ERPS_REQ_CLEAR_SF None s1 = Some (0, s2)" "good z n s2"
    "ab_of z n s2 = g8032 (contest z s1 n None) 0 ERPS_REQ_CLEAR_SF (ab_of z n s1)"
    using post_refines [OF assms(1) s1(2), of 0 ERPS_REQ_CLEAR_SF None] by auto
  obtain s3 where s3: "erps_fsm_post_locked z (n, 0) ERPS_REQ_WTR_EXPIRES None s2 = Some (0, s3)"
    "ab_of z n s3 = g8032 (contest z s2 n None) 0 ERPS_REQ_WTR_EXPIRES (ab_of z n s2)"
    using post_refines [OF assms(1) s2(2), of 0 ERPS_REQ_WTR_EXPIRES None] by auto
  note a = assms(3-9) [unfolded f wtr]
  note a1 = ab_step_failure [OF a(3-6) s1(3)]
  have r: "reverts (ab_of z n s1)" "\<not> ab_wtr (ab_of z n s1)"
    using a(1,2,7) a1 by (simp_all add: reverts_def)
  note a2 = ab_step_clear [OF a1(1,2) r s2(3)]
  have b: "ab_owner (ab_of z n s2)" "\<not> ab_blocked (ab_of z n s2) 1"
    using a(1) a1 a2 by simp_all
  note a3 = ab_step_restore [OF a2(1,2) b s3(2)]
  have "(mut_rs_sc (pdu_mut (nodes s3 n)), mut_status (pdu_mut (nodes s3 n))) = ab_msg (ab_of z n s3)"
    by (simp add: ab_of_def)
  then show ?thesis
    using s1(1) s2(1) s3(1) a1(1,4,5) a2(1,3,4) a3
    by (intro exI [of _ s1] exI [of _ s2] exI [of _ s3]) (simp add: f(1,3) wtr pd)
qed

theorem failure_recovery_cycle_witness:
  "\<exists>s1 s2 s3.
    erps_fsm_post_locked calm0 (0, 0) ERPS_REQ_SF None
      (owner1 ERPS_STATE_IDLE ERPS_REQ_INVALID False True) = Some (0, s1) \<and>
    erps_fsm_post_locked calm0 (0, 0) ERPS_REQ_CLEAR_SF None s1 = Some (0, s2) \<and>
    erps_fsm_post_locked calm0 (0, 0) ERPS_REQ_WTR_EXPIRES None s2 = Some (0, s3) \<and>
    state (nodes s3 0) = ERPS_STATE_IDLE \<and> blocked (lnk s3 (0, 1)) \<and> \<not> blocked (lnk s3 (0, 0))"
proof -
  let ?s = "owner1 ERPS_STATE_IDLE ERPS_REQ_INVALID False True"
  have "\<not> k_work_delayable_is_pending calm0 (hist ?s) (WtrWork 0)"
    by (simp add: calm_def owner1_def)
  with failure_recovery_cycle [of calm0 0 ?s] show ?thesis by auto
qed

section \<open>What the requests get wrong\<close>

text \<open>
  C35. When the second port of a node fails too, the first one is opened and no longer counts as
  failed: the recommendation unblocks only a port that has not failed.
\<close>

theorem second_failure_reopens_first:
  assumes "driver_ok z" and "good z n s" and "p < 2"
    and "state (nodes s n) = ERPS_STATE_PROTECTION" and "local_topreq (nodes s n) = ERPS_REQ_SF"
    and "failed (lnk s (n, 1 - p))" and "blocked (lnk s (n, 1 - p))" and "\<not> blocked (lnk s (n, p))"
  shows "\<exists>s'. erps_fsm_post_locked z (n, p) ERPS_REQ_SF None s = Some (0, s') \<and>
    blocked (lnk s' (n, p)) \<and> failed (lnk s' (n, p)) \<and>
    \<not> blocked (lnk s' (n, 1 - p)) \<and> \<not> failed (lnk s' (n, 1 - p))"
proof -
  have "1 - p \<noteq> p" by arith
  then show ?thesis
    using post_refines [OF assms(1-3), of ERPS_REQ_SF None] assms(4-8)
    by (auto simp: ab_of_fields [where z = z] g8032_def admit_def local_reqs_def row_def
        row_protection_def switch_port_def ab_act_defs)
qed

theorem second_failure_reopens_first_witness:
  "\<exists>s s'. failed (lnk s (0, 0)) \<and> blocked (lnk s (0, 0)) \<and>
    erps_fsm_post_locked calm0 (0, 1) ERPS_REQ_SF None s = Some (0, s') \<and>
    \<not> blocked (lnk s' (0, 0)) \<and> \<not> failed (lnk s' (0, 0))"
proof -
  let ?s = "upd_link (0, 0) (failed_update (\<lambda>_. True)) (owner1 ERPS_STATE_PROTECTION ERPS_REQ_SF True False)"
  have "good calm0 0 ?s"
    by (rule good_evolves [OF owner1_good evolves_upd_link]) simp_all
  then have "\<exists>s'. erps_fsm_post_locked calm0 (0, 1) ERPS_REQ_SF None ?s = Some (0, s') \<and>
    blocked (lnk s' (0, 1)) \<and> failed (lnk s' (0, 1)) \<and>
    \<not> blocked (lnk s' (0, 1 - 1)) \<and> \<not> failed (lnk s' (0, 1 - 1))"
    by (intro second_failure_reopens_first)
      (simp_all add: upd_link_def upd_node_def lnk_def owner1_def node_init_defs)
  moreover have "failed (lnk ?s (0, 0)) \<and> blocked (lnk ?s (0, 0))"
    by (simp add: upd_link_def upd_node_def lnk_def owner1_def node_init_defs)
  ultimately show ?thesis by - (rule exI [of _ ?s], auto)
qed

text \<open>
  C34. A failure of the RPL is never forgotten at its ends. The RPL port of the owner or of its
  neighbour fails and recovers, and the node comes back to IDLE with the RPL blocked; but the port
  still counts as failed, although its link works. When a link of the ring fails elsewhere, the
  node goes to PROTECTION and keeps the RPL blocked: the ring is cut in two places.
\<close>

theorem rpl_failure_sticks:
  assumes "driver_ok z" and "good z n s" and "rpl_owner (nodes s n) \<or> rpl_nbr (nodes s n)"
    and "state (nodes s n) = ERPS_STATE_IDLE" and "local_topreq (nodes s n) = ERPS_REQ_INVALID"
    and "p < 2" and "q < 2"
    and "req = (if rpl_owner (nodes s n) then ERPS_REQ_WTR_EXPIRES else ERPS_REQ_RAPS_NR_RB)"
  shows "\<exists>s1 s2 s3 s4.
    erps_fsm_post_locked z (n, 1) ERPS_REQ_SF None s = Some (0, s1) \<and>
    erps_fsm_post_locked z (n, 1) ERPS_REQ_CLEAR_SF None s1 = Some (0, s2) \<and>
    state (nodes s2 n) = ERPS_STATE_PENDING \<and>
    erps_fsm_post_locked z (n, p) req None s2 = Some (0, s3) \<and> state (nodes s3 n) = ERPS_STATE_IDLE \<and>
    blocked (lnk s3 (n, 1)) \<and> failed (lnk s3 (n, 1)) \<and> local_topreq (nodes s3 n) = ERPS_REQ_INVALID \<and>
    erps_fsm_post_locked z (n, q) ERPS_REQ_RAPS_SF None s3 = Some (0, s4) \<and>
    state (nodes s4 n) = ERPS_STATE_PROTECTION \<and> blocked (lnk s4 (n, 1))"
proof -
  note f = ab_of_fields [where z = z and n = n]
  have role: "\<not> (ab_owner (ab_of z n s) \<and> ab_nbr (ab_of z n s))"
    using assms(2) by (auto simp: good_def role_ok_def ab_of_def)
  obtain s1 where s1: "erps_fsm_post_locked z (n, 1) ERPS_REQ_SF None s = Some (0, s1)" "good z n s1"
    "ab_of z n s1 = g8032 (contest z s n None) 1 ERPS_REQ_SF (ab_of z n s)"
    using post_refines [OF assms(1,2), of 1 ERPS_REQ_SF None] by auto
  obtain s2 where s2: "erps_fsm_post_locked z (n, 1) ERPS_REQ_CLEAR_SF None s1 = Some (0, s2)" "good z n s2"
    "ab_of z n s2 = g8032 (contest z s1 n None) 1 ERPS_REQ_CLEAR_SF (ab_of z n s1)"
    using post_refines [OF assms(1) s1(2), of 1 ERPS_REQ_CLEAR_SF None] by auto
  obtain s3 where s3: "erps_fsm_post_locked z (n, p) req None s2 = Some (0, s3)" "good z n s3"
    "ab_of z n s3 = g8032 (contest z s2 n None) p req (ab_of z n s2)"
    using post_refines [OF assms(1) s2(2) assms(6), of req None] assms(8) by (auto split: if_splits)
  obtain s4 where s4: "erps_fsm_post_locked z (n, q) ERPS_REQ_RAPS_SF None s3 = Some (0, s4)"
    "ab_of z n s4 = g8032 (contest z s3 n None) q ERPS_REQ_RAPS_SF (ab_of z n s3)"
    using post_refines [OF assms(1) s3(2) assms(7), of ERPS_REQ_RAPS_SF None] by auto
  have a1: "ab_state (ab_of z n s1) = ERPS_STATE_PROTECTION" "ab_top (ab_of z n s1) = ERPS_REQ_SF"
    "ab_failed (ab_of z n s1) 1"
    unfolding s1(3) using assms(4,5) by (intro table_signal_fail; simp add: f)+
  note a2 = table_clear_failure [OF a1(1,2), where higher = "contest z s1 n None" and p = 1, folded s2(3)]
  have t2: "ERPS_REQ_WTR_EXPIRES \<le> ab_top (ab_of z n s2)"
    "\<not> ab_owner (ab_of z n s2) \<Longrightarrow> ERPS_REQ_RAPS_NR_RB \<le> ab_top (ab_of z n s2)"
    using a2(5,6) by (auto simp: req_order reverts_def)
  have r: "ab_owner (ab_of z n s2) = ab_owner (ab_of z n s)" "ab_nbr (ab_of z n s2) = ab_nbr (ab_of z n s)"
    by (simp_all add: s2(3) s1(3))
  have a3: "ab_state (ab_of z n s3) = ERPS_STATE_IDLE" "ab_blocked (ab_of z n s3) 1"
    "ab_failed (ab_of z n s3) 1" "ab_top (ab_of z n s3) = ERPS_REQ_INVALID"
    using table_wtr_expires [OF _ a2(1) t2(1), of "contest z s2 n None" p]
      table_idle_again [OF a2(1) t2(2), of "contest z s2 n None" p] assms(3,8) a1(3) a2(3)
    by (auto simp: s3(3) f r split: if_splits)
  have "ab_state (ab_of z n s4) = ERPS_STATE_PROTECTION" "ab_blocked (ab_of z n s4) 1"
    unfolding s4(2) using table_failed_port(1,2) [OF a3(1) _ a3(3)] a3(2,4) by simp_all
  then show ?thesis
    using s1(1) s2(1) s3(1) s4(1) a2(1) a3 by (intro exI conjI) (simp_all add: f)
qed

theorem rpl_failure_sticks_witness:
  "\<exists>s1 s2 s3 s4.
    erps_fsm_post_locked calm0 (0, 1) ERPS_REQ_SF None
      (owner1 ERPS_STATE_IDLE ERPS_REQ_INVALID False True) = Some (0, s1) \<and>
    erps_fsm_post_locked calm0 (0, 1) ERPS_REQ_CLEAR_SF None s1 = Some (0, s2) \<and>
    erps_fsm_post_locked calm0 (0, 0) ERPS_REQ_WTR_EXPIRES None s2 = Some (0, s3) \<and>
    erps_fsm_post_locked calm0 (0, 0) ERPS_REQ_RAPS_SF None s3 = Some (0, s4) \<and>
    state (nodes s4 0) = ERPS_STATE_PROTECTION \<and> blocked (lnk s4 (0, 1))"
proof -
  let ?s = "owner1 ERPS_STATE_IDLE ERPS_REQ_INVALID False True"
  have "\<exists>s1 s2 s3 s4. erps_fsm_post_locked calm0 (0, 1) ERPS_REQ_SF None ?s = Some (0, s1) \<and>
    erps_fsm_post_locked calm0 (0, 1) ERPS_REQ_CLEAR_SF None s1 = Some (0, s2) \<and>
    state (nodes s2 0) = ERPS_STATE_PENDING \<and>
    erps_fsm_post_locked calm0 (0, 0) ERPS_REQ_WTR_EXPIRES None s2 = Some (0, s3) \<and>
    state (nodes s3 0) = ERPS_STATE_IDLE \<and> blocked (lnk s3 (0, 1)) \<and> failed (lnk s3 (0, 1)) \<and>
    local_topreq (nodes s3 0) = ERPS_REQ_INVALID \<and>
    erps_fsm_post_locked calm0 (0, 0) ERPS_REQ_RAPS_SF None s3 = Some (0, s4) \<and>
    state (nodes s4 0) = ERPS_STATE_PROTECTION \<and> blocked (lnk s4 (0, 1))"
    by (rule rpl_failure_sticks) simp_all
  then show ?thesis by blast
qed

text \<open>
  C36. A manual switch requested during a remote failure is not carried out, yet it becomes the
  local top request; the R-APS(NR) that announces the recovery of the ring is then ignored, and
  the node stays in PROTECTION.
\<close>

theorem manual_switch_hides_recovery:
  assumes "idx_ok (nodes s n)" and "p < 2" and "q < 2"
    and "state (nodes s n) = ERPS_STATE_PROTECTION" and "ERPS_REQ_MS \<le> local_topreq (nodes s n)"
  shows "\<exists>s1. erps_fsm_post_locked z (n, p) ERPS_REQ_MS None s = Some (0, s1) \<and>
    state (nodes s1 n) = ERPS_STATE_PROTECTION \<and> ports (nodes s1 n) = ports (nodes s n) \<and>
    (\<forall>pdu. erps_fsm_post_locked z (n, q) ERPS_REQ_RAPS_NR pdu s1 = Some (0, s1))"
proof -
  let ?s1 = "upd_node n (\<lambda>nd. nd\<lparr>local_topreq := ERPS_REQ_MS\<rparr>) s"
  have "erps_fsm_post_locked z (n, p) ERPS_REQ_MS None s = Some (0, ?s1)"
    using assms
    by (simp add: erps_fsm_post_locked_def numeral_2_eq_2 erps_fsm_post_body_def
        erps_fsm_resolve_req_prio_def Let_def erps_fsm_post_protection_def)
  moreover have "idx_ok (nodes ?s1 n)" using assms(1) by (simp add: idx_ok_def)
  then have "erps_fsm_post_locked z (n, q) ERPS_REQ_RAPS_NR pdu ?s1 = Some (0, ?s1)" for pdu
    using assms(3)
    by (simp add: erps_fsm_post_locked_def numeral_2_eq_2 erps_fsm_post_body_def
        erps_fsm_resolve_req_prio_def Let_def req_order)
  ultimately show ?thesis using assms(4) by auto
qed

theorem manual_switch_hides_recovery_witness:
  "\<exists>s1. erps_fsm_post_locked calm0 (0, 0) ERPS_REQ_MS None
      (owner1 ERPS_STATE_PROTECTION ERPS_REQ_INVALID False False) = Some (0, s1) \<and>
    state (nodes s1 0) = ERPS_STATE_PROTECTION \<and>
    (\<forall>pdu. erps_fsm_post_locked calm0 (0, 0) ERPS_REQ_RAPS_NR pdu s1 = Some (0, s1))"
  using manual_switch_hides_recovery [of "owner1 ERPS_STATE_PROTECTION ERPS_REQ_INVALID False False" 0 0 0 calm0]
  by auto

end
