(* ===== verification/Erps_Props_Wire.thy ===== *)
theory Erps_Props_Wire
  imports Erps_Example
begin

text \<open>
  The properties of the wire: what reception reads of a PDU, what a node announces and what another
  one decodes, the bursts of the transmitter, what the receiver drops, who owns a packet, and the
  contest of two nodes that announce R-APS(NR).
\<close>

declare raps_req_states [simp del]

section \<open>PDUs\<close>

text \<open>Two PDUs that agree in what the receiver looks at.\<close>

definition same_to_receiver :: "raps_pdu \<Rightarrow> raps_pdu \<Rightarrow> bool" where
  "same_to_receiver a b \<longleftrightarrow> opcode (cfm_hdr a) = opcode (cfm_hdr b) \<and>
     rs_sc (raps_info a) = rs_sc (raps_info b) \<and> status (raps_info a) = status (raps_info b) \<and>
     node_id (raps_info a) = node_id (raps_info b)"

lemma same_accessors:
  assumes "same_to_receiver a b"
  shows "raps_pdu_rb a = raps_pdu_rb b" "raps_pdu_dnf a = raps_pdu_dnf b"
    "raps_pdu_bpr a = raps_pdu_bpr b" "raps_pdu_get_req_state a = raps_pdu_get_req_state b"
    "raps_pdu_get_subcode a = raps_pdu_get_subcode b" "raps_pdu_status a = raps_pdu_status b"
    "node_id (raps_info a) = node_id (raps_info b)" "status (raps_info a) = status (raps_info b)"
    "opcode (cfm_hdr a) = opcode (cfm_hdr b)"
  using assms
  by (simp_all add: same_to_receiver_def bit_flags raps_pdu_get_req_state_def
      raps_info_get_req_state_def raps_pdu_get_subcode_def raps_info_get_subcode_def
      raps_pdu_status_def)

text \<open>The state machine sees no more of a PDU than the node identifier.\<close>

lemma post_same:
  assumes "node_id (raps_info a) = node_id (raps_info b)"
  shows "erps_fsm_post z l req (Some a) s = erps_fsm_post z l req (Some b) s"
proof -
  have c: "erps_fsm_maybe_unblock_and_stop z l (Some a) s = erps_fsm_maybe_unblock_and_stop z l (Some b) s"
    for s
    unfolding erps_fsm_maybe_unblock_and_stop_def option.case assms by (rule refl)
  have i: "erps_fsm_post_idle z l req (Some a) s = erps_fsm_post_idle z l req (Some b) s"
    and p: "erps_fsm_post_pending z l req (Some a) s = erps_fsm_post_pending z l req (Some b) s" for s
    unfolding erps_fsm_post_idle_def erps_fsm_raps_nr_idle_def erps_fsm_post_pending_def
      erps_fsm_raps_nr_pending_def c by (rule refl)+
  have body: "erps_fsm_post_body post z l req (Some a) s = erps_fsm_post_body post z l req (Some b) s"
    for post s
    unfolding erps_fsm_post_body_def i p by (rule refl)
  have locked: "erps_fsm_post_locked z l req (Some a) s = erps_fsm_post_locked z l req (Some b) s" for s
    unfolding erps_fsm_post_locked_def numeral_2_eq_2 erps_fsm_post_locked_fuel.simps by (rule body)
  show ?thesis unfolding erps_fsm_post_def locked by (rule refl)
qed

lemma recv_same:
  assumes "same_to_receiver a b"
  shows "erps_raps_recv z l a s = erps_raps_recv z l b s"
    and "erps_is_local_raps_frame z l a s = erps_is_local_raps_frame z l b s"
proof -
  note same = same_accessors [OF assms]
  have flush: "erps_raps_node_id_bpr_flush z l req a s = erps_raps_node_id_bpr_flush z l req b s"
    for req s
    unfolding erps_raps_node_id_bpr_flush_def same by (rule refl)
  have post: "erps_fsm_post z l req (Some a) s = erps_fsm_post z l req (Some b) s" for req s
    using same(7) by (rule post_same)
  have req: "erps_raps_recv_req z l req a s = erps_raps_recv_req z l req b s" for req s
    unfolding erps_raps_recv_req_def flush post by (rule refl)
  have event: "erps_handle_raps_event z l a s = erps_handle_raps_event z l b s" for s
    unfolding erps_handle_raps_event_def same by (rule refl)
  show "erps_raps_recv z l a s = erps_raps_recv z l b s"
    unfolding erps_raps_recv_def req event same by (rule refl)
  show "erps_is_local_raps_frame z l a s = erps_is_local_raps_frame z l b s"
    unfolding erps_is_local_raps_frame_def same by (rule refl)
qed

lemma decoded_node_id:
  assumes "length bs = 37"
  shows "node_id (raps_info (raps_pdu_of_bytes bs)) = Eth (bs ! 6) (bs ! 7) (bs ! 8) (bs ! 9) (bs ! 10) (bs ! 11)"
proof -
  have "take 6 (drop 6 bs) = [bs ! 6, bs ! 7, bs ! 8, bs ! 9, bs ! 10, bs ! 11]"
    using assms by (simp add: take_map_nth upt_rec)
  then show ?thesis by (simp add: raps_pdu_of_bytes_def mac_of_bytes_def)
qed

text \<open>
  C25. What reception takes from the 37 bytes of a PDU, by their offsets: the opcode from byte 1,
  request and sub-code from the halves of byte 4, RB, DNF and BPR from bits 7, 6 and 5 of byte 5,
  the sender from bytes 6 to 11. And nothing else: whatever the level and version, the flags, the
  TLV offset, the reserved bytes and the end TLV hold, the verdict, the state and every call to
  the kernel and the drivers are the same.
\<close>

theorem reception_reads_bytes:
  assumes "length bs = 37"
  shows "opcode (cfm_hdr (raps_pdu_of_bytes bs)) = bs ! 1 \<and>
    raps_pdu_get_req_state (raps_pdu_of_bytes bs) = drop_bit 4 (bs ! 4) \<and>
    raps_pdu_get_subcode (raps_pdu_of_bytes bs) = bs ! 4 AND 0x0F \<and>
    raps_pdu_rb (raps_pdu_of_bytes bs) = bit (bs ! 5) 7 \<and>
    raps_pdu_dnf (raps_pdu_of_bytes bs) = bit (bs ! 5) 6 \<and>
    raps_pdu_bpr (raps_pdu_of_bytes bs) = bit (bs ! 5) 5 \<and>
    mac_bytes (node_id (raps_info (raps_pdu_of_bytes bs))) =
      [bs ! 6, bs ! 7, bs ! 8, bs ! 9, bs ! 10, bs ! 11] \<and>
    (length bs' = 37 \<and> bs' ! 1 = bs ! 1 \<and> take 8 (drop 4 bs') = take 8 (drop 4 bs) \<longrightarrow>
     erps_is_local_raps_frame z l (raps_pdu_of_bytes bs') s =
       erps_is_local_raps_frame z l (raps_pdu_of_bytes bs) s \<and>
     erps_raps_recv z l (raps_pdu_of_bytes bs') s = erps_raps_recv z l (raps_pdu_of_bytes bs) s)"
proof -
  have "same_to_receiver (raps_pdu_of_bytes bs') (raps_pdu_of_bytes bs)"
    if "length bs' = 37" "bs' ! 1 = bs ! 1" "take 8 (drop 4 bs') = take 8 (drop 4 bs)"
  proof -
    have n: "bs' ! (4 + k) = bs ! (4 + k)" if "k < 8" for k
      using that \<open>length bs' = 37\<close> assms nth_take [of k 8 "drop 4 bs'"] nth_take [of k 8 "drop 4 bs"]
        \<open>take 8 (drop 4 bs') = take 8 (drop 4 bs)\<close> by simp
    from n [of 0] n [of 1] n [of 2] n [of 3] n [of 4] n [of 5] n [of 6] n [of 7] that(2)
    show ?thesis
      unfolding same_to_receiver_def decoded_node_id [OF assms] decoded_node_id [OF that(1)]
      by (simp add: raps_pdu_of_bytes_def)
  qed
  moreover have "rs_sc (raps_info (raps_pdu_of_bytes bs)) = bs ! 4"
    "status (raps_info (raps_pdu_of_bytes bs)) = bs ! 5" "opcode (cfm_hdr (raps_pdu_of_bytes bs)) = bs ! 1"
    by (simp_all add: raps_pdu_of_bytes_def)
  ultimately show ?thesis
    using recv_same
    by (simp add: decoded_node_id [OF assms] bit_flags raps_pdu_get_req_state_def
        raps_info_get_req_state_def raps_pdu_get_subcode_def raps_info_get_subcode_def
        RAPS_RS_SHIFT_def RAPS_SC_MASK_def)
qed

theorem reception_reads_bytes_witness:
  "erps_raps_recv calm0 (0, 0) (raps_pdu_of_bytes
      ([0xFF, 0x28, 0xFF, 0xFF, 0xB0, 0x20, 2, 0, 0, 0, 0, 9] @ replicate 24 0xFF @ [0xFF])) ring3 =
   erps_raps_recv calm0 (0, 0) (raps_pdu_of_bytes
      ([0x20, 0x28, 0, 32, 0xB0, 0x20, 2, 0, 0, 0, 0, 9] @ replicate 24 0 @ [0])) ring3"
  by (rule reception_reads_bytes [THEN conjunct2, THEN conjunct2, THEN conjunct2, THEN conjunct2,
        THEN conjunct2, THEN conjunct2, THEN conjunct2, THEN mp, THEN conjunct2]) simp_all

text \<open>What the composer leaves in the packet.\<close>

lemma create_writes:
  assumes "idx_ok (nodes s n)" and "p < 2" and "net_pkt_get_data z (hist s) pkt = Some buf"
    and "erps_link_get_node_id z (n, p) s = Inr mac"
  shows "\<exists>r. PktSetData pkt (raps_pdu_bytes (erps_raps_fill (nodes s n) mac (raps_pdu_of_bytes buf))) r
    \<in> set (hist (snd (erps_raps_create z (n, p) pkt s)))"
  using assms(3,4) get_node_eq [OF assms(1,2)]
  by (auto simp: erps_raps_create_def do_set_data_def do_pkt_write_def Let_def)

text \<open>
  C27. The 37 bytes of a composed PDU: level and version, opcode, flags, TLV offset 32, the
  announced request and status (with the blocked port reference while in PROTECTION), the node
  identifier, 24 zeros. Only the last byte, the end TLV, is whatever the buffer held.
\<close>

theorem created_pdu_bytes:
  assumes "idx_ok (nodes s n)" and "p < 2" and "net_pkt_get_data z (hist s) pkt = Some buf"
    and "erps_link_get_node_id z (n, p) s = Inr mac"
  shows "\<exists>r. PktSetData pkt
     ([push_bit 5 (raps_mel (nodes s n)) OR raps_ver (nodes s n), 0x28, 0, 32,
       mut_rs_sc (pdu_mut (nodes s n)),
       (if state (nodes s n) = ERPS_STATE_PROTECTION \<and> blocked (lnk s (n, 1))
        then mut_status (pdu_mut (nodes s n)) OR 0x20 else mut_status (pdu_mut (nodes s n)))] @
      mac_bytes mac @ replicate 24 0 @ [buf ! 36]) r
    \<in> set (hist (snd (erps_raps_create z (n, p) pkt s)))"
proof -
  have "raps_pdu_bytes (erps_raps_fill (nodes s n) mac (raps_pdu_of_bytes buf)) =
     [push_bit 5 (raps_mel (nodes s n)) OR raps_ver (nodes s n), 0x28, 0, 32,
       mut_rs_sc (pdu_mut (nodes s n)),
       (if state (nodes s n) = ERPS_STATE_PROTECTION \<and> blocked (lnk s (n, 1))
        then mut_status (pdu_mut (nodes s n)) OR 0x20 else mut_status (pdu_mut (nodes s n)))] @
      mac_bytes mac @ replicate 24 0 @ [buf ! 36]"
    by (simp add: raps_pdu_bytes_def erps_raps_fill_def raps_cfm_hdr_bytes_def
        raps_spc_info_bytes_def lnk_def raps_pdu_of_bytes_def)
  then show ?thesis using create_writes [OF assms] by simp
qed

theorem created_pdu_bytes_witness:
  "\<exists>r. PktSetData 7 ([224 OR 1, 0x28, 0, 32, 0, 0, 2, 0, 0, 0, 0, 3] @ replicate 24 0 @ [0]) r
    \<in> set (hist (snd (erps_raps_create calm0 (0, 1) 7 (owner1 ERPS_STATE_IDLE ERPS_REQ_INVALID False True))))"
proof -
  let ?s = "owner1 ERPS_STATE_IDLE ERPS_REQ_INVALID False True"
  have id: "erps_link_get_node_id calm0 (0, 1) ?s = Inr (Eth 2 0 0 0 0 3)"
    unfolding erps_link_get_node_id_def get_node_eq [OF owner1_idx less_2_disj [THEN iffD2, OF disjI2, OF refl]] Let_def
    by (simp add: calm_def owner1_def node_init_defs mac_of_bytes_def)
  have d: "net_pkt_get_data calm0 (hist ?s) 7 = Some (replicate 37 0)"
    by (simp add: calm_def)
  from created_pdu_bytes [OF owner1_idx _ d id] show ?thesis
    by (simp add: owner1_def node_init_defs)
qed

text \<open>The nibble of every request that can be announced.\<close>

lemma valid_nibble: "raps_req_state_valid rs \<Longrightarrow> rs < 16"
  by (auto simp: raps_req_state_valid_def raps_req_states)

text \<open>What scheduling an announcement leaves in the node.\<close>

lemma sched_ports_node: "nodes (snd (erps_node_sched_ports z n is r s)) = nodes s"
  by (induction "is" arbitrary: r s) (auto simp: do_reschedule_def Let_def)

lemma sched_tx_prep:
  assumes "raps_req_state_valid rs" and "sc = 0 \<or> rs = RAPS_EVENT"
  shows "erps_node_sched_tx z n rs sc stat s =
    (let (ret, s) = erps_node_sched_ports z n [0, 1] 0 (sched_prep n (raps_rs_sc rs sc) stat s)
     in Some (if ret < 0 then ret else 0, s))"
proof -
  have g: "\<not> (sc \<noteq> 0 \<and> rs \<noteq> RAPS_EVENT)" using assms(2) by blast
  show ?thesis
    unfolding erps_node_sched_tx_def if_not_P [OF g] sched_prep_def using assms(1)
    by (simp add: Let_def)
qed

lemma sched_tx_node:
  assumes "erps_node_sched_tx z n rs sc stat s = Some (r, s')"
    and "raps_req_state_valid rs" and "sc = 0 \<or> rs = RAPS_EVENT"
  shows "pdu_mut (nodes s' n) = \<lparr>mut_rs_sc = raps_rs_sc rs sc, mut_status = stat\<rparr>"
    "p < 2 \<Longrightarrow> tx_burst (lnk s' (n, p)) =
      (if pdu_mut (nodes s n) = \<lparr>mut_rs_sc = raps_rs_sc rs sc, mut_status = stat\<rparr> then 0 else 2)"
    "state (nodes s' n) = state (nodes s n)" "blocked (lnk s' l) = blocked (lnk s l)"
    "idx_ok (nodes s' n) = idx_ok (nodes s n)"
proof -
  have eq: "pdu_mut nd = \<lparr>mut_rs_sc = x, mut_status = y\<rparr> \<longleftrightarrow>
      \<not> (mut_rs_sc (pdu_mut nd) \<noteq> x \<or> mut_status (pdu_mut nd) \<noteq> y)" for nd x y
    by (cases "pdu_mut nd") simp
  have "s' = snd (erps_node_sched_ports z n [0, 1] 0 (sched_prep n (raps_rs_sc rs sc) stat s))"
    using assms(1) unfolding sched_tx_prep [OF assms(2,3)]
    by (auto simp: case_prod_unfold Let_def simp del: erps_node_sched_ports.simps)
  then have t: "nodes s' = nodes (sched_prep n (raps_rs_sc rs sc) stat s)"
    by (simp only: sched_ports_node)
  show "pdu_mut (nodes s' n) = \<lparr>mut_rs_sc = raps_rs_sc rs sc, mut_status = stat\<rparr>"
    "p < 2 \<Longrightarrow> tx_burst (lnk s' (n, p)) =
      (if pdu_mut (nodes s n) = \<lparr>mut_rs_sc = raps_rs_sc rs sc, mut_status = stat\<rparr> then 0 else 2)"
    "state (nodes s' n) = state (nodes s n)" "blocked (lnk s' l) = blocked (lnk s l)"
    "idx_ok (nodes s' n) = idx_ok (nodes s n)"
    unfolding lnk_def t eq
    by (auto simp: sched_prep_def Let_def upd_link_def upd_node_def emit_def less_2_disj ERPS_RAPS_BURST_def idx_ok_def)
qed

lemma bpr_bits: "bit (RAPS_BPR :: u8) 7 = False" "bit RAPS_BPR 6 = False" "bit RAPS_BPR 5 = True"
  by (simp_all add: RAPS_BPR_def bit_simps del: raps_status_bits)

text \<open>
  C11. What a node announces is what another one reads: after an announcement has been scheduled,
  the PDU composed on either port decodes, on the other side of the wire, to the opcode, the
  request, the RB and DNF bits that were announced and the sender's identifier; the blocked port
  reference says that the sender is in PROTECTION with port 1 blocked.
\<close>

theorem announcement_is_received:
  assumes "idx_ok (nodes s n)" and "p < 2" and "raps_req_state_valid rs"
    and "erps_node_sched_tx z n rs 0 stat s = Some (r, s')" and "\<not> bit stat 5"
    and "net_pkt_get_data z (hist s') pkt = Some buf"
    and "erps_link_get_node_id z (n, p) s' = Inr mac"
  shows "\<exists>bs r. PktSetData pkt bs r \<in> set (hist (snd (erps_raps_create z (n, p) pkt s'))) \<and>
    length bs = 37 \<and> opcode (cfm_hdr (raps_pdu_of_bytes bs)) = RAPS_OPCODE \<and>
    raps_pdu_get_req_state (raps_pdu_of_bytes bs) = rs \<and>
    raps_pdu_get_subcode (raps_pdu_of_bytes bs) = 0 \<and>
    raps_pdu_rb (raps_pdu_of_bytes bs) = bit stat 7 \<and>
    raps_pdu_dnf (raps_pdu_of_bytes bs) = bit stat 6 \<and>
    raps_pdu_bpr (raps_pdu_of_bytes bs) =
      (state (nodes s n) = ERPS_STATE_PROTECTION \<and> blocked (lnk s (n, 1))) \<and>
    node_id (raps_info (raps_pdu_of_bytes bs)) = mac"
proof -
  note sched = sched_tx_node [OF assms(4,3) disjI1 [OF refl]]
  let ?pdu = "erps_raps_fill (nodes s' n) mac (raps_pdu_of_bytes buf)"
  have "idx_ok (nodes s' n)" using assms(1) sched(5) by simp
  note w = create_writes [OF this assms(2,6,7)]
  have "rs_sc (raps_info ?pdu) = raps_rs_sc rs 0"
    by (simp add: erps_raps_fill_def sched(1))
  note nib = raps_rs_sc_nibbles [OF valid_nibble [OF assms(3)] _ this]
  have st: "status (raps_info ?pdu) = (if state (nodes s n) = ERPS_STATE_PROTECTION \<and>
      blocked (lnk s (n, 1)) then stat OR RAPS_BPR else stat)"
    using sched(4) [of "(n, 1)"]
    by (simp add: erps_raps_fill_def sched(1,3) lnk_def del: raps_status_bits)
  have "raps_pdu_rb ?pdu = bit stat 7" "raps_pdu_dnf ?pdu = bit stat 6"
    "raps_pdu_bpr ?pdu = (state (nodes s n) = ERPS_STATE_PROTECTION \<and> blocked (lnk s (n, 1)))"
    unfolding bit_flags st using assms(5) by (auto simp: bit_or_iff bpr_bits simp del: raps_status_bits)
  moreover have "opcode (cfm_hdr ?pdu) = RAPS_OPCODE" "node_id (raps_info ?pdu) = mac"
    by (simp_all add: erps_raps_fill_def)
  moreover have "raps_pdu_get_req_state ?pdu = rs" "raps_pdu_get_subcode ?pdu = 0"
    using nib by (simp_all add: raps_pdu_get_req_state_def raps_pdu_get_subcode_def)
  moreover have "length (raps_pdu_bytes ?pdu) = 37"
    using pdu.length_enc [OF fill_wf] by simp
  ultimately show ?thesis using w fill_decoded by metis
qed

theorem announcement_is_received_witness:
  "\<exists>r s' bs r'. erps_node_sched_tx calm0 0 RAPS_SF 0 0x40
      (owner1 ERPS_STATE_PROTECTION ERPS_REQ_SF False True) = Some (r, s') \<and>
    PktSetData 7 bs r' \<in> set (hist (snd (erps_raps_create calm0 (0, 1) 7 s'))) \<and>
    raps_pdu_get_req_state (raps_pdu_of_bytes bs) = RAPS_SF \<and>
    raps_pdu_dnf (raps_pdu_of_bytes bs) \<and> raps_pdu_bpr (raps_pdu_of_bytes bs)"
proof -
  let ?s = "owner1 ERPS_STATE_PROTECTION ERPS_REQ_SF False True"
  obtain r s' where s': "erps_node_sched_tx calm0 0 RAPS_SF 0 0x40 ?s = Some (r, s')"
    "stable calm0 0 ?s s'"
    using wp_sched_tx [of calm0 0 ?s ?s "\<lambda>_. stable calm0 0 ?s" RAPS_SF "0x40"]
    by (auto simp: wp_iff_Some stable_refl)
  have l: "net_if_lookup_by_dev calm0 d = Some d" for d by (simp add: calm_def)
  have a: "net_if_get_link_addr calm0 h (Some i) = Some [2, 0, 0, 0, 0, of_nat i]" for h i
    by (simp add: calm_def)
  have "dev (ports (nodes s' 0) 0) = 3"
    using evolves_dev [OF stable_evolves [OF s'(2)], of "(0, 0)"]
    by (simp add: lnk_def owner1_def node_init_defs)
  then have id: "erps_link_get_node_id calm0 (0, 1) s' = Inr (Eth 2 0 0 0 0 3)"
    using stable_get_node [OF s'(2), of 1]
    by (simp add: erps_link_get_node_id_def l a mac_of_bytes_def)
  have d: "net_pkt_get_data calm0 (hist s') 7 = Some (replicate 37 0)"
    by (simp add: calm_def)
  have "raps_req_state_valid RAPS_SF" by (simp add: raps_req_state_valid_def)
  from announcement_is_received [OF owner1_idx _ this s'(1) _ d id] s'(1) show ?thesis
    by (auto simp: bit_simps)
qed

text \<open>
  A burst is three PDUs: an announcement that differs from the one before sets the burst
  counters of both ports to 2, one that repeats it sets them to 0.
\<close>

lemma new_announcement_bursts:
  assumes "erps_node_sched_tx z n rs 0 stat s = Some (r, s')" and "raps_req_state_valid rs"
    and "p < 2"
  shows "tx_burst (lnk s' (n, p)) =
      (if pdu_mut (nodes s n) = \<lparr>mut_rs_sc = raps_rs_sc rs 0, mut_status = stat\<rparr> then 0 else 2) \<and>
    pdu_mut (nodes s' n) = \<lparr>mut_rs_sc = raps_rs_sc rs 0, mut_status = stat\<rparr>"
  using sched_tx_node(1,2) [OF assms(1,2) disjI1 [OF refl]] assms(3) by simp

text \<open>
  C31. An announcement is not lost while the interface of a port is down: nothing is scheduled on
  that port, and when the interface comes up a new announcement still starts with its burst.
\<close>

theorem deferred_announcement_sent:
  assumes "driver_ok z" and "good z n s" and "p < 2" and "raps_req_state_valid rs"
    and "erps_node_sched_tx z n rs 0 stat s = Some (r, s')"
    and "pdu_mut (nodes s n) \<noteq> \<lparr>mut_rs_sc = raps_rs_sc rs 0, mut_status = stat\<rparr>"
    and "net_if_lookup_by_dev z (dev (lnk s (n, p))) = Some i"
    and "net_if_lookup_by_dev z (dev (lnk s (n, 1 - p))) \<noteq> Some i"
    and "\<And>h. \<not> net_if_is_up z h (Some i)"
  shows "last_delay (hist s') (TxWork n p) = None \<and>
    last_delay (hist (erps_iface_up_cb z n True (Some i) s')) (TxWork n p) = Some (K_USEC 1)"
proof -
  let ?t = "sched_prep n (raps_rs_sc rs 0) stat s"
  note node = sched_tx_node [OF assms(5,4) disjI1 [OF refl]]
  have s': "s' = snd (erps_node_sched_ports z n [0, 1] 0 ?t)"
    using assms(5) unfolding sched_tx_prep [OF assms(4) disjI1 [OF refl]]
    by (auto simp: case_prod_unfold Let_def simp del: erps_node_sched_ports.simps)
  have dev: "dev (lnk s' l) = dev (lnk s l)" "dev (lnk ?t l) = dev (lnk s l)" for l
    unfolding s' lnk_def sched_ports_node
    by (auto simp: sched_prep_def Let_def upd_link_def upd_node_def emit_def)
  have ok: "0 \<le> k_work_reschedule z h w t" for h w t
    using assms(1) by (simp add: driver_ok_def)
  have "last_delay (hist ?t) (TxWork n q) = None" if "q < 2" for q
    using that by (auto simp: sched_prep_def Let_def less_2_disj)
  then have "last_delay (hist s') (TxWork n p) = None"
    unfolding s' using assms(3,7,9) dev(2) by (auto simp: less_2_disj do_reschedule_def ok Let_def)
  moreover have "tx_burst (lnk s' (n, p)) = 2" using node(2) [OF assms(3)] assms(6) by simp
  ultimately show ?thesis
    using assms(3,7,8) by (auto simp: erps_iface_up_cb_def dev Let_def less_2_disj do_reschedule_def ok
      erps_tx_delay_def ERPS_TX_BURST_PERIOD_def)
qed

text \<open>The calm environment with the first interface of the owner down.\<close>

definition calm_down :: zephyr where
  "calm_down = calm0\<lparr>net_if_is_up := (\<lambda>h i. i \<noteq> Some 3)\<rparr>"

theorem deferred_announcement_sent_witness:
  "\<exists>r s'. erps_node_sched_tx calm_down 0 RAPS_SF 0 0
      (owner1 ERPS_STATE_PROTECTION ERPS_REQ_SF False True) = Some (r, s') \<and>
    last_delay (hist (erps_iface_up_cb calm_down 0 True (Some 3) s')) (TxWork 0 0) = Some (K_USEC 1)"
proof -
  let ?s = "owner1 ERPS_STATE_PROTECTION ERPS_REQ_SF False True"
  have v: "raps_req_state_valid RAPS_SF" by (simp add: raps_req_state_valid_def)
  obtain r s' where s': "erps_node_sched_tx calm_down 0 RAPS_SF 0 0 ?s = Some (r, s')"
    using sched_tx_prep [OF v disjI1 [OF refl], of calm_down 0 0 ?s]
    by (auto simp: case_prod_unfold Let_def)
  have drv: "driver_ok calm_down"
    using calm_driver_ok [of hdr5 "replicate 37 0"] by (simp add: driver_ok_def calm_down_def)
  have gd: "good calm_down 0 ?s"
    using owner1_good [of hdr5 "replicate 37 0" 0] by (simp add: good_def calm_down_def)
  have pd: "pdu_mut (nodes ?s 0) \<noteq> \<lparr>mut_rs_sc = raps_rs_sc RAPS_SF 0, mut_status = 0\<rparr>"
    by (simp add: owner1_def node_init_defs rs_sc_values)
  have dv: "net_if_lookup_by_dev calm_down (dev (lnk ?s (0, 0))) = Some 3"
    "net_if_lookup_by_dev calm_down (dev (lnk ?s (0, 1 - 0))) \<noteq> Some 3"
    by (simp_all add: calm_down_def calm_lookup owner1_def lnk_def node_init_defs)
  have up: "\<not> net_if_is_up calm_down h (Some 3)" for h
    by (simp add: calm_down_def)
  show ?thesis
    using deferred_announcement_sent [OF drv gd _ v s' pd dv up] s' by auto
qed

text \<open>Repeated runs of the transmit work item.\<close>

lemma tx_single_lnk: "lnk (erps_link_tx_single_pdu z l s) k = lnk s k"
  by (rule only_calls_lnk [OF only_calls_tx_single])

lemma tx_work_burst:
  "lnk (erps_tx_work z l s) l = (if tx_burst (lnk s l) = 0 then lnk s l
     else (lnk s l)\<lparr>tx_burst := tx_burst (lnk s l) - 1\<rparr>)"
  using tx_single_lnk [of z l s l]
  by (simp add: erps_tx_work_def do_reschedule_def Let_def lnk_def upd_link_def upd_node_def
      emit_def)

lemma tx_work_head:
  "\<exists>r. hd (hist (erps_tx_work z l s)) =
    WorkReschedule (TxWork (fst l) (snd l)) (erps_tx_delay (tx_burst (lnk s l))) r"
  by (simp add: erps_tx_work_def do_reschedule_def Let_def tx_single_lnk)

lemma tx_work_iter:
  "unat (tx_burst (lnk ((erps_tx_work z l ^^ k) s) l)) = unat (tx_burst (lnk s l)) - k"
proof (induction k)
  case (Suc k)
  have d: "b \<noteq> 0 \<Longrightarrow> unat (b - 1) = unat b - 1" for b :: u8
    by (rule unat_minus_one)
  show ?case
    using Suc by (cases "tx_burst (lnk ((erps_tx_work z l ^^ k) s) l) = 0") (simp_all add: tx_work_burst d)
qed simp

text \<open>
  C26. The transmit work item paces itself: whatever happens to the PDUs, the first runs after
  an announcement, as many as the burst counter says, put the next one 1 us away, and every run
  after them 5 s away.
\<close>

theorem tx_work_delays:
  "\<exists>r. hd (hist ((erps_tx_work z (n, p) ^^ Suc k) s)) =
     WorkReschedule (TxWork n p)
       (K_USEC (if k < unat (tx_burst (lnk s (n, p))) then 1 else 5000000)) r"
proof -
  let ?t = "(erps_tx_work z (n, p) ^^ k) s"
  have "tx_burst (lnk ?t (n, p)) \<noteq> 0 \<longleftrightarrow> k < unat (tx_burst (lnk s (n, p)))"
    using tx_work_iter [where z = z and l = "(n, p)" and k = k and s = s] by (simp add: unat_eq_0 [symmetric] not_le)
  then show ?thesis
    using tx_work_head [of z "(n, p)" ?t]
    by (auto simp: erps_tx_delay_def ERPS_TX_BURST_PERIOD_def ERPS_TX_PERIOD_def)
qed

text \<open>
  The scheduler accepts exactly the five request states, with a sub-code only for an event:
  everything else, and nothing but that, is answered by \<open>-EINVAL\<close> with the state as it was,
  nothing cancelled and no counter changed.
\<close>

lemma sched_tx_refuses:
  "erps_node_sched_tx z n rs sc stat s \<noteq> Some (- EINVAL, s) \<longleftrightarrow>
     raps_req_state_valid rs \<and> (sc = 0 \<or> rs = RAPS_EVENT)"
proof (cases "\<not> raps_req_state_valid rs \<or> (sc \<noteq> 0 \<and> rs \<noteq> RAPS_EVENT)")
  case True
  then show ?thesis by (auto simp: erps_node_sched_tx_def)
next
  case False
  have len: "length (hist t) \<le> length (hist (snd (erps_node_sched_ports z n is r t)))" for "is" r t
  proof (induction "is" arbitrary: r t)
    case (Cons i "is")
    have "length (hist t) \<le> length (hist (snd (do_reschedule z w d t)))" for w d
      by (simp add: do_reschedule_def Let_def)
    from le_trans [OF this Cons.IH] Cons.IH show ?case by (simp add: case_prod_unfold Let_def)
  qed simp
  have "erps_node_sched_tx z n rs sc stat s \<noteq> Some (x, s)" for x
  proof
    let ?t = "sched_prep n (raps_rs_sc rs sc) stat s"
    assume "erps_node_sched_tx z n rs sc stat s = Some (x, s)"
    moreover have "raps_req_state_valid rs" "sc = 0 \<or> rs = RAPS_EVENT" using False by auto
    ultimately have "s = snd (erps_node_sched_ports z n [0, 1] 0 ?t)"
      by (auto simp: sched_tx_prep case_prod_unfold Let_def simp del: erps_node_sched_ports.simps)
    then have "length (hist ?t) \<le> length (hist s)" using len [of ?t "[0, 1]" 0] by simp
    then show False by (simp add: sched_prep_def Let_def)
  qed
  then show ?thesis using False by blast
qed

section \<open>Reception\<close>

text \<open>
  C30. What the receiver drops without a trace: a PDU with another opcode, an unknown request,
  MS or FS on a version 1 node, and, while the guard timer runs, everything but an event.
\<close>

theorem recv_drops:
  assumes "opcode (cfm_hdr pdu) \<noteq> RAPS_OPCODE \<or> \<not> raps_req_state_valid (raps_pdu_get_req_state pdu) \<or>
    (raps_ver (nodes s (erps_link_get_node s l)) = ERPS_RAPS_VER_1 \<and>
       raps_pdu_get_req_state pdu \<in> {RAPS_MS, RAPS_FS}) \<or>
    (\<not> sys_timepoint_expired z (hist s) (guard_timer_expiry (nodes s (erps_link_get_node s l))) \<and>
       raps_pdu_get_req_state pdu \<noteq> RAPS_EVENT)"
  shows "erps_raps_recv z l pdu s = Some (NET_DROP, s)"
  using assms
  by (auto simp: erps_raps_recv_def erps_raps_recv_req_def raps_req_state_valid_def Let_def
      raps_req_states)

theorem recv_drops_witness:
  "erps_raps_recv calm0 (0, 0) (heard 0x50 0 mac_zero) (owner1 ERPS_STATE_IDLE ERPS_REQ_INVALID False True) =
     Some (NET_DROP, owner1 ERPS_STATE_IDLE ERPS_REQ_INVALID False True)"
proof (rule recv_drops)
  have "drop_bit 4 (0x50 :: u8) = 5" by (simp add: drop_bit_eq_div)
  then have "raps_pdu_get_req_state (heard 0x50 0 mac_zero) = 5"
    by (simp add: heard_def raps_pdu_get_req_state_def raps_info_get_req_state_def)
  then have "\<not> raps_req_state_valid (raps_pdu_get_req_state (heard 0x50 0 mac_zero))"
    by (simp add: raps_req_state_valid_def raps_req_states)
  then show "opcode (cfm_hdr (heard 0x50 0 mac_zero)) \<noteq> RAPS_OPCODE \<or>
    \<not> raps_req_state_valid (raps_pdu_get_req_state (heard 0x50 0 mac_zero)) \<or> A \<or> B" for A B
    by blast
qed

text \<open>
  C10. A frame for this node (on its control VLAN, for its ring, from another node, with the guard
  timer not running) is consumed, and does to the node exactly what the protection switching
  table says of the request the PDU stands for, after at most one flush of the forwarding
  database.
\<close>

theorem frame_drives_table:
  assumes "driver_ok z" and "good z n s" and "erps_link_lookup_by_iface z i s = Some (n, p)"
    and "carries z pkt hdr pdu" and "addressed z s n hdr pdu"
    and "raps_request (raps_ver (nodes s n)) pdu = Some req"
    and "\<And>h. k_mutex_lock z h n (K_MSEC 250) = 0"
  shows "\<exists>higher xs t. erps_recv z i pkt s = Some (NET_OK, t) \<and> hd (hist t) = PktUnref pkt \<and>
    xs \<in> {[], [Flush p]} \<and> ab_of z n t = g8032 higher p req (fold exec xs (ab_of z n s))"
proof -
  have "absr z n (ab_of z n s) s" using assms(2) by (simp add: absr_def)
  from sim_recv [OF assms(1) this assms(3-7)] show ?thesis
    unfolding absr_def insert_iff by blast
qed

theorem frame_drives_table_witness:
  "\<exists>higher xs t. erps_recv (calm hdr5 (raps_pdu_bytes (heard 0xd0 0 (mac_if 9)))) (Some 4) 7
      (owner1 ERPS_STATE_IDLE ERPS_REQ_INVALID False True) = Some (NET_OK, t) \<and>
    hd (hist t) = PktUnref 7 \<and> xs \<in> {[], [Flush 1]} \<and>
    ab_of (calm hdr5 (raps_pdu_bytes (heard 0xd0 0 (mac_if 9)))) 0 t = g8032 higher 1 ERPS_REQ_RAPS_FS
      (fold exec xs (ab_of (calm hdr5 (raps_pdu_bytes (heard 0xd0 0 (mac_if 9)))) 0
        (owner1 ERPS_STATE_IDLE ERPS_REQ_INVALID False True)))"
proof (rule frame_drives_table [where hdr = "parse_vlan_hdr hdr5"])
  have "drop_bit 4 (0xd0 :: u8) = 0x0d" by (simp add: drop_bit_eq_div)
  then show "raps_request (raps_ver (nodes (owner1 ERPS_STATE_IDLE ERPS_REQ_INVALID False True) 0))
      (heard 0xd0 0 (mac_if 9)) = Some ERPS_REQ_RAPS_FS"
    by (simp add: raps_request_def raps_req_states ERPS_RAPS_VER_1_def)
qed (simp_all add: owner1_lookup calm_carries calm_addressed)

text \<open>
  A remote failure opens the ring protection link: when R-APS(SF) reaches a node in IDLE with
  no failed port, the frame is consumed and the node is in PROTECTION with both ports open.
\<close>

lemma remote_failure_opens_ports:
  assumes "driver_ok z" and "good z n s" and "erps_link_lookup_by_iface z i s = Some (n, p)"
    and "carries z pkt hdr pdu" and "addressed z s n hdr pdu"
    and "raps_pdu_get_req_state pdu = RAPS_SF" and "\<And>h. k_mutex_lock z h n (K_MSEC 250) = 0"
    and "state (nodes s n) = ERPS_STATE_IDLE" and "ERPS_REQ_RAPS_SF \<le> local_topreq (nodes s n)"
    and "\<not> failed (lnk s (n, 0))" and "\<not> failed (lnk s (n, 1))"
  shows "\<exists>t. erps_recv z i pkt s = Some (NET_OK, t) \<and> state (nodes t n) = ERPS_STATE_PROTECTION \<and>
    \<not> blocked (lnk t (n, 0)) \<and> \<not> blocked (lnk t (n, 1))"
  using assms by (intro hears_failure) (auto simp: hears_def)

section \<open>Across the ring\<close>

text \<open>
  A failure is answered at the other side of the ring: when a port of one node fails, that node
  blocks it and opens the other one, and the PDU it then composes on either port makes any idle
  node that hears it open both its ports, the end of the RPL among them.
\<close>

lemma failure_crosses_ring:
  assumes "driver_ok z" and "good z n s" and "p < 2" and "q < 2"
    and "state (nodes s n) \<notin> {ERPS_STATE_FORCED_SWITCH, ERPS_STATE_UNINIT}"
    and "ERPS_REQ_SF \<le> local_topreq (nodes s n)" and "\<And>h. net_pkt_get_data z h k \<noteq> None"
  shows "\<exists>u pdu. erps_fsm_post_locked z (n, p) ERPS_REQ_SF None s = Some (0, u) \<and>
    blocked (lnk u (n, p)) \<and> \<not> blocked (lnk u (n, 1 - p)) \<and>
    composed z (n, q) k u = Some pdu \<and>
    (\<forall>z' i k' s' m. hears z' i k' pdu s' m \<and> state (nodes s' m) = ERPS_STATE_IDLE \<and>
        ERPS_REQ_RAPS_SF \<le> local_topreq (nodes s' m) \<and>
        \<not> failed (lnk s' (m, 0)) \<and> \<not> failed (lnk s' (m, 1)) \<longrightarrow>
      (\<exists>t. erps_recv z' i k' s' = Some (NET_OK, t) \<and> state (nodes t m) = ERPS_STATE_PROTECTION \<and>
        \<not> blocked (lnk t (m, 0)) \<and> \<not> blocked (lnk t (m, 1))))"
proof -
  obtain u where u: "erps_fsm_post_locked z (n, p) ERPS_REQ_SF None s = Some (0, u)" "good z n u"
    "ab_of z n u = g8032 (contest z s n None) p ERPS_REQ_SF (ab_of z n s)"
    using post_refines [OF assms(1-3), of ERPS_REQ_SF None] by auto
  note b = table_signal_fail [OF assms(3) assms(5,6) [unfolded ab_of_fields [where z = z]],
      of "contest z s n None", folded u(3)]
  obtain pdu where pdu: "composed z (n, q) k u = Some pdu"
    "raps_pdu_get_req_state pdu = drop_bit 4 (fst (ab_msg (ab_of z n u)))"
    using composed_good [OF assms(1) u(2) assms(4,7)] by blast
  have "raps_pdu_get_req_state pdu = RAPS_SF"
    unfolding pdu(2) b(6) by (simp add: drop_bit_eq_div raps_req_states)
  note hears_failure [OF _ this]
  with u(1) b(3,5) pdu(1) show ?thesis
    by (auto simp: ab_of_fields(3) [where z = z])
qed

text \<open>
  C13. And so is the recovery: when the WTR timer of the owner expires, the owner blocks the RPL and
  opens its other port, and the PDU it then composes on either port takes any pending node that
  hears it to IDLE with its ports open, but for the neighbour's end of the RPL. What stays
  blocked of the ring is the RPL.
\<close>

theorem reversion_crosses_ring:
  assumes "driver_ok z" and "good z n s" and "q < 2" and "rpl_owner (nodes s n)"
    and "state (nodes s n) = ERPS_STATE_PENDING"
    and "ERPS_REQ_WTR_EXPIRES \<le> local_topreq (nodes s n)"
    and "\<And>h. net_pkt_get_data z h k \<noteq> None"
  shows "\<exists>u pdu. erps_fsm_post_locked z (n, 0) ERPS_REQ_WTR_EXPIRES None s = Some (0, u) \<and>
    state (nodes u n) = ERPS_STATE_IDLE \<and> blocked (lnk u (n, 1)) \<and> \<not> blocked (lnk u (n, 0)) \<and>
    composed z (n, q) k u = Some pdu \<and>
    (\<forall>z' i k' s' m. hears z' i k' pdu s' m \<and> state (nodes s' m) = ERPS_STATE_PENDING \<and>
        ERPS_REQ_RAPS_NR_RB \<le> local_topreq (nodes s' m) \<and> \<not> rpl_owner (nodes s' m) \<longrightarrow>
      (\<exists>t. erps_recv z' i k' s' = Some (NET_OK, t) \<and> state (nodes t m) = ERPS_STATE_IDLE \<and>
        \<not> blocked (lnk t (m, 0)) \<and> blocked (lnk t (m, 1)) = rpl_nbr (nodes s' m)))"
proof -
  obtain u where u: "erps_fsm_post_locked z (n, 0) ERPS_REQ_WTR_EXPIRES None s = Some (0, u)"
    "good z n u" "ab_of z n u = g8032 (contest z s n None) 0 ERPS_REQ_WTR_EXPIRES (ab_of z n s)"
    using post_refines [OF assms(1,2), of 0 ERPS_REQ_WTR_EXPIRES None] by auto
  note b = table_wtr_expires [OF assms(4-6) [unfolded ab_of_fields [where z = z]],
      of "contest z s n None" 0, folded u(3)]
  obtain pdu where pdu: "composed z (n, q) k u = Some pdu"
    "raps_pdu_get_req_state pdu = drop_bit 4 (fst (ab_msg (ab_of z n u)))"
    "raps_pdu_rb pdu = bit (snd (ab_msg (ab_of z n u))) 7"
    using composed_good [OF assms(1) u(2) assms(3,7)] by blast
  have "raps_pdu_get_req_state pdu = RAPS_NR" "raps_pdu_rb pdu"
    unfolding pdu(2,3) b(5) by (simp_all add: raps_req_states bit_simps)
  note hears_idle [OF _ this]
  with u(1) b(1-3) pdu(1) show ?thesis
    by (auto simp: ab_of_fields(1,3) [where z = z])
qed

theorem reversion_crosses_ring_witness:
  "\<exists>u pdu t. erps_fsm_post_locked calm9 (0, 0) ERPS_REQ_WTR_EXPIRES None
      (owner1 ERPS_STATE_PENDING ERPS_REQ_INVALID True False) = Some (0, u) \<and>
    composed calm9 (0, 1) 7 u = Some pdu \<and>
    erps_recv (calm hdr5 (raps_pdu_bytes pdu)) (Some 4) 7 (nbr1 ERPS_STATE_PENDING) = Some (NET_OK, t) \<and>
    state (nodes t 0) = ERPS_STATE_IDLE \<and> \<not> blocked (lnk t (0, 0)) \<and> blocked (lnk t (0, 1))"
proof -
  let ?s = "owner1 ERPS_STATE_PENDING ERPS_REQ_INVALID True False"
  obtain u pdu where u: "erps_fsm_post_locked calm9 (0, 0) ERPS_REQ_WTR_EXPIRES None ?s = Some (0, u)"
    "composed calm9 (0, 1) 7 u = Some pdu"
    and all: "\<And>z' i k' s' m. hears z' i k' pdu s' m \<and> state (nodes s' m) = ERPS_STATE_PENDING \<and>
        ERPS_REQ_RAPS_NR_RB \<le> local_topreq (nodes s' m) \<and> \<not> rpl_owner (nodes s' m) \<Longrightarrow>
      \<exists>t. erps_recv z' i k' s' = Some (NET_OK, t) \<and> state (nodes t m) = ERPS_STATE_IDLE \<and>
        \<not> blocked (lnk t (m, 0)) \<and> blocked (lnk t (m, 1)) = rpl_nbr (nodes s' m)"
    using reversion_crosses_ring [where z = calm9 and n = 0 and q = 1 and s = ?s and k = 7]
      calm9_driver_ok owner1_good9 calm9_get_data by simp blast
  have "good calm9 0 u"
    using u(1) post_refines [where z = calm9 and n = 0 and s = ?s and p = 0 and req = ERPS_REQ_WTR_EXPIRES and pdu = None]
      calm9_driver_ok owner1_good9 by auto
  then have "hears (calm hdr5 (raps_pdu_bytes pdu)) (Some 4) 7 pdu (nbr1 ERPS_STATE_PENDING) 0"
    by (rule calm9_hears_nbr [OF _ _ u(2)]) simp
  then show ?thesis using all u by fastforce
qed

text \<open>
  C23. A frame for another ring, on another VLAN, without a VLAN tag, or that the node sent itself
  is dropped: no node changes and the packet is handed back with its cursor where it was.
\<close>

theorem stray_frames_dropped:
  assumes "driver_ok z" and "good z n s" and "erps_link_lookup_by_iface z i s = Some (n, p)"
    and "carries z pkt hdr pdu"
    and "net_ntohs z (hdr_tpid hdr) \<noteq> NET_ETH_PTYPE_VLAN z \<or>
      net_eth_vlan_get_vid z (net_ntohs z (hdr_tci hdr)) \<noteq> ctrl_vid (nodes s n) \<or>
      mac_last (hdr_dst hdr) \<noteq> ring_id (nodes s n) \<or>
      (\<forall>h. net_if_get_link_addr z h (net_if_lookup_by_dev z (dev (lnk s (n, 0)))) =
        Some (mac_bytes (node_id (raps_info pdu))))"
  shows "\<exists>t. erps_recv z i pkt s = Some (NET_DROP, t) \<and> nodes t = nodes s \<and>
    hd (hist t) = PktCursorRestore pkt"
proof -
  define s1 where "s1 = emit (PktCursorBackup pkt) s"
  define s2 where "s2 = emit (PktRead pkt (sizeof_net_eth_vlan_hdr z) 0) s1"
  define s3 where "s3 = emit (PktRead pkt sizeof_raps_pdu 0) s2"
  note p = lookup_by_iface_SomeD(2) [OF assms(3)]
  have nodes: "nodes s1 = nodes s" "nodes s2 = nodes s" "nodes s3 = nodes s"
    by (simp_all add: s1_def s2_def s3_def)
  have idx: "idx_ok (nodes s n)" using assms(2) by (simp add: good_def)
  have node: "erps_link_get_node t (n, p) = n" if "nodes t = nodes s" for t
    using get_node_eq [of t n p] idx p that by simp
  note c = assms(4) [unfolded carries_def, rule_format]
  obtain hb where hb: "net_pkt_read z (hist s1) pkt (sizeof_net_eth_vlan_hdr z) = (0, hb)"
    "net_eth_vlan_hdr_of_bytes z hb = hdr" "\<not> net_pkt_remaining_data z (hist s1) pkt < sizeof_net_eth_vlan_hdr z"
    using c [of "hist s1"] by (auto simp: not_less)
  obtain bs where bs: "net_pkt_read z (hist s2) pkt sizeof_raps_pdu = (0, bs)"
    "raps_pdu_of_bytes bs = pdu" using c [of "hist s2"] by blast
  have own: "erps_is_local_raps_frame z (n, p) pdu s3"
    if "\<forall>h. net_if_get_link_addr z h (net_if_lookup_by_dev z (dev (lnk s (n, 0)))) =
      Some (mac_bytes (node_id (raps_info pdu)))"
  proof -
    obtain y where "net_if_lookup_by_dev z (dev (ports (nodes s n) 0)) = Some y"
      using assms(2) [unfolded good_def lnk_def] by (metis fst_conv snd_conv not_None_eq zero_less_numeral)
    with that show ?thesis
      by (simp add: erps_is_local_raps_frame_def erps_link_get_node_id_def node nodes lnk_def)
  qed
  have "\<exists>t. erps_eth_recv z (n, p) pkt s1 = Some (NET_DROP, t) \<and> nodes t = nodes s"
    using assms(5) own hb bs
    by (auto simp: erps_eth_recv_def erps_read_vlan_hdr_def do_pkt_read_def Let_def node nodes
        erps_is_stray_raps_pdu_def nodes(2) [unfolded s2_def] nodes(3) [unfolded s3_def]
        s2_def [symmetric] s3_def [symmetric, simplified])
  then show ?thesis
    using c [of "hist s1"] by (auto simp: erps_recv_def assms(3) simp flip: s1_def)
qed

theorem stray_frames_dropped_witness:
  "\<exists>t. erps_recv (calm hdr5 (raps_pdu_bytes (heard 0xb0 0 (mac_if 3)))) (Some 3) 7
      (owner1 ERPS_STATE_IDLE ERPS_REQ_INVALID False True) = Some (NET_DROP, t) \<and>
    nodes t = nodes (owner1 ERPS_STATE_IDLE ERPS_REQ_INVALID False True) \<and>
    hd (hist t) = PktCursorRestore 7"
proof (rule stray_frames_dropped [where hdr = "parse_vlan_hdr hdr5"])
  have "net_if_get_link_addr (calm h b) g (net_if_lookup_by_dev (calm h b)
      (dev (lnk (owner1 ERPS_STATE_IDLE ERPS_REQ_INVALID False True) (0, 0)))) =
    Some (mac_bytes (node_id (raps_info (heard 0xb0 0 (mac_if 3)))))" for h b g
    by (simp add: calm_def owner1_def lnk_def node_init_defs mac_if_def)
  then show "A \<or> B \<or> C \<or> (\<forall>g. net_if_get_link_addr (calm h b) g (net_if_lookup_by_dev (calm h b)
      (dev (lnk (owner1 ERPS_STATE_IDLE ERPS_REQ_INVALID False True) (0, 0)))) =
    Some (mac_bytes (node_id (raps_info (heard 0xb0 0 (mac_if 3))))))" for A B C h b
    by blast
qed (simp_all add: owner1_lookup calm_carries)

section \<open>Who owns a packet\<close>

text \<open>Composing a PDU only writes to the packet.\<close>

fun writes_only :: "action \<Rightarrow> bool" where
  "writes_only (PktSetData pkt bs r) = True"
| "writes_only (PktWrite pkt bs r) = True"
| "writes_only (PktSetProto pkt t) = True"
| "writes_only (PktSetSrc pkt a r) = True"
| "writes_only (PktSetDst pkt a r) = True"
| "writes_only a = False"

lemma create_hist:
  "\<exists>h. hist (snd (erps_raps_create z l pkt s)) = h @ hist s \<and> list_all writes_only h"
proof -
  have "\<exists>h. a # b # hist s = h @ hist s \<and> list_all writes_only h" if "writes_only a" "writes_only b" for a b
    using that by (intro exI [of _ "[a, b]"]) simp
  moreover have "\<exists>h. a # hist s = h @ hist s \<and> list_all writes_only h" if "writes_only a" for a
    using that by (intro exI [of _ "[a]"]) simp
  moreover have "\<exists>h. hist s = h @ hist s \<and> list_all writes_only h"
    by (intro exI [of _ "[]"]) simp
  ultimately show ?thesis
    by (auto simp: erps_raps_create_def do_set_data_def do_pkt_write_def Let_def
        split: option.split sum.split)
qed

text \<open>
  C22. A packet has exactly one owner when sending is over, whatever fails on the way: without a
  packet the result is \<open>-ENOMEM\<close>; with one, result 0 means that the last call handed it to the
  network stack, which took it and it was not released here, and any other result means that
  the last call released it, once, and the stack has not taken it.
\<close>

theorem send_pdu_ownership:
  assumes "erps_link_send_pdu z l iface s = (r, t)"
  shows "\<exists>h size tmo res. hist t = h @ PktAlloc iface size tmo res # hist s \<and>
    (case res of
       None \<Rightarrow> h = [] \<and> r = - ENOMEM
     | Some pkt \<Rightarrow>
         if r = 0 then \<exists>v g. h = SendData iface pkt v # g \<and> v \<noteq> NET_DROP \<and> list_all writes_only g
         else \<exists>g. h = PktUnref pkt # g \<and>
           (list_all writes_only g \<or> (\<exists>g'. g = SendData iface pkt NET_DROP # g' \<and> list_all writes_only g')))"
proof -
  define node where "node = erps_link_get_node s l"
  define size where "size = (if CONFIG_NET_ERPS_PAD_RAPS_PDUS z
    then NET_ETH_MINIMAL_FRAME_SIZE z else sizeof_raps_pdu)"
  define tmo where "tmo = K_MSEC (unat (net_pkt_alloc_timeout (nodes s node)))"
  define res where "res = net_pkt_alloc_with_buffer z (hist s) iface size tmo"
  note defs = erps_link_send_pdu_def do_pkt_alloc_def do_set_src_def do_set_dst_def do_send_def
  show ?thesis
  proof (cases res)
    case None
    then have "hist t = [] @ PktAlloc iface size tmo None # hist s \<and> r = - ENOMEM"
      using assms by (auto simp: defs Let_def res_def node_def size_def tmo_def)
    then show ?thesis by fastforce
  next
    case (Some pkt)
    define s1 where "s1 = emit (PktSetProto pkt 0x8902) (emit (PktAlloc iface size tmo res) s)"
    define r1 where "r1 = net_linkaddr_copy_src z (hist s1) pkt (net_if_get_link_addr z (hist s1) iface)"
    define s2 where "s2 = emit (PktSetSrc pkt (net_if_get_link_addr z (hist s1) iface) r1) s1"
    define dst where "dst = mac_bytes (erps_node_dst_mac s2 node)"
    define r2 where "r2 = net_linkaddr_set_dst z (hist s2) pkt dst"
    define s3 where "s3 = emit (PktSetDst pkt dst r2) s2"
    obtain r3 s4 where s4: "erps_raps_create z l pkt s3 = (r3, s4)" by fastforce
    define v where "v = net_if_try_send_data z (hist s4) iface pkt"
    obtain h4 where h4: "hist s4 = h4 @ hist s3" "list_all writes_only h4"
      using create_hist [of z l pkt s3] s4 by auto
    define pre where "pre = [PktSetDst pkt dst r2,
      PktSetSrc pkt (net_if_get_link_addr z (hist s1) iface) r1, PktSetProto pkt 0x8902]"
    have pre: "hist s3 = pre @ PktAlloc iface size tmo res # hist s"
      "hist s2 = tl pre @ PktAlloc iface size tmo res # hist s" "list_all writes_only pre"
      by (simp_all add: pre_def s3_def s2_def s1_def)
    have "(r, t) = (if r1 \<noteq> 0 then (r1, emit (PktUnref pkt) s2)
        else if r2 \<noteq> 0 then (r2, emit (PktUnref pkt) s3)
        else if r3 \<noteq> 0 then (r3, emit (PktUnref pkt) s4)
        else if v = NET_DROP then (- EIO, emit (PktUnref pkt) (emit (SendData iface pkt v) s4))
        else (0, emit (SendData iface pkt v) s4))"
      using assms Some s4
      unfolding v_def s3_def r2_def dst_def s2_def r1_def s1_def res_def size_def tmo_def node_def
      by (cases "r1 = 0"; cases "r2 = 0"; cases "r3 = 0")
        (simp_all add: defs Let_def r1_def s1_def r2_def dst_def s2_def res_def size_def tmo_def
          node_def, auto split: if_splits)
    then consider "r1 \<noteq> 0" "r = r1" "hist t = (PktUnref pkt # tl pre) @ PktAlloc iface size tmo res # hist s"
      | "r2 \<noteq> 0" "r = r2" "hist t = (PktUnref pkt # pre) @ PktAlloc iface size tmo res # hist s"
      | "r3 \<noteq> 0" "r = r3" "hist t = (PktUnref pkt # h4 @ pre) @ PktAlloc iface size tmo res # hist s"
      | "r = - EIO" "hist t = (PktUnref pkt # SendData iface pkt NET_DROP # h4 @ pre) @
          PktAlloc iface size tmo res # hist s"
      | "r = 0" "v \<noteq> NET_DROP" "hist t = (SendData iface pkt v # h4 @ pre) @
          PktAlloc iface size tmo res # hist s"
      by (auto simp: pre h4(1) split: if_splits)
    moreover have "list_all writes_only (tl pre)" "list_all writes_only (h4 @ pre)"
      using pre(3) h4(2) by (simp_all add: pre_def)
    ultimately show ?thesis
      using pre(3) Some by cases (rule exI, rule exI, rule exI, rule exI, rule conjI, assumption, auto)+
  qed
qed

theorem send_pdu_ownership_witness:
  "\<exists>h size tmo res. hist (snd (erps_link_send_pdu calm0 (0, 1) (Some 104)
      (owner1 ERPS_STATE_IDLE ERPS_REQ_INVALID False True))) =
    h @ PktAlloc (Some 104) size tmo res # hist (owner1 ERPS_STATE_IDLE ERPS_REQ_INVALID False True)"
  using send_pdu_ownership [OF surjective_pairing, of calm0 "(0, 1)" "Some 104"
      "owner1 ERPS_STATE_IDLE ERPS_REQ_INVALID False True"] by blast

section \<open>Between two nodes\<close>

text \<open>
  C37. The address a node sends to is the multicast address the interface advertises for its ring,
  and the filter of another node lets it through exactly when it is on the same ring.
\<close>

theorem ring_address_filters:
  "erps_node_dst_mac s n = net_erps_ring_mcast_addr (ucast (ring_id (nodes s n))) \<and>
   (erps_is_stray_raps_pdu s m (hdr\<lparr>hdr_dst := erps_node_dst_mac s n\<rparr>) \<longleftrightarrow>
     ring_id (nodes s m) \<noteq> ring_id (nodes s n))"
proof -
  have "ucast (ucast x :: u32) = x" for x :: u8
    by (rule bit_word_eqI) (auto simp: bit_simps)
  then show ?thesis
    by (simp add: erps_node_dst_mac_def net_erps_ring_mcast_addr_def ERPS_MCAST_MAC_def
        erps_is_stray_raps_pdu_def eq_commute)
qed

text \<open>A node identifier as the 48-bit number that it is written as.\<close>

fun be_val :: "u8 list \<Rightarrow> nat" where
  "be_val [] = 0"
| "be_val (x # xs) = unat x * 256 ^ length xs + be_val xs"

definition mac_num :: "net_eth_addr \<Rightarrow> nat" where
  "mac_num m = be_val (mac_bytes m)"

lemma be_val_less: "be_val xs < 256 ^ length xs"
proof (induction xs)
  case (Cons x xs)
  have "unat x < 2 ^ LENGTH(8)" by (rule unsigned_less)
  then have "Suc (unat x) \<le> 256" by simp
  then have "Suc (unat x) * 256 ^ length xs \<le> 256 * 256 ^ length xs" by (rule mult_le_mono1)
  with Cons.IH show ?case unfolding be_val.simps list.size power_Suc add_0_right add_Suc_right mult_Suc by linarith
qed simp

lemma be_val_Cons_less:
  assumes "x < y" and "length xs = length ys"
  shows "be_val (x # xs) < be_val (y # ys)"
proof -
  have "Suc (unat x) \<le> unat y" using assms(1) by (simp add: word_less_nat_alt)
  then have "Suc (unat x) * 256 ^ length ys \<le> unat y * 256 ^ length ys" by (rule mult_le_mono1)
  with be_val_less [of xs] assms(2) show ?thesis by simp
qed

lemma memcmp_be_val:
  "length xs = length ys \<Longrightarrow> memcmp xs ys \<le> 0 \<longleftrightarrow> be_val xs \<le> be_val ys"
proof (induction xs ys rule: list_induct2)
  case (Cons x xs y ys)
  show ?case
    using Cons be_val_Cons_less [of x y xs ys] be_val_Cons_less [of y x ys xs]
    by (cases x y rule: linorder_cases) auto
qed simp

text \<open>
  Giving way, written out: the switch of every port that was blocked and not failed has been
  turned on, no port without a failure is blocked any more, a failed one is as it was, and then
  both transmit items are cancelled. The node's state and the other nodes are as they were.
\<close>

definition gave_way :: "zephyr \<Rightarrow> nat \<Rightarrow> sys \<Rightarrow> sys \<Rightarrow> bool" where
  "gave_way z n s t \<longleftrightarrow>
     (\<forall>p < 2. blocked (lnk t (n, p)) = (blocked (lnk s (n, p)) \<and> failed (lnk s (n, p)))) \<and>
     (\<forall>p < 2. failed (lnk t (n, p)) = failed (lnk s (n, p))) \<and>
     state (nodes t n) = state (nodes s n) \<and> (\<forall>m. m \<noteq> n \<longrightarrow> nodes t m = nodes s m) \<and>
     (\<exists>h. hist t = WorkCancel (TxWork n 1) # WorkCancel (TxWork n 0) # h @ hist s \<and>
        (\<forall>p < 2. blocked (lnk s (n, p)) \<and> \<not> failed (lnk s (n, p)) \<longrightarrow>
           (\<exists>i. net_if_lookup_by_dev z (dev (lnk s (n, p))) = Some i \<and>
              PortSetEnabled i True 0 \<in> set h)))"

text \<open>One turn of the loop: the port is opened unless it has failed, and nothing else moves.\<close>

definition opens_port :: "zephyr \<Rightarrow> nat \<Rightarrow> nat \<Rightarrow> sys \<Rightarrow> sys \<Rightarrow> bool" where
  "opens_port z n p s t \<longleftrightarrow>
     blocked (lnk t (n, p)) = (blocked (lnk s (n, p)) \<and> failed (lnk s (n, p))) \<and>
     failed (lnk t (n, p)) = failed (lnk s (n, p)) \<and>
     (\<forall>q. q \<noteq> p \<longrightarrow> lnk t (n, q) = lnk s (n, q)) \<and> idx_ok (nodes t n) \<and>
     state (nodes t n) = state (nodes s n) \<and> (\<forall>m. m \<noteq> n \<longrightarrow> nodes t m = nodes s m) \<and>
     (\<exists>h. hist t = h @ hist s \<and> (blocked (lnk s (n, p)) \<and> \<not> failed (lnk s (n, p)) \<longrightarrow>
        (\<exists>i. net_if_lookup_by_dev z (dev (lnk s (n, p))) = Some i \<and> PortSetEnabled i True 0 \<in> set h)))"

lemma unblock_opens:
  assumes "idx_ok (nodes s n)" and "p < 2" and "\<not> failed (lnk s (n, p))"
    and "erps_link_unblock z (n, p) s = Some (0, t)"
  shows "opens_port z n p s t"
  using assms(4) assms(1-3) unfolding unblock_eq [OF assms(1,2)] opens_port_def
  by (auto simp: Let_def unblock_switch_def unfail_def nodes_upd_link idx_ok_def
      split: if_splits option.splits)

lemma non_failed_port:
  assumes "idx_ok (nodes s n)" and "p < 2"
    and "(if \<not> failed (lnk s (n, p)) then erps_link_unblock z (n, p) s else Some (0, s)) = Some (0, t)"
  shows "opens_port z n p s t"
proof (cases "failed (lnk s (n, p))")
  case True
  then show ?thesis using assms(1,3) by (simp add: opens_port_def)
next
  case False
  with assms(3) have "erps_link_unblock z (n, p) s = Some (0, t)" by simp
  then show ?thesis by (rule unblock_opens [OF assms(1,2) False])
qed

lemma opens_both:
  assumes a: "opens_port z n 0 s u" and b: "opens_port z n (Suc 0) u t"
  shows "gave_way z n s (erps_node_stop_tx n t)"
proof -
  have u: "lnk u (n, Suc 0) = lnk s (n, Suc 0)" and t: "lnk t (n, 0) = lnk u (n, 0)"
    using a b by (simp_all add: opens_port_def)
  obtain h k where h: "hist u = h @ hist s" "hist t = k @ hist u"
    and "blocked (lnk s (n, 0)) \<and> \<not> failed (lnk s (n, 0)) \<longrightarrow>
        (\<exists>i. net_if_lookup_by_dev z (dev (lnk s (n, 0))) = Some i \<and> PortSetEnabled i True 0 \<in> set h)"
    and "blocked (lnk s (n, Suc 0)) \<and> \<not> failed (lnk s (n, Suc 0)) \<longrightarrow>
        (\<exists>i. net_if_lookup_by_dev z (dev (lnk s (n, Suc 0))) = Some i \<and>
          PortSetEnabled i True 0 \<in> set k)"
    using a b unfolding opens_port_def u by blast
  then have "\<forall>p < 2. blocked (lnk s (n, p)) \<and> \<not> failed (lnk s (n, p)) \<longrightarrow>
      (\<exists>i. net_if_lookup_by_dev z (dev (lnk s (n, p))) = Some i \<and>
         PortSetEnabled i True 0 \<in> set (k @ h))"
    unfolding less_2_disj set_append One_nat_def by blast
  moreover have "hist t = (k @ h) @ hist s" by (simp add: h)
  ultimately have "\<exists>g. hist (erps_node_stop_tx n t) =
        WorkCancel (TxWork n 1) # WorkCancel (TxWork n 0) # g @ hist s \<and>
      (\<forall>p < 2. blocked (lnk s (n, p)) \<and> \<not> failed (lnk s (n, p)) \<longrightarrow>
        (\<exists>i. net_if_lookup_by_dev z (dev (lnk s (n, p))) = Some i \<and> PortSetEnabled i True 0 \<in> set g))"
    by (intro exI [of _ "k @ h"]) (simp add: erps_node_stop_tx_def)
  then show ?thesis
    using a b u t unfolding gave_way_def
    by (auto simp: opens_port_def erps_node_stop_tx_def less_2_disj)
qed

lemma loser_gives_way:
  assumes "idx_ok (nodes s n)" and "erps_node_unblock_non_failed z n s = Some (0, t)"
  shows "gave_way z n s (erps_node_stop_tx n t)"
proof -
  obtain u where u: "(if \<not> failed (lnk s (n, 0)) then erps_link_unblock z (n, 0) s else Some (0, s)) =
      Some (0, u)"
    "(if \<not> failed (lnk u (n, Suc 0)) then erps_link_unblock z (n, Suc 0) u else Some (0, u)) = Some (0, t)"
    using assms(2) unfolding erps_node_unblock_non_failed_def
    by (auto simp: bind_eq_Some_conv split: if_splits)
  have a: "opens_port z n 0 s u" using assms(1) _ u(1) by (rule non_failed_port) simp
  then have "idx_ok (nodes u n)" by (simp add: opens_port_def)
  then have "opens_port z n (Suc 0) u t" using _ u(2) by (rule non_failed_port) simp
  with a show ?thesis by (rule opens_both)
qed

text \<open>With drivers that take every command, opening the ports succeeds.\<close>

lemma unblock_non_failed_ok:
  assumes "driver_ok z" and "good z n s"
  shows "\<exists>t. erps_node_unblock_non_failed z n s = Some (0, t)"
proof -
  have "wp (erps_node_unblock_non_failed z n s) (\<lambda>r t. r = 0)"
    by (rule sim_unblock_non_failed [OF assms(1), where a = "ab_of z n s"])
      (simp_all add: absr_def assms(2))
  then show ?thesis by (auto simp: wp_iff_Some)
qed

text \<open>The outcome for one node that hears another's R-APS(NR).\<close>

lemma contest_outcome:
  assumes "stable z n s s" and "p < 2" and "erps_link_get_node_id z (n, p) s = Inr a"
    and "node_id (raps_info q) = b"
  shows "if mac_num b \<le> mac_num a
    then erps_fsm_maybe_unblock_and_stop z (n, p) (Some q) s = Some (0, s)
    else \<exists>r t. erps_fsm_maybe_unblock_and_stop z (n, p) (Some q) s = Some (r, t) \<and>
      (if r = 0 then gave_way z n s t else \<not> (driver_ok z \<and> good z n s))"
proof -
  have node: "erps_link_get_node s (n, p) = n" using assms(1,2) by (rule stable_get_node)
  have le: "memcmp (mac_bytes b) (mac_bytes a) \<le> 0 \<longleftrightarrow> mac_num b \<le> mac_num a"
    unfolding mac_num_def by (rule memcmp_be_val) simp
  have "wp (erps_node_unblock_non_failed z n s) (\<lambda>r t. True)"
    using assms(1) by (rule wp_unblock_non_failed) simp
  then obtain r t where t: "erps_node_unblock_non_failed z n s = Some (r, t)"
    by (auto simp: wp_iff_Some)
  show ?thesis
    using loser_gives_way [OF stable_idx_ok [OF assms(1)], of z t] unblock_non_failed_ok [of z n s] t
    by (auto simp: erps_fsm_maybe_unblock_and_stop_def node assms(3,4) le)
qed

lemma mac_num_inject: "mac_num a = mac_num b \<Longrightarrow> a = b"
proof -
  assume "mac_num a = mac_num b"
  then have "memcmp (mac_bytes a) (mac_bytes b) \<le> 0" "memcmp (mac_bytes b) (mac_bytes a) \<le> 0"
    by (simp_all add: memcmp_be_val mac_num_def)
  then have "memcmp (mac_bytes a) (mac_bytes b) = 0"
    using memcmp_swap [of "mac_bytes b" "mac_bytes a"] by simp
  then show ?thesis by simp
qed

text \<open>
  C28. The contest of two nodes that hear each other's R-APS(NR) is a comparison of their
  identifiers as 48-bit numbers, and exactly one gives way: the node with the greater one is left
  exactly as it is; the other one opens all its ports but the failed ones, in the switch too, and
  stops announcing, or the result is an error, which it cannot be when the drivers take every
  command. (So two pending nodes cannot both keep their ports blocked, nor both open them.)
\<close>

theorem nr_contest_one_yields:
  assumes "stable z1 n1 s1 s1" and "p1 < 2" and "erps_link_get_node_id z1 (n1, p1) s1 = Inr a"
    and "stable z2 n2 s2 s2" and "p2 < 2" and "erps_link_get_node_id z2 (n2, p2) s2 = Inr b"
    and "node_id (raps_info q1) = b" and "node_id (raps_info q2) = a" and "a \<noteq> b"
  shows "\<exists>r1 t1 r2 t2.
    erps_fsm_maybe_unblock_and_stop z1 (n1, p1) (Some q1) s1 = Some (r1, t1) \<and>
    erps_fsm_maybe_unblock_and_stop z2 (n2, p2) (Some q2) s2 = Some (r2, t2) \<and>
    (if mac_num b < mac_num a
     then r1 = 0 \<and> t1 = s1 \<and> (if r2 = 0 then gave_way z2 n2 s2 t2 else \<not> (driver_ok z2 \<and> good z2 n2 s2))
     else mac_num a < mac_num b \<and> r2 = 0 \<and> t2 = s2 \<and>
       (if r1 = 0 then gave_way z1 n1 s1 t1 else \<not> (driver_ok z1 \<and> good z1 n1 s1)))"
proof -
  have "mac_num a \<noteq> mac_num b" using assms(9) mac_num_inject by blast
  then show ?thesis
    using contest_outcome [OF assms(1-3,7)] contest_outcome [OF assms(4-6,8)]
    by (cases "mac_num b < mac_num a") (auto simp: not_less not_le)
qed

theorem nr_contest_one_yields_witness:
  "\<exists>t. erps_fsm_maybe_unblock_and_stop calm0 (0, 0) (Some (heard 0 0 (mac_if 9)))
      (owner1 ERPS_STATE_PENDING ERPS_REQ_INVALID True False) = Some (0, t) \<and>
    gave_way calm0 0 (owner1 ERPS_STATE_PENDING ERPS_REQ_INVALID True False) t \<and>
    erps_fsm_maybe_unblock_and_stop calm9 (0, 0) (Some (heard 0 0 (mac_if 3)))
      (owner1 ERPS_STATE_PENDING ERPS_REQ_INVALID True False) =
      Some (0, owner1 ERPS_STATE_PENDING ERPS_REQ_INVALID True False)"
proof -
  let ?s = "owner1 ERPS_STATE_PENDING ERPS_REQ_INVALID True False"
  have st: "stable z 0 ?s ?s" for z by (simp add: stable_refl)
  have l: "net_if_lookup_by_dev calm0 d = Some d"
    "net_if_get_link_addr calm0 h (Some i) = Some [2, 0, 0, 0, 0, of_nat i]"
    "net_if_lookup_by_dev calm9 d = Some d"
    "net_if_get_link_addr calm9 h (Some i) = Some [2, 0, 0, 0, 0, 9]" for d h i
    by (simp_all add: calm9_def) (simp_all add: calm_def)
  have a: "erps_link_get_node_id calm0 (0, 0) ?s = Inr (mac_if 3)"
    using stable_get_node [OF st, of 0]
    by (simp add: erps_link_get_node_id_def l mac_of_bytes_def mac_if_def)
      (simp add: owner1_def node_init_defs)
  have b: "erps_link_get_node_id calm9 (0, 0) ?s = Inr (mac_if 9)"
    using stable_get_node [OF st, of 0]
    by (simp add: erps_link_get_node_id_def l mac_of_bytes_def mac_if_def)
  have n: "mac_num (mac_if 3) < mac_num (mac_if 9)"
    by (simp add: mac_num_def mac_if_def)
  have drv: "driver_ok calm0 \<and> good calm0 0 ?s" by (simp add: calm_driver_ok owner1_good)
  show ?thesis
    using nr_contest_one_yields [OF st less_2_disj [THEN iffD2, OF disjI1, OF refl] a st
          less_2_disj [THEN iffD2, OF disjI1, OF refl] b, of "heard 0 0 (mac_if 9)" "heard 0 0 (mac_if 3)"] n drv
    by (auto simp: heard_def mac_if_def split: if_splits)
qed

end
