(* ===== verification/Erps_Props_Api.thy ===== *)
theory Erps_Props_Api
  imports Erps_Example
begin

text \<open>
  The properties of the public interface and of the shell: what a caller finds, configures and
  types.
\<close>

section \<open>Interfaces and devices\<close>

text \<open>
  What the program relies on of the tables built at link time: every interface has one device
  and is the one found for it.
\<close>

definition devs_bijective :: "zephyr \<Rightarrow> bool" where
  "devs_bijective z \<longleftrightarrow>
     (\<forall>d i. net_if_lookup_by_dev z d = Some i \<longleftrightarrow> net_if_get_device z (Some i) = Some d)"

lemma calm_devs [simp]: "devs_bijective (calm h b)"
  by (auto simp: devs_bijective_def calm_def)

lemma all_links_mem [simp]: "(n, p) \<in> set (all_links s) \<longleftrightarrow> n < nnodes s \<and> p < 2"
  by (auto simp: set_all_links)

lemma find_unique:
  assumes "x \<in> set xs" and "P x" and "\<And>y. y \<in> set xs \<Longrightarrow> P y \<Longrightarrow> y = x"
  shows "find P xs = Some x"
proof (cases "find P xs")
  case None
  then show ?thesis using assms(1,2) by (auto simp: find_None_iff)
next
  case (Some y)
  then show ?thesis using find_Some_D [OF Some] assms(3) by auto
qed

lemma find_first:
  assumes "n < N" and "P n" and "\<And>m. m < n \<Longrightarrow> \<not> P m"
  shows "find P [0..<N] = Some n"
  using assms by (auto simp: find_Some_iff intro!: exI [of _ n])

text \<open>The port of an interface is found from the interface.\<close>

lemma same_dev:
  assumes "ifaces_distinct z s" and "n < nnodes s" and "p < 2"
    and "net_if_lookup_by_dev z (dev (lnk s (n, p))) = Some i"
    and "l \<in> set (all_links s)" and "dev (lnk s l) = dev (lnk s (n, p))"
  shows "l = (n, p)"
  using assms by (auto simp: ifaces_distinct_def)

lemma lookup_link:
  assumes "devs_bijective z" and "ifaces_distinct z s" and "n < nnodes s" and "p < 2"
    and "net_if_lookup_by_dev z (dev (lnk s (n, p))) = Some i"
  shows "erps_link_lookup_by_iface z (Some i) s = Some (n, p)"
  unfolding erps_link_lookup_by_iface_def
proof (rule find_unique)
  have d: "net_if_get_device z (Some i) = Some (dev (lnk s (n, p)))"
    using assms(1,5) by (simp add: devs_bijective_def)
  then show "Some (dev (lnk s (n, p))) = net_if_get_device z (Some i)" by simp
  show "y = (n, p)" if "y \<in> set (all_links s)" "Some (dev (lnk s y)) = net_if_get_device z (Some i)" for y
    using same_dev [OF assms(2-5) that(1)] that(2) d by simp
qed (use assms(3,4) in simp)

lemma ring_info_link:
  assumes "devs_bijective z" and "ifaces_distinct z s" and "n < nnodes s" and "p < 2"
    and "net_if_lookup_by_dev z (dev (lnk s (n, p))) = Some i"
  shows "net_erps_ring_info_by_iface z (Some i) s = erps_node_ring_info z n p s"
proof -
  have d: "net_if_get_device z (Some i) = Some (dev (lnk s (n, p)))"
    using assms(1,5) by (simp add: devs_bijective_def)
  have "find (\<lambda>l. dev (lnk s l) = dev (lnk s (n, p))) (all_links s) = Some (n, p)"
    using same_dev [OF assms(2-5)] assms(3,4) by (intro find_unique) auto
  then show ?thesis by (simp add: net_erps_ring_info_by_iface_def d)
qed

lemma lookup_ifaceD:
  assumes "net_erps_lookup_iface z rid port s = Some i"
  obtains n where "n < nnodes s" "ring_id (nodes s n) = rid" "unat port < 2"
    "net_if_lookup_by_dev z (dev (lnk s (n, unat port))) = Some i"
proof -
  obtain n where f: "find (\<lambda>n. ring_id (nodes s n) = rid) [0..<nnodes s] = Some n"
    "unat port < 2" "net_if_lookup_by_dev z (dev (lnk s (n, unat port))) = Some i"
    using assms by (auto simp: net_erps_lookup_iface_def split: if_splits option.splits)
  from that [of n] f(2,3) find_Some_D [OF f(1)] show ?thesis by simp
qed

text \<open>What is reported of a node, when both its ports have an interface.\<close>

lemma node_ring_info:
  "erps_node_ring_info z n i s = Inr info \<longleftrightarrow> (\<exists>i0 i1.
     net_if_lookup_by_dev z (dev (lnk s (n, 0))) = Some i0 \<and>
     net_if_lookup_by_dev z (dev (lnk s (n, 1))) = Some i1 \<and>
     info = \<lparr>info_ring_id = ring_id (nodes s n),
       info_reverting = k_work_delayable_is_pending z (hist s) (WtrWork n),
       info_blocked = (blocked (lnk s (n, 0)), blocked (lnk s (n, 1))),
       info_requester_index = of_nat i, info_rpl_index = (if rpl (lnk s (n, 1)) then 1 else -1),
       info_ctrl_vid = ctrl_vid (nodes s n), info_traffic_vid = traffic_vid (nodes s n),
       info_iface_port = (i0, i1)\<rparr>)"
  by (auto simp: erps_node_ring_info_def lnk_def erps_node_get_rpl_def Let_def split: option.split)

section \<open>Lookup\<close>

text \<open>
  Looking up a port and asking about it agree: the interface found for a ring and a port is
  reported as that port of that ring, blocked exactly when the port is, with the RPL at index 1
  when the node is at an end of the RPL.
\<close>

lemma lookup_info_roundtrip:
  assumes "devs_bijective z" and "ifaces_distinct z s"
    and "net_erps_lookup_iface z rid port s = Some i"
    and "\<And>d. net_if_lookup_by_dev z d \<noteq> None"
  shows "\<exists>info n. net_erps_ring_info_by_iface z (Some i) s = Inr info \<and>
    info_ring_id info = rid \<and> info_requester_index info = port \<and>
    (if port = 0 then fst (info_iface_port info) else snd (info_iface_port info)) = i \<and>
    (if port = 0 then fst (info_blocked info) else snd (info_blocked info)) =
      blocked (lnk s (n, unat port)) \<and>
    info_rpl_index info = (if rpl (lnk s (n, 1)) then 1 else -1)"
proof -
  obtain n where n: "n < nnodes s" "ring_id (nodes s n) = rid" "unat port < 2"
    "net_if_lookup_by_dev z (dev (lnk s (n, unat port))) = Some i"
    using assms(3) by (rule lookup_ifaceD)
  note info = ring_info_link [OF assms(1,2) n(1,3,4)]
  obtain i0 i1 where i: "net_if_lookup_by_dev z (dev (lnk s (n, 0))) = Some i0"
    "net_if_lookup_by_dev z (dev (lnk s (n, 1))) = Some i1"
    using assms(4) by blast
  have port: "port = 0 \<and> unat port = 0 \<and> i = i0 \<or> port = 1 \<and> unat port = 1 \<and> i = i1"
    using n(3,4) i by (auto simp: less_2_disj word_unat_eq_iff)
  show ?thesis
    unfolding info node_ring_info using i n(2) port by auto
qed

text \<open>
  The other link of the other link is the link itself, and it is never the link one started
  from.
\<close>

lemma other_link_involution:
  assumes "devs_bijective z" and "ifaces_distinct z s"
    and "net_erps_ring_get_other_link z (Some i) s = Some j"
  shows "net_erps_ring_get_other_link z (Some j) s = Some i \<and> i \<noteq> j"
proof -
  obtain dv n p where f: "net_if_get_device z (Some i) = Some dv"
    "find (\<lambda>l. dev (lnk s l) = dv) (all_links s) = Some (n, p)"
    using assms(3) by (auto simp: net_erps_ring_get_other_link_def net_erps_ring_info_by_iface_def
        split: option.splits sum.splits)
  note np = find_Some_D [OF f(2)]
  obtain info where info: "erps_node_ring_info z n p s = Inr info"
    "j = (if fst (info_iface_port info) = i then snd (info_iface_port info) else fst (info_iface_port info))"
    using assms(3) f by (auto simp: net_erps_ring_get_other_link_def net_erps_ring_info_by_iface_def
        split: sum.splits)
  then obtain i0 i1 where i: "net_if_lookup_by_dev z (dev (lnk s (n, 0))) = Some i0"
    "net_if_lookup_by_dev z (dev (lnk s (n, 1))) = Some i1" "j = (if i0 = i then i1 else i0)"
    by (auto simp: node_ring_info)
  have own: "net_if_lookup_by_dev z (dev (lnk s (n, p))) = Some i"
    using np assms(1) f(1) by (simp add: devs_bijective_def)
  have n: "n < nnodes s" "p < 2" using np by simp_all
  have "i0 \<noteq> i1"
    using ifaces_distinctD [OF assms(2) n(1) _ n(1), of 0 1 i0] i(1,2) by auto
  moreover have "i = i0 \<or> i = i1"
    using own i(1,2) n(2) by (auto simp: less_2_disj)
  ultimately have "j = i0 \<or> j = i1" "i \<noteq> j" "{i, j} = {i0, i1}" using i(3) by auto
  moreover obtain q where "q < 2" "net_if_lookup_by_dev z (dev (lnk s (n, q))) = Some j"
    using i calculation(1) by (metis less_2_disj)
  then have "net_erps_ring_info_by_iface z (Some j) s = erps_node_ring_info z n q s"
    by (rule ring_info_link [OF assms(1,2) n(1)])
  then have "net_erps_ring_get_other_link z (Some j) s = Some (if i0 = j then i1 else i0)"
  proof -
    have "\<exists>info. erps_node_ring_info z n q s = Inr info \<and> info_iface_port info = (i0, i1)"
      unfolding node_ring_info using i(1,2) by auto
    with \<open>net_erps_ring_info_by_iface z (Some j) s = erps_node_ring_info z n q s\<close> show ?thesis
      by (auto simp: net_erps_ring_get_other_link_def)
  qed
  ultimately show ?thesis by auto
qed

section \<open>Configuration\<close>

text \<open>
  Before a node is started, making one of its ports the RPL (while the other is not) succeeds
  and leaves a well-formed node: the port's device is now at index 1 with the RPL flag, the other
  one at index 0, the indices are the positions, the node has exactly the role asked for, and no
  other node has changed.
\<close>

lemma set_as_rpl_well_formed:
  assumes "erps_link_lookup_by_iface z i s = Some (n, p)" and "idx_ok (nodes s n)"
    and "state (nodes s n) = ERPS_STATE_UNINIT" and "\<not> rpl (lnk s (n, 1 - p))"
  shows "\<exists>t. net_erps_set_as_rpl z i own s = (0, t) \<and> idx_ok (nodes t n) \<and> role_ok (nodes t n) \<and>
    rpl_owner (nodes t n) = own \<and> rpl_nbr (nodes t n) = (\<not> own) \<and>
    dev (lnk t (n, 1)) = dev (lnk s (n, p)) \<and> dev (lnk t (n, 0)) = dev (lnk s (n, 1 - p)) \<and>
    (\<forall>m. m \<noteq> n \<longrightarrow> nodes t m = nodes s m)"
  using lookup_by_iface_SomeD(2) [OF assms(1)] assms(2-4)
  by (auto simp: net_erps_set_as_rpl_def assms(1) less_2_disj swap_ports_def idx_ok_def role_ok_def
      upd_link_def upd_node_def lnk_def)

text \<open>A node with two ring links, before it is started.\<close>

lemma ring3_lookup0:
  "erps_link_lookup_by_iface calm0 (Some 1) ring3 = Some (0, 0)"
  "erps_link_lookup_by_iface calm0 (Some 2) ring3 = Some (0, 1)"
  by (simp_all add: erps_link_lookup_by_iface_def ring3_all_links lnk_def ring3_dev) (simp_all add: calm_def)

text \<open>
  C33. Giving an interface's ring an identifier succeeds only for an identifier in the range of the
  standard, and the ring is then found under it: looking up the identifier and the port gives the
  interface back, unless another node of the section already has it.
\<close>

theorem ring_id_roundtrip:
  assumes "net_erps_set_ring_id z i rid s = (0, t)"
    and "erps_link_lookup_by_iface z i s = Some (n, p)" and "idx_ok (nodes s n)"
    and "\<And>m. m < n \<Longrightarrow> ring_id (nodes s m) \<noteq> rid"
  shows "1 \<le> unat rid \<and> unat rid \<le> 239 \<and>
    net_erps_lookup_iface z rid (of_nat p) t = net_if_lookup_by_dev z (dev (lnk s (n, p)))"
proof -
  note np = lookup_by_iface_SomeD(1,2) [OF assms(2)]
  have node: "erps_link_get_node s (n, p) = n" using assms(3) np(2) by simp
  have r: "\<not> uint rid < 1" "\<not> 239 < uint rid" and t: "t = upd_node n (\<lambda>nd. nd\<lparr>ring_id := rid\<rparr>) s"
    using assms(1) unfolding net_erps_set_ring_id_def assms(2)
    by (simp_all add: node ERPS_RING_ID_MIN_def ERPS_RING_ID_MAX_def split: if_splits)
  have f: "find (\<lambda>m. ring_id (nodes t m) = rid) [0..<nnodes t] = Some n"
    by (rule find_first) (use np(1) assms(4) in \<open>simp_all add: t\<close>)
  have p: "unat (of_nat p :: u8) = p" using np(2) by (auto simp: less_2_disj)
  have "lnk t (n, p) = lnk s (n, p)" by (simp add: t lnk_def)
  then have "net_erps_lookup_iface z rid (of_nat p) t = net_if_lookup_by_dev z (dev (lnk s (n, p)))"
    using np(2) unfolding net_erps_lookup_iface_def f p by simp
  moreover have "1 \<le> unat rid \<and> unat rid \<le> 239"
    using r unfolding unat_eq_nat_uint by linarith
  ultimately show ?thesis by blast
qed

theorem ring_id_roundtrip_witness:
  "net_erps_lookup_iface calm0 9 1 (snd (net_erps_set_ring_id calm0 (Some 2) 9 ring3)) = Some 2"
proof -
  have "net_erps_set_ring_id calm0 (Some 2) 9 ring3 = (0, snd (net_erps_set_ring_id calm0 (Some 2) 9 ring3))"
    by (simp add: net_erps_set_ring_id_def ring3_lookup0 ERPS_RING_ID_MIN_def ERPS_RING_ID_MAX_def)
  from ring_id_roundtrip [OF this ring3_lookup0(2)] show ?thesis
    by (simp add: lnk_def ring3_dev) (simp add: calm_def)
qed

text \<open>
  C38. The check after the lookup in \<open>net_erps_unset_rpl\<close> tests the wrong pointer: on an interface
  that is no ring port, the null link is dereferenced, and on no other does anything undefined
  happen.
\<close>

theorem unset_rpl_undefined_iff:
  "net_erps_unset_rpl z i s = None \<longleftrightarrow>
     i \<noteq> None \<and> \<not> (\<exists>n p. n < nnodes s \<and> p < 2 \<and> net_if_get_device z i = Some (dev (lnk s (n, p))))"
proof -
  have "net_erps_unset_rpl z i s = None \<longleftrightarrow> i \<noteq> None \<and> erps_link_lookup_by_iface z i s = None"
    by (auto simp: net_erps_unset_rpl_def Let_def split: option.split)
  then show ?thesis unfolding lookup_by_iface_None_iff by auto
qed

section \<open>The shell\<close>

text \<open>How a number is typed.\<close>

fun decimal :: "nat \<Rightarrow> string" where
  "decimal n = (if n < 10 then [char_of (48 + n)]
     else decimal (n div 10) @ [char_of (48 + n mod 10)])"

declare decimal.simps [simp del]

lemma digit_char:
  assumes "d < 10"
  shows "c_isdigit (char_of (48 + d))" "digit_val (char_of (48 + d)) = d"
    "\<not> c_isspace (char_of (48 + d))" "char_of (48 + d) \<noteq> CHR ''-''" "char_of (48 + d) \<noteq> CHR ''+''"
proof -
  have c: "(of_char (char_of (48 + d)) :: nat) = 48 + d" using assms by simp
  have "char_of (48 + d) \<noteq> x" if "(of_char x :: nat) < 48" for x
    using c that by auto
  then show "c_isdigit (char_of (48 + d))" "digit_val (char_of (48 + d)) = d"
    "\<not> c_isspace (char_of (48 + d))" "char_of (48 + d) \<noteq> CHR ''-''" "char_of (48 + d) \<noteq> CHR ''+''"
    using assms c by (simp_all add: c_isdigit_def digit_val_def c_isspace_def)
qed

lemma decimal_digits: "\<forall>c \<in> set (decimal n). c_isdigit c"
proof (induction n rule: decimal.induct)
  case (1 n)
  then show ?case
    using digit_char(1) [of n] digit_char(1) [of "n mod 10"] by (subst decimal.simps) auto
qed

lemma decimal_head: "\<exists>c cs. decimal n = c # cs \<and> \<not> c_isspace c \<and> c \<noteq> CHR ''-'' \<and> c \<noteq> CHR ''+''"
proof (induction n rule: decimal.induct)
  case (1 n)
  then show ?case
    using digit_char(3-5) [of n] by (subst decimal.simps) auto
qed

lemma decimal_val: "digits_val (decimal n) = n"
proof (induction n rule: decimal.induct)
  case (1 n)
  then show ?case
    using digit_char(2) [of n] digit_char(2) [of "n mod 10"]
    by (subst decimal.simps) (auto simp: digits_val_def)
qed

lemma strtoul_decimal:
  "strtoul ulong_max (decimal n) = (if n > ulong_max then (ulong_max, True, []) else (n, False, []))"
proof -
  obtain c cs where c: "decimal n = c # cs" "\<not> c_isspace c" "c \<noteq> CHR ''-''" "c \<noteq> CHR ''+''"
    using decimal_head [of n] by blast
  have "takeWhile c_isdigit (c # cs) = c # cs" "dropWhile c_isdigit (c # cs) = []"
    using decimal_digits [of n] unfolding c(1) by auto
  then show ?thesis
    using c decimal_val [of n] by (simp add: strtoul_def split: if_splits)
qed

text \<open>The cast at the end of the parser loses nothing of a number that passed its checks.\<close>

lemma u8_cast: "n \<le> 255 \<Longrightarrow> uint (of_nat n :: u8) = int n"
  by (simp add: unsigned_of_nat take_bit_nat_eq_self)

lemma parse_decimal:
  "255 \<le> ulong_max \<Longrightarrow> erps_sh_parse_u8 ulong_max (Some (decimal n)) =
    (if n \<le> 255 then int n else if n \<le> ulong_max then - EINVAL else - ERANGE)"
  by (auto simp: erps_sh_parse_u8_def strtoul_decimal UINT8_MAX_def u8_cast)

text \<open>
  C39. Parsing a printed number gives the number back when it fits in a byte, and the error of its
  kind when it does not.
\<close>

theorem parse_u8_decimal:
  assumes "255 \<le> ulong_max"
  shows "erps_sh_parse_u8 ulong_max (Some (decimal n)) =
    (if n \<le> 255 then int n else if n \<le> ulong_max then - EINVAL else - ERANGE)"
  using assms by (rule parse_decimal)

theorem parse_u8_decimal_witness: "erps_sh_parse_u8 4294967295 (Some (decimal 239)) = 239"
  by (subst parse_u8_decimal) simp_all

text \<open>
  What \<open>strtoul\<close> reads off a string: blanks, perhaps a sign, as many digits as there are, and the
  rest of the string.
\<close>

definition scans :: "string \<Rightarrow> string \<Rightarrow> string \<Rightarrow> string \<Rightarrow> bool" where
  "scans str sg ds rest \<longleftrightarrow>
     (\<exists>ws. str = ws @ sg @ ds @ rest \<and> list_all c_isspace ws \<and> sg \<in> {[], ''+'', ''-''} \<and>
       ds \<noteq> [] \<and> list_all c_isdigit ds \<and> (rest = [] \<or> \<not> c_isdigit (hd rest)))"

definition signed_val :: "nat \<Rightarrow> string \<Rightarrow> string \<Rightarrow> nat" where
  "signed_val ulong_max sg ds =
     (if sg = ''-'' then (ulong_max + 1 - digits_val ds) mod (ulong_max + 1) else digits_val ds)"

lemma isdigit_char:
  "c_isdigit c \<Longrightarrow> \<not> c_isspace c" "\<not> c_isspace CHR ''-''" "\<not> c_isspace CHR ''+''"
  "\<not> c_isdigit CHR ''-''" "\<not> c_isdigit CHR ''+''"
  by (auto simp: c_isdigit_def c_isspace_def)

lemma digits_split:
  assumes "list_all c_isdigit ds" and "rest = [] \<or> \<not> c_isdigit (hd rest)"
  shows "takeWhile c_isdigit (ds @ rest) = ds" "dropWhile c_isdigit (ds @ rest) = rest"
  using assms by (induction ds; cases rest; simp)+

lemma scans_split:
  assumes "scans str sg ds rest"
  shows "dropWhile c_isspace str = sg @ ds @ rest" "\<exists>c cs. ds = c # cs \<and> c_isdigit c"
    "sg \<in> {[], ''+'', ''-''}"
    "takeWhile c_isdigit (ds @ rest) = ds" "dropWhile c_isdigit (ds @ rest) = rest"
proof -
  obtain ws where ws: "str = ws @ sg @ ds @ rest" "list_all c_isspace ws" "sg \<in> {[], ''+'', ''-''}"
    "ds \<noteq> []" "list_all c_isdigit ds" "rest = [] \<or> \<not> c_isdigit (hd rest)"
    using assms unfolding scans_def by blast
  show "\<exists>c cs. ds = c # cs \<and> c_isdigit c" using ws(4,5) by (cases ds) simp_all
  then have "dropWhile c_isspace (sg @ ds @ rest) = sg @ ds @ rest"
    using ws(3) isdigit_char by (elim exE conjE insertE emptyE) simp_all
  then show "dropWhile c_isspace str = sg @ ds @ rest"
    using ws(2) unfolding ws(1) list_all_iff by (subst dropWhile_append2) simp_all
qed (use assms digits_split in \<open>auto simp: scans_def\<close>)

lemma strtoul_scans:
  assumes "scans str sg ds rest"
  shows "strtoul ulong_max str =
    (if ulong_max < digits_val ds then (ulong_max, True, rest)
     else (signed_val ulong_max sg ds, False, rest))"
proof -
  note sp = scans_split [OF assms]
  obtain c cs where c: "ds = c # cs" "c_isdigit c" using sp(2) by blast
  then have nc: "c \<noteq> CHR ''-''" "c \<noteq> CHR ''+''" "ds \<noteq> []" using isdigit_char(4,5) by auto
  have "(case sg @ ds @ rest of [] \<Rightarrow> (False, sg @ ds @ rest)
      | c # cs \<Rightarrow> if c = CHR ''-'' then (True, cs)
                  else if c = CHR ''+'' then (False, cs) else (False, sg @ ds @ rest)) =
      (sg = ''-'', ds @ rest)"
    using sp(3) nc by (elim insertE emptyE) (simp_all add: c(1))
  then show ?thesis
    unfolding strtoul_def sp(1) Let_def signed_val_def using nc(3) by (simp add: sp(4,5))
qed

lemma sign_split:
  "\<exists>sg body. r = sg @ body \<and> sg \<in> {[], ''+'', ''-''} \<and>
     (case r of [] \<Rightarrow> (False, r)
      | c # cs \<Rightarrow> if c = CHR ''-'' then (True, cs)
                  else if c = CHR ''+'' then (False, cs) else (False, r)) = (sg = ''-'', body)"
proof (cases r)
  case (Cons c cs)
  consider "c = CHR ''-''" | "c = CHR ''+''" | "c \<noteq> CHR ''-''" "c \<noteq> CHR ''+''" by blast
  then show ?thesis
  proof cases
    case 1
    then show ?thesis using Cons by (intro exI [of _ "''-''"] exI [of _ cs]) simp
  next
    case 2
    then show ?thesis using Cons by (intro exI [of _ "''+''"] exI [of _ cs]) simp
  next
    case 3
    then show ?thesis using Cons by (intro exI [of _ "[]"] exI [of _ r]) simp
  qed
qed simp

lemma strtoul_cases:
  "(\<exists>sg ds rest. scans str sg ds rest) \<or> strtoul ulong_max str = (0, False, str)"
proof -
  let ?ws = "takeWhile c_isspace str" and ?body = "dropWhile c_isspace str"
  let ?sign = "\<lambda>r. case r of [] \<Rightarrow> (False, r)
      | c # cs \<Rightarrow> if c = CHR ''-'' then (True, cs)
                  else if c = CHR ''+'' then (False, cs) else (False, r)"
  obtain sg body where b: "?body = sg @ body" "sg \<in> {[], ''+'', ''-''}"
    "?sign ?body = (sg = ''-'', body)"
    using sign_split [of ?body] by blast
  let ?ds = "takeWhile c_isdigit body"
  show ?thesis
  proof (cases "?ds = []")
    case True
    then show ?thesis unfolding strtoul_def Let_def b(3) by simp
  next
    case False
    have "str = ?ws @ sg @ ?ds @ dropWhile c_isdigit body"
      using b(1) takeWhile_dropWhile_id [of c_isspace str] by simp
    moreover have "dropWhile c_isdigit body = [] \<or> \<not> c_isdigit (hd (dropWhile c_isdigit body))"
      using hd_dropWhile [of c_isdigit body] by blast
    ultimately have "scans str sg ?ds (dropWhile c_isdigit body)"
      unfolding scans_def using False b(2)
      by (intro exI [of _ ?ws]) (auto simp: list_all_iff dest: set_takeWhileD)
    then show ?thesis by blast
  qed
qed

text \<open>A string is scanned in one way only.\<close>

lemma scans_unique:
  assumes "scans str sg ds rest" and "scans str sg' ds' rest'"
  shows "sg' = sg \<and> ds' = ds \<and> rest' = rest"
proof -
  have sign: "dropWhile c_isspace str = sg @ ds @ rest \<and>
      (\<exists>c cs. ds = c # cs \<and> c_isdigit c) \<and> sg \<in> {[], ''+'', ''-''} \<and>
      takeWhile c_isdigit (ds @ rest) = ds \<and> dropWhile c_isdigit (ds @ rest) = rest"
    if "scans str sg ds rest" for sg ds rest
    using scans_split [OF that] by blast
  show ?thesis
    using sign [OF assms(1)] sign [OF assms(2)] isdigit_char(4,5)
    by (elim conjE exE insertE emptyE) simp_all
qed

lemma scans_empty: "\<not> scans [] sg ds rest"
  by (auto simp: scans_def)

text \<open>So the parser's answer is decided by what is scanned.\<close>

lemma parse_scans:
  "scans str sg ds rest \<Longrightarrow> erps_sh_parse_u8 ulong_max (Some str) =
    (if ulong_max < digits_val ds then - ERANGE
     else if rest = [] \<and> signed_val ulong_max sg ds \<le> 255 then int (signed_val ulong_max sg ds)
     else - EINVAL)"
  by (auto simp: erps_sh_parse_u8_def strtoul_scans UINT8_MAX_def u8_cast)

lemma parse_unscanned:
  assumes "\<nexists>sg ds rest. scans str sg ds rest"
  shows "erps_sh_parse_u8 ulong_max (Some str) = (if str = [] then 0 else - EINVAL)"
  using assms strtoul_cases [of str ulong_max] by (simp add: erps_sh_parse_u8_def UINT8_MAX_def)

text \<open>
  C40. Exactly which strings the parser takes, and for which number: the empty string for 0; and
  blanks, an optional sign and digits up to the end of the string, when the digits fit in an
  unsigned long and the signed number, which a minus sign takes modulo \<open>ULONG_MAX + 1\<close>, fits in
  a byte. It answers \<open>-ERANGE\<close> exactly when the digits do not fit in an unsigned long, whatever
  follows them, and \<open>-EINVAL\<close> otherwise.
\<close>

theorem parse_u8_accepts_iff:
  "(erps_sh_parse_u8 ulong_max (Some str) = int v) =
      ((str = [] \<and> v = 0) \<or>
       (\<exists>sg ds. scans str sg ds [] \<and> digits_val ds \<le> ulong_max \<and>
          v = signed_val ulong_max sg ds \<and> v \<le> 255)) \<and>
   (erps_sh_parse_u8 ulong_max (Some str) = - ERANGE) =
      (\<exists>sg ds rest. scans str sg ds rest \<and> ulong_max < digits_val ds) \<and>
   (erps_sh_parse_u8 ulong_max (Some str) < 0) =
      (erps_sh_parse_u8 ulong_max (Some str) \<in> {- EINVAL, - ERANGE})"
proof (cases "\<exists>sg ds rest. scans str sg ds rest")
  case True
  then obtain sg ds rest where s: "scans str sg ds rest" by blast
  have "str \<noteq> []" using s scans_empty by blast
  moreover have "(\<exists>sg ds rest. scans str sg ds rest \<and> ulong_max < digits_val ds) \<longleftrightarrow>
      ulong_max < digits_val ds"
    using scans_unique [OF s] s by blast
  moreover have "(\<exists>sg ds. scans str sg ds [] \<and> digits_val ds \<le> ulong_max \<and>
        v = signed_val ulong_max sg ds \<and> v \<le> 255) \<longleftrightarrow>
      \<not> ulong_max < digits_val ds \<and> rest = [] \<and> v = signed_val ulong_max sg ds \<and> v \<le> 255"
    using scans_unique [OF s] s unfolding not_less by blast
  ultimately show ?thesis
    unfolding parse_scans [OF s] by auto
next
  case False
  then have "\<not> scans str sg ds rest" for sg ds rest by blast
  then show ?thesis unfolding parse_unscanned [OF False] by simp
qed

theorem parse_u8_accepts_iff_witness:
  "erps_sh_parse_u8 18446744073709551615 (Some '' -18446744073709551615'') = int 1"
proof -
  have "scans '' -18446744073709551615'' ''-'' ''18446744073709551615'' []"
    unfolding scans_def
    by (rule exI [of _ "'' ''"]) (simp add: c_isdigit_def c_isspace_def)
  moreover have "digits_val ''18446744073709551615'' = 18446744073709551615"
    by (simp add: digits_val_def digit_val_def)
  ultimately have "\<exists>sg ds. scans '' -18446744073709551615'' sg ds [] \<and>
      digits_val ds \<le> 18446744073709551615 \<and> 1 = signed_val 18446744073709551615 sg ds \<and> (1 :: nat) \<le> 255"
    by (intro exI [of _ "''-''"] exI [of _ "''18446744073709551615''"]) (simp add: signed_val_def)
  then show ?thesis
    by (rule parse_u8_accepts_iff [THEN conjunct1, THEN iffD2, OF disjI2])
qed

text \<open>
  C32. The three commands, typed with the identifier of a ring and a port number, post their
  request to the state machine on that port of the first node with that identifier.
\<close>

theorem shell_commands_reach_port:
  assumes "devs_bijective z" and "ifaces_distinct z s" and "255 \<le> ulong_max"
    and "n < nnodes s" and "p < 2" and "\<And>m. m < n \<Longrightarrow> ring_id (nodes s m) \<noteq> ring_id (nodes s n)"
    and "net_if_lookup_by_dev z (dev (lnk s (n, p))) \<noteq> None"
    and "argv = [cmd, decimal (unat (ring_id (nodes s n))), decimal p]"
  shows "erps_sh_clear z ulong_max argv s = erps_fsm_post z (n, p) ERPS_REQ_CLEAR None s \<and>
    erps_sh_manual_switch z ulong_max argv s = erps_fsm_post z (n, p) ERPS_REQ_MS None s \<and>
    erps_sh_forced_switch z ulong_max argv s = erps_fsm_post z (n, p) ERPS_REQ_FS None s"
proof -
  obtain i where i: "net_if_lookup_by_dev z (dev (lnk s (n, p))) = Some i" using assms(7) by blast
  have u: "unat (ring_id (nodes s n)) \<le> 255"
  proof -
    have "unat (ring_id (nodes s n)) < 2 ^ LENGTH(8)" by (rule unsigned_less)
    then show ?thesis by simp
  qed
  have p: "unat (of_nat p :: u8) = p" "p \<le> 255" using assms(5) by (auto simp: less_2_disj)
  have f: "find (\<lambda>m. ring_id (nodes s m) = ring_id (nodes s n)) [0..<nnodes s] = Some n"
    using assms(4,6) by (intro find_first) auto
  have "net_erps_lookup_iface z (ring_id (nodes s n)) (of_nat p) s = Some i"
    using assms(5) i unfolding net_erps_lookup_iface_def f p(1) by simp
  then have "erps_sh_ctl z ulong_max ev argv s = net_erps_ctl z (Some i) ev s" for ev
    by (simp add: erps_sh_ctl_def assms(8) parse_decimal [OF assms(3)] u p(2))
  then show ?thesis
    using lookup_link [OF assms(1,2,4,5) i]
    by (simp add: erps_sh_clear_def erps_sh_manual_switch_def erps_sh_forced_switch_def
        net_erps_ctl_def net_erps_fsm_post_def)
qed

theorem shell_commands_reach_port_witness:
  "erps_sh_forced_switch calm0 4294967295 [''fs'', decimal 5, decimal 1]
      (owner1 ERPS_STATE_IDLE ERPS_REQ_INVALID False True) =
    erps_fsm_post calm0 (0, 1) ERPS_REQ_FS None (owner1 ERPS_STATE_IDLE ERPS_REQ_INVALID False True)"
proof -
  let ?s = "owner1 ERPS_STATE_IDLE ERPS_REQ_INVALID False True"
  have "ring_ok calm0 ?s" by (rule owner1_ring_ok) auto
  moreover have "ring_id (nodes ?s 0) = 5" by (simp add: owner1_def node_init_defs)
  moreover have "net_if_lookup_by_dev calm0 (dev (lnk ?s (0, 1))) \<noteq> None" by (simp add: calm_def)
  ultimately show ?thesis
    using shell_commands_reach_port [of calm0 ?s 4294967295 0 1 "[''fs'', decimal 5, decimal 1]" "''fs''"]
    by (simp add: ring_ok_def)
qed

end
