(* ===== verification/Erps_Props_Net.thy ===== *)
theory Erps_Props_Net
  imports Erps_Example
begin

text \<open>
  Properties of running systems: of one device, whatever happens to it, and of a ring of devices
  that hear of each other only what they transmit.
\<close>

declare raps_req_states [simp del]

section \<open>One device\<close>

text \<open>
  C4. From any state that a running system reaches, every event has a result, and what it does to
  each node is a step of the protection switching table on a request that the event stands for
  (the operator's, the timer's, or that of a PDU the frame may carry), or nothing the table sees.
\<close>

theorem system_refines_table:
  assumes "sys_ok z s" and "reach (erps_handle z) (erps_ready z) s t" and "erps_ready z t ev"
  shows "\<exists>u. erps_handle z ev t = Some u \<and> nnodes u = nnodes t \<and>
    (\<forall>n < nnodes t. table_step (event_requests z t ev n) (ab_of z n t) (ab_of z n u))"
  using handle_sys_step [OF table.reach_ok [OF assms(2,1)] assms(3)] by (auto simp: sys_step_def)

theorem system_refines_table_witness:
  "\<exists>u. erps_handle calm0 (WtrTimer 0) (owner1 ERPS_STATE_PENDING ERPS_REQ_INVALID True False) = Some u \<and>
    table_step {(h, p, req). p = 0 \<and> req = ERPS_REQ_WTR_EXPIRES}
      (ab_of calm0 0 (owner1 ERPS_STATE_PENDING ERPS_REQ_INVALID True False)) (ab_of calm0 0 u)"
proof -
  let ?s = "owner1 ERPS_STATE_PENDING ERPS_REQ_INVALID True False"
  have "sys_ok calm0 ?s" by (rule owner1_sys_ok) simp_all
  from system_refines_table [OF this reach_refl, of "WtrTimer 0"] show ?thesis by auto
qed

text \<open>
  C18. The configuration of a device is fixed once it runs: whatever happens, it has the nodes it
  started with, each with its role, version, level, timer durations, VLANs and ports; only its
  ring identifier can be set. And nothing is unsaid: what was told to the outside stays in the
  history.
\<close>

theorem reachable_config_fixed:
  assumes "ring_ok z s" and "reach (erps_handle z) (erps_ready z) s t"
  shows "nnodes t = nnodes s \<and> (\<exists>h. hist t = h @ hist s) \<and>
    node_cfg (nodes t n) = node_cfg ((nodes s n)\<lparr>ring_id := ring_id (nodes t n)\<rparr>)"
  using assms(2)
proof induction
  case reach_refl
  then show ?case by simp
next
  case (reach_step t ev u)
  have step: "nnodes u = nnodes t \<and> (\<exists>h. hist u = h @ hist t) \<and>
      node_cfg (nodes u n) = node_cfg ((nodes t n)\<lparr>ring_id := ring_id (nodes u n)\<rparr>)"
    using handle_config [OF erps.reach_ok [OF reach_step.hyps(1) assms(1)] reach_step.hyps(2,3)] .
  then show ?case
    using reach_step.IH unfolding node_cfg_def by (auto simp: prod_eq_iff)
qed

theorem reachable_config_fixed_witness:
  "ctrl_vid (nodes (the (erps_handle calm0 (SetRingId (Some 3) 9)
     (owner1 ERPS_STATE_IDLE ERPS_REQ_INVALID False True))) 0) = 4093"
proof -
  let ?s = "owner1 ERPS_STATE_IDLE ERPS_REQ_INVALID False True"
  have ok: "ring_ok calm0 ?s" by (rule owner1_ring_ok) auto
  have "reach (erps_handle calm0) (erps_ready calm0) ?s (snd (net_erps_set_ring_id calm0 (Some 3) 9 ?s))"
    by (rule reach_step [where ev = "SetRingId (Some 3) 9", OF reach_refl]) simp_all
  from reachable_config_fixed [OF ok this, of 0] show ?thesis
    by (auto simp: node_cfg_def owner1_def node_init_defs)
qed

text \<open>
  C12. Every PDU a running node hands to the network stack is well-typed: 37 bytes, of the R-APS
  opcode, with the offset of the end TLV, one of the five requests with sub-code 0, and zeros in
  the reserved part, whatever the packet held before.
\<close>

theorem pdus_well_typed:
  assumes "ring_ok z s" and "reach (erps_handle z) (erps_ready z) s t" and "erps_ready z t (TxTimer n p)"
    and "erps_handle z (TxTimer n p) t = Some u" and "PktSetData k bs r \<in> set (new_hist t u)"
    and "pdu = raps_pdu_of_bytes bs"
  shows "length bs = sizeof_raps_pdu \<and> raps_pdu_bytes pdu = bs \<and> opcode (cfm_hdr pdu) = RAPS_OPCODE \<and>
    tlv_off (cfm_hdr pdu) = 32 \<and> rfu (raps_info pdu) = replicate 24 0 \<and>
    raps_pdu_get_req_state pdu \<in> {RAPS_NR, RAPS_MS, RAPS_SF, RAPS_FS, RAPS_EVENT} \<and>
    raps_pdu_get_subcode pdu = 0"
proof -
  have n: "n < nnodes t" "p < 2" using assms(3) by simp_all
  have ok: "node_ok z t n"
    using ring_okD [OF erps.reach_ok [OF assms(2,1)] n(1)] .
  have l: "erps_link_get_node t (n, p) = n"
    using ok n(2) by (intro get_node_eq) (simp_all add: node_ok_def)
  have "announced_by z (n, p) t bs"
    using assms(4,5) by (intro tx_work_announces) simp
  then obtain mac buf where bs: "bs = raps_pdu_bytes (erps_raps_fill (nodes t n) mac buf)"
    unfolding announced_by_def l by blast
  then have pdu: "pdu = erps_raps_fill (nodes t n) mac buf" by (simp add: assms(6))
  have rs: "rs_sc (raps_info pdu) \<in> {0x00, 0x70, 0xb0, 0xd0, 0xe0}"
    using ok by (simp add: pdu erps_raps_fill_def node_ok_def tx_ok_def)
  have len: "length bs = sizeof_raps_pdu"
    unfolding bs by (rule pdu.length_enc) simp
  have "raps_pdu_bytes pdu = bs" by (simp add: bs pdu)
  moreover have "raps_pdu_get_req_state pdu \<in> {RAPS_NR, RAPS_MS, RAPS_SF, RAPS_FS, RAPS_EVENT}"
    "raps_pdu_get_subcode pdu = 0"
    using rs by (auto simp: raps_pdu_get_req_state_def raps_info_get_req_state_def
        raps_pdu_get_subcode_def raps_info_get_subcode_def raps_req_states)
  ultimately show ?thesis
    using len by (simp add: pdu erps_raps_fill_def)
qed

theorem pdus_well_typed_witness:
  "\<exists>bs r. PktSetData 7 bs r \<in> set (new_hist (owner1 ERPS_STATE_IDLE ERPS_REQ_INVALID False True)
      (erps_tx_work calm0 (0, 1) (owner1 ERPS_STATE_IDLE ERPS_REQ_INVALID False True))) \<and>
    length bs = 37 \<and> raps_pdu_get_subcode (raps_pdu_of_bytes bs) = 0"
proof -
  let ?s = "owner1 ERPS_STATE_IDLE ERPS_REQ_INVALID False True"
  have ok: "ring_ok calm0 ?s" by (rule owner1_ring_ok) auto
  have "erps_link_get_node_id calm0 (0, 1) u = Inr (mac_if 3)" if "nodes u = nodes ?s" for u
  proof -
    have l: "erps_link_get_node u (0, 1) = 0" using that by (intro get_node_eq) simp_all
    have "dev (ports (nodes u 0) 0) = 3" using that by (simp add: owner1_def node_init_defs)
    then show ?thesis
      unfolding erps_link_get_node_id_def l Let_def
      by (simp add: calm_lookup) (simp add: calm_def mac_of_bytes_def mac_if_def)
  qed
  then obtain bs where bs: "PktSetData 7 bs 0 \<in> set (new_hist ?s (erps_tx_work calm0 (0, 1) ?s))"
    using calm_airs [of ?s 0 1] by auto
  from pdus_well_typed [OF ok reach_refl, of 0 1, OF _ _ bs refl] bs show ?thesis
    by auto
qed

text \<open>
  C9. From the devicetree to any later moment: in an idle ring, the neighbour of the RPL owner has
  its end of the RPL blocked and its other port open, in the driver as in its flags; and so has the
  owner as long as no frame can reach it that says NR,RB, which is for the owner alone to say.
\<close>

theorem idle_blocks_rpl_from_boot:
  assumes "env_accepts z" and "ifaces_distinct z (erps_boot ds)"
    and "\<And>d. d \<in> set ds \<Longrightarrow> erps_node_build_asserts d \<and> dt_ring_id d \<noteq> None"
    and "\<And>dv. net_if_lookup_by_dev z dv \<noteq> None"
    and "erps_init z (erps_boot ds) = Some (r, s)" and "reach (erps_handle z) (erps_ready z) s t"
    and "n < nnodes t" and "state (nodes t n) = ERPS_STATE_IDLE"
    and "rpl_nbr (nodes t n) \<or> rpl_owner (nodes t n) \<and> hears_no_rb z"
  shows "split_at z n 1 t"
proof -
  have s: "nnodes s = length ds" "ring_ok z s" "\<And>n. n < length ds \<Longrightarrow> up z s n"
    using boot_up [OF assms(1-4)] assms(5) by auto
  have b: "blocked (lnk t (n, 1)) \<and> \<not> blocked (lnk t (n, 0)) \<and> node_ok z t n"
    if "reverted_ok z t"
    using that assms(7-9) sys_okD(5) [of z t n]
    by (auto simp: reverted_ok_def rpl_end_def ab_reverted_def ab_of_def)
  have "sys_ok z s"
    using assms(1,4) s(2) by (intro up_sys_ok) (simp_all add: env_accepts_def)
  then have "reverted_ok z s"
    using s(1,3) by (simp add: reverted_ok_def ab_reverted_def ab_of_def up_def)
  then have "reverted_ok z t" by (rule reverted.reach_ok [OF assms(6)])
  then show ?thesis
    using b by (simp add: split_at_def node_ok_def)
qed

theorem idle_blocks_rpl_from_boot_witness:
  "\<exists>s t. erps_init calm0 (erps_boot [dt_owner]) = Some (0, s) \<and>
    erps_handle calm0 (WtrTimer 0) s = Some t \<and> state (nodes t 0) = ERPS_STATE_IDLE \<and> split_at calm0 0 1 t"
proof -
  have no: "hears_no_rb calm0"
    by (auto simp: hears_no_rb_def may_carry_def calm_def hdr5_def raps_pdu_rb_def raps_pdu_of_bytes_def)
  have d: "ifaces_distinct calm0 (erps_boot [dt_owner])" "\<And>dv. net_if_lookup_by_dev calm0 dv \<noteq> None"
    "\<And>d. d \<in> set [dt_owner] \<Longrightarrow> erps_node_build_asserts d \<and> dt_ring_id d \<noteq> None"
    by (simp_all add: calm_lookup ifaces_distinct_def all_links_def erps_boot_def lnk_def ring3_dev)
      (simp_all add: dt_owner_def dt_plain_def)
  obtain s where s: "erps_init calm0 (erps_boot [dt_owner]) = Some (0, s)" "ring_ok calm0 s" "up calm0 s 0"
    "nnodes s = 1" "node_cfg (nodes s 0) = node_cfg (ERPS_NODE_INIT dt_owner)"
    using boot_up [OF calm_env_accepts d(1,3,2)] by (auto simp: erps_boot_def)
  have role: "rpl_owner (nodes s 0)"
    using s(5) by (simp add: node_cfg_def node_init_defs)
  have ok: "sys_ok calm0 s"
    by (rule up_sys_ok [OF calm_driver_ok s(2)]) (simp add: calm_lookup)
  have a: "absr calm0 0 (ab_of calm0 0 s) s" using sys_okD(4) [OF ok] s(4) by simp
  have "wp (erps_fsm_post calm0 (0, 0) ERPS_REQ_WTR_EXPIRES None s)
      (\<lambda>_ t. \<exists>h. ab_of calm0 0 t = g8032 h 0 ERPS_REQ_WTR_EXPIRES (ab_of calm0 0 s))"
    by (rule sim_post [OF calm_driver_ok a]) (auto simp: absr_def)
  then obtain h t where t: "erps_handle calm0 (WtrTimer 0) s = Some t"
    "ab_of calm0 0 t = g8032 h 0 ERPS_REQ_WTR_EXPIRES (ab_of calm0 0 s)"
    by (auto simp: wp_iff_Some erps_wtr_work_def)
  have r: "reach (erps_handle calm0) (erps_ready calm0) s t"
    by (rule reach_step [where ev = "WtrTimer 0", OF reach_refl]) (simp_all add: s(4) t(1) del: erps_handle.simps)
  have "ERPS_REQ_WTR_EXPIRES \<le> local_topreq (nodes s 0)"
    using s(3) by (auto simp: up_def boot_top_def req_order)
  then have i: "state (nodes t 0) = ERPS_STATE_IDLE" "rpl_owner (nodes t 0)"
    using table_wtr_expires(1) [of "ab_of calm0 0 s" h 0] role s(3)
    by (simp_all add: ab_of_fields [where z = calm0] t(2) up_def)
  have "nnodes t = 1"
    using reachable_config_fixed [OF s(2) r] s(4) by simp
  with idle_blocks_rpl_from_boot [OF calm_env_accepts d(1,3,2) s(1) r] i no s(1) t(1) show ?thesis
    by auto
qed

section \<open>A ring of devices\<close>

text \<open>
  C3. A ring that starts has no loop. Any number of devices boot from their devicetrees, each in an
  environment of its own; then anything happens but a failure or an operator's switch: timers
  expire or are cleared, PDUs are sent, and what was sent reaches any device, at any time, any
  number of times and in any order, or gets lost. There is always a device with a ring port that
  is blocked, in its flags and in its driver.
\<close>

theorem startup_loop_free:
  assumes "0 < M" and "\<And>m. m < M \<Longrightarrow> starts_as (zs m) (ds m) (addr m) (devs N m)" and "wire N = []"
    and "reach (net_handle zs) (\<lambda>N e. net_ready zs M N e \<and> peaceful e) N N'"
  shows "\<exists>m < M. \<exists>p < 2. blocks (zs m) (devs N' m) (0, p)"
proof -
  obtain c where c: "c < M" "\<forall>m < M. mac_le (addr m) (addr c)"
    using champion_exists [OF assms(1)] by blast
  have "quiet_net zs M addr c N" by (rule starts_quiet_net [OF assms(2,3) c(1)])
  then have "quiet_net zs M addr c N'"
    using quiet.reach_ok [OF assms(4), of c addr] c by blast
  then show ?thesis using c(1) by (rule quiet_net_blocks)
qed

theorem startup_loop_free_witness:
  "\<exists>N N'. starts_as calm0 dt_owner (mac_if 3) (devs N 0) \<and> starts_as (calm9_hearing (replicate 37 0)) dt_nbr (mac_if 9) (devs N 1) \<and>
    net_handle (ring2_env (replicate 37 0)) (0, WtrTimer 0) N = Some N' \<and>
    (\<exists>m < 2. \<exists>p < 2. blocks ((ring2_env (replicate 37 0)) m) (devs N' m) (0, p))"
proof -
  obtain s t where st: "starts_as calm0 dt_owner (mac_if 3) s" "starts_as (calm9_hearing (replicate 37 0)) dt_nbr (mac_if 9) t"
    using owner_starts nbr_starts by blast
  define N where "N = \<lparr>devs = \<lambda>m. if m = 0 then s else t, wire = []\<rparr>"
  have dev: "starts_as ((ring2_env (replicate 37 0)) m) (if m = 0 then dt_owner else dt_nbr) (if m = 0 then mac_if 3 else mac_if 9)
      (devs N m)" for m
    using st by (simp add: ring2_env_def N_def)
  have "nnodes s = 1" using starts_quiet(2) [OF st(1)] by (simp add: has_addr_def)
  then have ready: "net_ready (ring2_env (replicate 37 0)) 2 N (0, WtrTimer 0) \<and> peaceful (0, WtrTimer 0)"
    by (simp add: N_def)
  have "net_ok (ring2_env (replicate 37 0)) 2 N"
    using starts_quiet(1) [OF dev] by (simp add: net_ok_def)
  then obtain N' where N': "net_handle (ring2_env (replicate 37 0)) (0, WtrTimer 0) N = Some N'"
    using net_handle_ok [of "ring2_env (replicate 37 0)" 2 N "(0, WtrTimer 0)"] ready by blast
  have "reach (net_handle (ring2_env (replicate 37 0))) (\<lambda>N e. net_ready (ring2_env (replicate 37 0)) 2 N e \<and> peaceful e) N N'"
    by (rule reach_one [where ev = "(0, WtrTimer 0)"]) (rule ready, rule N')
  then have "\<exists>m < 2. \<exists>p < 2. blocks ((ring2_env (replicate 37 0)) m) (devs N' m) (0, p)"
    using dev by (intro startup_loop_free [where N = N and
        ds = "\<lambda>m. if m = 0 then dt_owner else dt_nbr" and addr = "\<lambda>m. if m = 0 then mac_if 3 else mac_if 9"])
      (simp_all add: N_def)
  then show ?thesis using st N' by (intro exI [of _ N] exI [of _ N']) (simp add: N_def)
qed

end
