(* ===== verification/Erps_Props_Ring.thy ===== *)
theory Erps_Props_Ring
  imports Erps_Example
begin

text \<open>
  The rounds of a ring of devices: it comes to rest, a failure is protected from, the recovery is
  heard of, and it comes to rest again.
\<close>

declare raps_req_states [simp del]

section \<open>A failure\<close>

text \<open>
  C2. A ring at rest survives the failure of a link. A device that is told of the failure of its
  port \<open>p\<close>, or whose link-down timer expires, posts SF and its transmit work item runs; when every
  other device hears the PDU that is then on the air, every device is in PROTECTION, and in the
  whole ring the failed port and no other port is blocked, in the flags as in the drivers: the RPL
  carries the traffic now.
\<close>

theorem ring_protects:
  assumes "\<And>m. m < M \<Longrightarrow> stands (zs m) (addr m) rests (devs N m)"
    and "f < M" and "posts (zs f) (devs N f) ev p ERPS_REQ_SF"
    and "\<And>h. k_mutex_lock (zs f) h 0 (K_MSEC 250) = 0" and "q < 2"
    and "net_handle zs (f, ev) N = Some N1" and "net_handle zs (f, TxTimer 0 q) N1 = Some N2"
    and "pdu \<in> set (sent (TxTimer 0 q) (devs N1 f) (devs N2 f))"
    and "\<And>m. m < M \<Longrightarrow> m \<noteq> f \<Longrightarrow> hears (zs m) (i m) (k m) pdu (devs N m) 0 \<and>
      (\<forall>pdu'. may_carry (zs m) (k m) pdu' \<longrightarrow> pdu' = pdu)"
  shows "\<exists>N'. reach (net_handle zs) (net_ready zs M) N N' \<and>
    (\<forall>m < M. stands (zs m) (addr m) (protects (if m = f then {p} else {})) (devs N' m) \<and>
      (\<forall>r < 2. blocks (zs m) (devs N' m) (0, r) = (m = f \<and> r = p)))"
proof -
  let ?Q = "\<lambda>m. protects (if m = f then {p} else {})"
  note d = standsD [OF assms(1)]
  have p: "p < 2" using postsD(1) [OF assms(3) d(1,4)] assms(2) by blast
  have v: "rests (view zs N m)" if "m < M" for m using d(3) [OF that] by (simp add: view_def)
  have "\<exists>N'. reach (net_handle zs) (\<lambda>N e. net_ready zs M N e \<and> True) N N' \<and>
      (\<forall>m < M. stands (zs m) (addr m) (?Q m) (devs N' m))"
  proof (rule one_speaks [where P = "\<lambda>_. True" and Q = ?Q, OF _ assms(2,3,5,4,6-9)])
    show "?Q f (g8032 h p ERPS_REQ_SF (view zs N f)) \<and>
        msg_request (ab_msg (g8032 h p ERPS_REQ_SF (view zs N f))) = Some ERPS_REQ_RAPS_SF" for h
      using fails_protects [OF v [OF assms(2)] p] by simp
    show "?Q m (g8032 h r ERPS_REQ_RAPS_SF x)" if "m < M" "m \<noteq> f" "core x = core (view zs N m)" for m h r x
      using hears_protects v [OF that(1)] that(2) core_rounds(1) [OF that(3)] by simp
    show "?Q f x = ?Q f y" if "core x = core y" for x y
      by (rule core_rounds(2) [OF that])
  qed (use d in auto)
  then obtain N' where N': "reach (net_handle zs) (net_ready zs M) N N'"
    "\<And>m. m < M \<Longrightarrow> stands (zs m) (addr m) (?Q m) (devs N' m)" by auto
  moreover have "blocks (zs m) (devs N' m) (0, r) = (m = f \<and> r = p)" if "m < M" "r < 2" for m r
    using stands_blocks [OF N'(2) [OF that(1)] that(2)] standsD(3) [OF N'(2) [OF that(1)]] that(2)
    by (simp add: protects_def)
  ultimately show ?thesis by blast
qed

theorem ring_protects_witness:
  "\<exists>body N N'. stands calm0 (mac_if 3) rests (devs N 0) \<and> stands (calm9_hearing body) (mac_if 9) rests (devs N 1) \<and>
    reach (net_handle (ring2_env body)) (net_ready (ring2_env body) 2) N N' \<and>
    blocks calm0 (devs N' 0) (0, 0) \<and> \<not> blocks calm0 (devs N' 0) (0, 1) \<and>
    \<not> blocks (calm9_hearing body) (devs N' 1) (0, 0) \<and> \<not> blocks (calm9_hearing body) (devs N' 1) (0, 1)"
proof -
  define s where "s = dev_in dt_owner ERPS_STATE_IDLE ERPS_REQ_INVALID {1} {}"
  define r where "r = dev_in dt_nbr ERPS_STATE_IDLE ERPS_REQ_INVALID {1} {}"
  have s: "stands calm0 (mac_if 3) rests s"
    unfolding s_def by (rule owner_in) (simp_all add: rests_def node_init_defs)
  have r: "stands (calm9_hearing body) (mac_if 9) rests r" for body
    unfolding r_def by (rule nbr_in) (simp_all add: rests_def node_init_defs)
  have cfg: "node_cfg (nodes r 0) = node_cfg (ERPS_NODE_INIT dt_nbr)" by (simp add: r_def)
  have po: "posts calm0 s (Ctl (Some 3) ERPS_SIGNAL_FAIL) 0 ERPS_REQ_SF"
    by (simp add: posts_def erps_link_lookup_by_iface_def all_links_def s_def ring3_dev) (simp add: calm_def)
  obtain body pdu N1 N2 where w: "net_handle (ring2_env body) (0, Ctl (Some 3) ERPS_SIGNAL_FAIL) (ring2 s r) = Some N1"
    "net_handle (ring2_env body) (0, TxTimer 0 1) N1 = Some N2"
    "pdu \<in> set (sent (TxTimer 0 1) (devs N1 0) (devs N2 0))"
    "\<forall>m. m \<noteq> 0 \<longrightarrow> hears (ring2_env body m) (Some 5) 7 pdu (devs (ring2 s r) m) 0 \<and>
      (\<forall>pdu'. may_carry (ring2_env body m) 7 pdu' \<longrightarrow> pdu' = pdu)"
    using ring2_speaks [OF s po, where r = "\<lambda>_. r", OF r cfg] by (elim exE conjE)
  have "\<exists>N'. reach (net_handle (ring2_env body)) (net_ready (ring2_env body) 2) (ring2 s r) N' \<and>
      (\<forall>m < 2. stands (ring2_env body m) (addr2 m) (protects (if m = 0 then {0} else {})) (devs N' m) \<and>
        (\<forall>r < 2. blocks (ring2_env body m) (devs N' m) (0, r) = (m = 0 \<and> r = 0)))"
  proof (rule ring_protects [OF _ _ _ _ _ w(1-3)])
    show "stands (ring2_env body m) (addr2 m) rests (devs (ring2 s r) m)" for m
      using s r by (cases m) simp_all
    show "hears (ring2_env body m) (Some 5) 7 pdu (devs (ring2 s r) m) 0 \<and>
        (\<forall>pdu'. may_carry (ring2_env body m) 7 pdu' \<longrightarrow> pdu' = pdu)" if "m \<noteq> 0" for m
      using w(4) that by blast
  qed (use po in simp_all)
  then obtain N' where N': "reach (net_handle (ring2_env body)) (net_ready (ring2_env body) 2) (ring2 s r) N'"
    "\<And>m r. m < 2 \<Longrightarrow> r < 2 \<Longrightarrow> blocks (ring2_env body m) (devs N' m) (0, r) = (m = 0 \<and> r = 0)" by blast
  have "blocks calm0 (devs N' 0) (0, 0)" "\<not> blocks calm0 (devs N' 0) (0, 1)"
    "\<not> blocks (calm9_hearing body) (devs N' 1) (0, 0)" "\<not> blocks (calm9_hearing body) (devs N' 1) (0, 1)"
    using N'(2) [of 0 0] N'(2) [of 0 1] N'(2) [of 1 0] N'(2) [of 1 1] by simp_all
  moreover have "stands calm0 (mac_if 3) rests (devs (ring2 s r) 0)"
    "stands (calm9_hearing body) (mac_if 9) rests (devs (ring2 s r) 1)" using s r by simp_all
  ultimately show ?thesis using N'(1) by (intro exI conjI)
qed

section \<open>The recovery\<close>

text \<open>
  C6. The ring hears of the recovery and waits. The device whose port has failed, not the RPL, is
  told that it has recovered, and its transmit work item runs; when every other device hears the
  PDU that is then on the air, every device is in PENDING, nothing has been switched, and the
  revertive owner of the RPL, wherever it is, has its WTR timer running.
\<close>

theorem ring_recovers:
  assumes "\<And>m. m < M \<Longrightarrow> stands (zs m) (addr m) (protects (if m = f then {p} else {})) (devs N m)"
    and "f < M" and "posts (zs f) (devs N f) ev p ERPS_REQ_CLEAR_SF"
    and "p = 1 \<Longrightarrow> \<not> rpl_owner (nodes (devs N f) 0) \<and> \<not> rpl_nbr (nodes (devs N f) 0)"
    and "\<And>h. k_mutex_lock (zs f) h 0 (K_MSEC 250) = 0" and "q < 2"
    and "net_handle zs (f, ev) N = Some N1" and "net_handle zs (f, TxTimer 0 q) N1 = Some N2"
    and "pdu \<in> set (sent (TxTimer 0 q) (devs N1 f) (devs N2 f))"
    and "\<And>m. m < M \<Longrightarrow> m \<noteq> f \<Longrightarrow> hears (zs m) (i m) (k m) pdu (devs N m) 0 \<and>
      (\<forall>pdu'. may_carry (zs m) (k m) pdu' \<longrightarrow> pdu' = pdu)"
    and "\<And>m. m < M \<Longrightarrow> \<not> k_work_delayable_is_pending (zs m) (hist (devs N m)) (WtrWork 0)"
  shows "\<exists>N'. reach (net_handle zs) (net_ready zs M) N N' \<and>
    (\<forall>m < M. stands (zs m) (addr m) waits_on (devs N' m) \<and>
      (\<forall>r < 2. blocks (zs m) (devs N' m) (0, r) = (m = f \<and> r = p)) \<and>
      local_topreq (nodes (devs N' m) 0) =
        (if rpl_owner (nodes (devs N' m) 0) \<and> revertive (nodes (devs N' m) 0)
         then ERPS_REQ_WTR_RUNNING else ERPS_REQ_INVALID))"
proof -
  define Q where "Q m x \<longleftrightarrow> waits_on x \<and> (\<forall>r < 2. ab_blocked x r = (m = f \<and> r = p)) \<and>
    ab_top x = (if reverts x then ERPS_REQ_WTR_RUNNING else ERPS_REQ_INVALID)" for m x
  note d = standsD [OF assms(1)]
  have p: "p < 2" using postsD(1) [OF assms(3) d(1,4)] assms(2) by blast
  have v: "protects (if m = f then {p} else {}) (view zs N m) \<and> \<not> ab_wtr (view zs N m)" if "m < M" for m
    using d(3) [OF that] assms(11) [OF that] by (simp add: view_def ab_of_def)
  have rpl: "p = 1 \<Longrightarrow> \<not> ab_has_rpl (view zs N f)"
    using assms(4) by (simp add: view_def ab_has_rpl_def ab_of_def)
  have "\<exists>N'. reach (net_handle zs) (\<lambda>N e. net_ready zs M N e \<and> True) N N' \<and>
      (\<forall>m < M. stands (zs m) (addr m) (Q m) (devs N' m))"
  proof (rule one_speaks [where P = "\<lambda>_. True" and Q = Q, OF _ assms(2,3,6,5,7-10)])
    show "Q f (g8032 h p ERPS_REQ_CLEAR_SF (view zs N f)) \<and>
        msg_request (ab_msg (g8032 h p ERPS_REQ_CLEAR_SF (view zs N f))) = Some ERPS_REQ_RAPS_NR" for h
      using clears_waits [of p "view zs N f" h] v [OF assms(2)] rpl p
      by (auto simp: Q_def protects_def)
    show "Q m (g8032 h r ERPS_REQ_RAPS_NR x)"
      if "m < M" "m \<noteq> f" "core x = core (view zs N m)" "ab_wtr x = ab_wtr (view zs N m)" for m h r x
    proof -
      have x: "protects {} x" "\<not> ab_wtr x"
        using v [OF that(1)] that(2,4) by (simp_all add: core_rounds(2) [OF that(3)])
      then have "\<forall>r < 2. \<not> ab_blocked x r" by (simp add: protects_def)
      then show ?thesis using hears_waits [OF x(1), of h r] x(2) that(2) by (simp add: Q_def)
    qed
    show "Q f x = Q f y" if "core x = core y" for x y
      using core_rounds(3,4) [OF that] core_eqD [OF that] by (simp add: Q_def)
  qed (use d in auto)
  then obtain N' where N': "reach (net_handle zs) (net_ready zs M) N N'"
    "\<And>m. m < M \<Longrightarrow> stands (zs m) (addr m) (Q m) (devs N' m)" by auto
  have "stands (zs m) (addr m) waits_on (devs N' m) \<and>
      (\<forall>r < 2. blocks (zs m) (devs N' m) (0, r) = (m = f \<and> r = p)) \<and>
      local_topreq (nodes (devs N' m) 0) = (if rpl_owner (nodes (devs N' m) 0) \<and> revertive (nodes (devs N' m) 0)
        then ERPS_REQ_WTR_RUNNING else ERPS_REQ_INVALID)" if "m < M" for m
    using standsD(3) [OF N'(2) [OF that]] stands_blocks [OF N'(2) [OF that]]
      stands_mono [OF N'(2) [OF that], of waits_on]
    by (simp add: Q_def reverts_def) (simp add: ab_of_def)
  with N'(1) show ?thesis by blast
qed

theorem ring_recovers_witness:
  "\<exists>body N N'. stands calm0 (mac_if 3) (protects {0}) (devs N 0) \<and>
    stands (calm9_hearing body) (mac_if 9) (protects {}) (devs N 1) \<and>
    reach (net_handle (ring2_env body)) (net_ready (ring2_env body) 2) N N' \<and>
    stands calm0 (mac_if 3) waits_on (devs N' 0) \<and> stands (calm9_hearing body) (mac_if 9) waits_on (devs N' 1) \<and>
    blocks calm0 (devs N' 0) (0, 0)"
proof -
  define s where "s = dev_in dt_owner ERPS_STATE_PROTECTION ERPS_REQ_SF {0} {0}"
  define r where "r = dev_in dt_nbr ERPS_STATE_PROTECTION ERPS_REQ_INVALID {} {}"
  have s: "stands calm0 (mac_if 3) (protects {0}) s"
    unfolding s_def by (rule owner_in) (simp_all add: protects_def)
  have r: "stands (calm9_hearing body) (mac_if 9) (protects {}) r" for body
    unfolding r_def by (rule nbr_in) (simp_all add: protects_def)
  have cfg: "node_cfg (nodes r 0) = node_cfg (ERPS_NODE_INIT dt_nbr)" by (simp add: r_def)
  have po: "posts calm0 s (Ctl (Some 3) ERPS_CLEAR_SIGNAL_FAIL) 0 ERPS_REQ_CLEAR_SF"
    by (simp add: posts_def erps_link_lookup_by_iface_def all_links_def s_def ring3_dev) (simp add: calm_def)
  obtain body pdu N1 N2 where w: "net_handle (ring2_env body) (0, Ctl (Some 3) ERPS_CLEAR_SIGNAL_FAIL) (ring2 s r) = Some N1"
    "net_handle (ring2_env body) (0, TxTimer 0 1) N1 = Some N2"
    "pdu \<in> set (sent (TxTimer 0 1) (devs N1 0) (devs N2 0))"
    "\<forall>m. m \<noteq> 0 \<longrightarrow> hears (ring2_env body m) (Some 5) 7 pdu (devs (ring2 s r) m) 0 \<and>
      (\<forall>pdu'. may_carry (ring2_env body m) 7 pdu' \<longrightarrow> pdu' = pdu)"
    using ring2_speaks [OF s po, where r = "\<lambda>_. r", OF r cfg] by (elim exE conjE)
  let ?P = "\<lambda>N' m. stands (ring2_env body m) (addr2 m) waits_on (devs N' m) \<and>
      (\<forall>r < 2. blocks (ring2_env body m) (devs N' m) (0, r) = (m = 0 \<and> r = 0)) \<and>
      local_topreq (nodes (devs N' m) 0) =
        (if rpl_owner (nodes (devs N' m) 0) \<and> revertive (nodes (devs N' m) 0)
         then ERPS_REQ_WTR_RUNNING else ERPS_REQ_INVALID)"
  have "\<exists>N'. reach (net_handle (ring2_env body)) (net_ready (ring2_env body) 2) (ring2 s r) N' \<and> (\<forall>m < 2. ?P N' m)"
  proof (rule ring_recovers [OF _ _ _ _ _ _ w(1-3)])
    show "stands (ring2_env body m) (addr2 m) (protects (if m = 0 then {0} else {})) (devs (ring2 s r) m)" for m
      using s r by (cases m) simp_all
    show "hears (ring2_env body m) (Some 5) 7 pdu (devs (ring2 s r) m) 0 \<and>
        (\<forall>pdu'. may_carry (ring2_env body m) 7 pdu' \<longrightarrow> pdu' = pdu)" if "m \<noteq> 0" for m
      using w(4) that by blast
    show "\<not> k_work_delayable_is_pending (ring2_env body m) (hist (devs (ring2 s r) m)) (WtrWork 0)" for m
      by (cases m) (simp_all add: s_def r_def dev_in_def calm9_hearing_def calm_def)
  qed (use po in simp_all)
  then obtain N' where N': "reach (net_handle (ring2_env body)) (net_ready (ring2_env body) 2) (ring2 s r) N'"
    "\<And>m. m < 2 \<Longrightarrow> ?P N' m" by blast
  have "blocks calm0 (devs N' 0) (0, 0)" "stands calm0 (mac_if 3) waits_on (devs N' 0)"
    "stands (calm9_hearing body) (mac_if 9) waits_on (devs N' 1)"
    using N'(2) [of 0] N'(2) [of 1] by simp_all
  moreover have "stands calm0 (mac_if 3) (protects {0}) (devs (ring2 s r) 0)"
    "stands (calm9_hearing body) (mac_if 9) (protects {}) (devs (ring2 s r) 1)" using s r by simp_all
  ultimately show ?thesis using N'(1) by (intro exI conjI)
qed

section \<open>The return to rest\<close>

text \<open>
  C5. A ring that waits comes to rest: one that has started (\<open>starts_waits\<close>), or has recovered from
  a failure (\<open>ring_recovers\<close>). One of the devices is the owner of the RPL. Its WTR timer expires, its transmit work item runs, and when every other
  device hears the PDU that is then on the air, the ring is where it belongs: every device is in
  IDLE, the ports of the RPL are blocked and no other port is, in the flags as in the drivers.
\<close>

theorem ring_settles:
  assumes "\<And>m. m < M \<Longrightarrow> stands (zs m) (addr m) waits_on (devs N m)"
    and "own < M" and "\<And>m. m < M \<Longrightarrow> rpl_owner (nodes (devs N m) 0) = (m = own)"
    and "\<And>h. k_mutex_lock (zs own) h 0 (K_MSEC 250) = 0" and "q < 2"
    and "net_handle zs (own, WtrTimer 0) N = Some N1" and "net_handle zs (own, TxTimer 0 q) N1 = Some N2"
    and "pdu \<in> set (sent (TxTimer 0 q) (devs N1 own) (devs N2 own))"
    and "\<And>m. m < M \<Longrightarrow> m \<noteq> own \<Longrightarrow> hears (zs m) (i m) (k m) pdu (devs N m) 0 \<and>
      (\<forall>pdu'. may_carry (zs m) (k m) pdu' \<longrightarrow> pdu' = pdu)"
  shows "\<exists>N'. reach (net_handle zs) (\<lambda>N e. net_ready zs M N e \<and> peaceful e) N N' \<and>
    (\<forall>m < M. stands (zs m) (addr m) rests (devs N' m) \<and>
      (\<forall>r < 2. blocks (zs m) (devs N' m) (0, r) =
        (r = 1 \<and> (rpl_owner (nodes (devs N' m) 0) \<or> rpl_nbr (nodes (devs N' m) 0)))))"
proof -
  note d = standsD [OF assms(1)]
  have v: "waits_on (view zs N m) \<and> ab_owner (view zs N m) = (m = own)" if "m < M" for m
    using d(3) [OF that] assms(3) [OF that] by (simp add: view_def ab_of_def)
  have po: "posts (zs own) (devs N own) (WtrTimer 0) 0 ERPS_REQ_WTR_EXPIRES" by (simp add: posts_def)
  have "\<exists>N'. reach (net_handle zs) (\<lambda>N e. net_ready zs M N e \<and> peaceful e) N N' \<and>
      (\<forall>m < M. stands (zs m) (addr m) rests (devs N' m))"
  proof (rule one_speaks [where P = peaceful and Q = "\<lambda>_. rests", OF _ assms(2) po assms(5,4,6-9)])
    show "rests (g8032 h 0 ERPS_REQ_WTR_EXPIRES (view zs N own)) \<and>
        msg_request (ab_msg (g8032 h 0 ERPS_REQ_WTR_EXPIRES (view zs N own))) = Some ERPS_REQ_RAPS_NR_RB" for h
      using restores_rests v [OF assms(2)] by blast
    show "rests (g8032 h r ERPS_REQ_RAPS_NR_RB x)" if "m < M" "m \<noteq> own" "core x = core (view zs N m)" for m h r x
      using hears_rests [of x] v [OF that(1)] that(2) core_rounds(3) [OF that(3)] core_eqD(1) [OF that(3)] by simp
    show "sys_ok (zs m) (devs N m) \<and> has_addr (zs m) (addr m) (devs N m)" if "m < M" for m
      using d(1,2) [OF that] by simp
    show "rests x = rests y" if "core x = core y" for x y by (rule core_rounds(1) [OF that])
  qed simp_all
  then obtain N' where N': "reach (net_handle zs) (\<lambda>N e. net_ready zs M N e \<and> peaceful e) N N'"
    "\<And>m. m < M \<Longrightarrow> stands (zs m) (addr m) rests (devs N' m)" by auto
  moreover have "blocks (zs m) (devs N' m) (0, r) =
      (r = 1 \<and> (rpl_owner (nodes (devs N' m) 0) \<or> rpl_nbr (nodes (devs N' m) 0)))" if "m < M" "r < 2" for m r
    using stands_blocks [OF N'(2) [OF that(1)] that(2)] standsD(3) [OF N'(2) [OF that(1)]] that(2)
    by (auto simp: rests_def ab_has_rpl_def less_2_disj) (auto simp: ab_of_def)
  ultimately show ?thesis by blast
qed

theorem ring_settles_witness:
  "\<exists>body N N'. starts_as calm0 dt_owner (mac_if 3) (devs N 0) \<and>
    starts_as (calm9_hearing body) dt_nbr (mac_if 9) (devs N 1) \<and>
    reach (net_handle (ring2_env body)) (\<lambda>N e. net_ready (ring2_env body) 2 N e \<and> peaceful e) N N' \<and>
    stands calm0 (mac_if 3) rests (devs N' 0) \<and> stands (calm9_hearing body) (mac_if 9) rests (devs N' 1)"
proof -
  obtain s r where st: "starts_as calm0 dt_owner (mac_if 3) s"
    "\<And>body. starts_as (calm9_hearing body) dt_nbr (mac_if 9) (r body)"
    using owner_starts nbr_starts by metis
  have po: "posts calm0 s (WtrTimer 0) 0 ERPS_REQ_WTR_EXPIRES" by (simp add: posts_def)
  obtain body pdu N1 N2 where w: "net_handle (ring2_env body) (0, WtrTimer 0) (ring2 s (r body)) = Some N1"
    "net_handle (ring2_env body) (0, TxTimer 0 1) N1 = Some N2"
    "pdu \<in> set (sent (TxTimer 0 1) (devs N1 0) (devs N2 0))"
    "\<forall>m. m \<noteq> 0 \<longrightarrow> hears (ring2_env body m) (Some 5) 7 pdu (devs (ring2 s (r body)) m) 0 \<and>
      (\<forall>pdu'. may_carry (ring2_env body m) 7 pdu' \<longrightarrow> pdu' = pdu)"
    using ring2_speaks [OF starts_waits [OF st(1)] po starts_waits [OF st(2)] boot_cfg [OF st(2)]]
    by (elim exE conjE)
  let ?N = "ring2 s (r body)"
  have "\<exists>N'. reach (net_handle (ring2_env body)) (\<lambda>N e. net_ready (ring2_env body) 2 N e \<and> peaceful e) ?N N' \<and>
      (\<forall>m < 2. stands (ring2_env body m) (addr2 m) rests (devs N' m) \<and>
        (\<forall>r < 2. blocks (ring2_env body m) (devs N' m) (0, r) =
          (r = 1 \<and> (rpl_owner (nodes (devs N' m) 0) \<or> rpl_nbr (nodes (devs N' m) 0)))))"
  proof (rule ring_settles [where own = 0, OF _ _ _ _ _ w(1-3)])
    show "stands (ring2_env body m) (addr2 m) waits_on (devs ?N m)" for m
      using starts_waits [OF st(1)] starts_waits [OF st(2)] by (cases m) simp_all
    show "rpl_owner (nodes (devs ?N m) 0) = (m = 0)" for m
      using boot_role [OF st(1)] boot_role [OF st(2)] by (cases m) (simp_all add: node_init_defs)
    show "hears (ring2_env body m) (Some 5) 7 pdu (devs ?N m) 0 \<and>
        (\<forall>pdu'. may_carry (ring2_env body m) 7 pdu' \<longrightarrow> pdu' = pdu)" if "m \<noteq> 0" for m
      using w(4) that by blast
  qed simp_all
  then obtain N' where N': "reach (net_handle (ring2_env body)) (\<lambda>N e. net_ready (ring2_env body) 2 N e \<and> peaceful e) ?N N'"
    "\<And>m. m < 2 \<Longrightarrow> stands (ring2_env body m) (addr2 m) rests (devs N' m)" by blast
  have "stands calm0 (mac_if 3) rests (devs N' 0)" "stands (calm9_hearing body) (mac_if 9) rests (devs N' 1)"
    using N'(2) [of 0] N'(2) [of 1] by simp_all
  moreover have "starts_as calm0 dt_owner (mac_if 3) (devs ?N 0)"
    "starts_as (calm9_hearing body) dt_nbr (mac_if 9) (devs ?N 1)" using st by simp_all
  ultimately show ?thesis using N'(1) by (intro exI conjI)
qed

end
