(* ===== verification/Spec2Isabelle.thy ===== *)
theory Spec2Isabelle
  imports Erps_Props_Fsm Erps_Props_Wire Erps_Props_Api Erps_Props_Net Erps_Props_Ring
begin

text \<open>
  A model of the Ethernet Ring Protection Switching (ITU-T G.8032, ERPS) implementation for
  Zephyr, and the theorems that make it correct. File names are relative to
  \<^verbatim>\<open>src/subsys/net/l2/ethernet/erps/\<close> unless they begin with \<^verbatim>\<open>src/\<close>.

  \<^bold>\<open>The program.\<close> A node sits on a ring with two ports. While the ring is whole, the owner of the
  ring protection link (RPL) keeps that link blocked, so the ring has no loop; when a link fails,
  the nodes next to it block it and the RPL is opened. Nodes agree by R-APS messages. Requests of
  four kinds reach the state machine of a node (\<open>erps_fsm_post\<close>): operator commands (\<^verbatim>\<open>erps-ctl.c\<close>,
  and the shell on top of it), carrier changes, received R-APS frames, and expired timers. They
  pass a priority filter, and a handler per state then switches ports, flushes forwarding
  databases, starts and stops timers and announces a message, which a delayable work item per
  port sends in a burst and then every five seconds.

  \<^bold>\<open>State and effects.\<close> A \<open>sys\<close> holds the nodes of the iterable section, numbered in its order, and
  a history. A pointer to a node is its number, a pointer to a link is a pair of node and port.
  Everything the sources call and do not define (drivers, network stack, kernel timers, mutexes,
  packets) is a field of the record \<open>zephyr\<close>, an argument of every definition that uses it. The
  calls with an effect are appended to the history with their arguments and results, and the
  answer of a call may depend on all of it, so a theorem about any \<open>zephyr\<close> is one about any
  environment, failing drivers included. What is needed of the environment is named in the
  theorem: \<open>driver_ok\<close> (commands succeed), \<open>env_accepts\<close> (so does everything at start-up).
  A C function is a function of the same name that returns its result and the new state. It
  returns \<open>None\<close> where the C code has no defined behaviour: a null pointer is dereferenced or an
  assertion fails. Error numbers are negative \<open>int\<close>s, bytes are \<open>8 word\<close>s.

  \<^bold>\<open>Theories of the model.\<close>
  \<^item> \<^verbatim>\<open>Erps_Prelude\<close>: C-like sequencing (\<open>on_ok\<close>, \<open>for_ok\<close>), the calculus \<open>wp\<close> for partial
    functions and its rule collection, MAC addresses, the locale \<open>codec\<close>.
  \<^item> \<^verbatim>\<open>Erps_Zephyr\<close>: the environment, the actions of a history, and what can be read off one.
  \<^item> \<^verbatim>\<open>Erps_Raps\<close>: \<^verbatim>\<open>r-aps.h\<close>, \<^verbatim>\<open>r-aps.c\<close>: the PDU, its accessors, its 37 bytes.
  \<^item> \<^verbatim>\<open>Erps_Node\<close>: requests, states, the structures \<open>erps_link\<close> and \<open>erps_node\<close>, their accessors.
  \<^item> \<^verbatim>\<open>Erps_Link\<close>: blocking and unblocking, FDB flush, guard/WTR/WTB timers, the transmit scheduler.
  \<^item> \<^verbatim>\<open>Erps_Fsm_Common\<close>, \<^verbatim>\<open>Erps_Fsm_Idle\<close>, \<^verbatim>\<open>Erps_Fsm_Protection\<close>, \<^verbatim>\<open>Erps_Fsm_Manual\<close>,
    \<^verbatim>\<open>Erps_Fsm_Forced\<close>, \<^verbatim>\<open>Erps_Fsm_Pending\<close>: the files \<^verbatim>\<open>erps-fsm-*.c\<close> and the inline wrappers of
    \<^verbatim>\<open>erps-fsm.h\<close>, one theory per file.
  \<^item> \<^verbatim>\<open>Erps_Fsm\<close>: the priority logic, the dispatch, the mutex, \<^verbatim>\<open>erps-ctl.c\<close>.
  \<^item> \<^verbatim>\<open>Erps_Recv\<close>: from a frame to a request. \<^verbatim>\<open>Erps_Tx\<close>: composing, sending and repeating a PDU.
  \<^item> \<^verbatim>\<open>Erps_Init\<close>: the work handlers of the timers and of a lost carrier, the devicetree macros with
    their build assertions, and \<open>erps_init\<close>.
  \<^item> \<^verbatim>\<open>Erps_Api\<close>: \<^verbatim>\<open>src/include/zephyr/net/erps.h\<close>. \<^verbatim>\<open>Erps_Shell\<close>:
    \<^verbatim>\<open>src/subsys/net/lib/shell/erps.c\<close>, with \<open>strtoul\<close> for base 10 written out.

  \<^bold>\<open>Theories of lemmas.\<close>
  \<^item> \<^verbatim>\<open>Erps_Frame\<close>: \<open>evolves\<close> and \<open>stable\<close>, what each operation keeps in any environment, as a rule
    of \<open>wp\<close> per operation.
  \<^item> \<^verbatim>\<open>Erps_Table\<close>: the abstract specification, the protection switching table (Table 10-2 of the
    recommendation) as lists of actions on an abstract node.
  \<^item> \<^verbatim>\<open>Erps_Refine\<close>: each operation simulates its action, so the state machine implements the table.
    \<^verbatim>\<open>Erps_Sim_Recv\<close> extends that to received frames, and \<^verbatim>\<open>Erps_Ring\<close> to what one node makes
    another one do. \<^verbatim>\<open>Erps_Rows\<close> holds what follows from the table alone.
  \<^item> \<^verbatim>\<open>Erps_Events\<close>: the system as a step relation over all its events (\<open>reach\<close>), the invariant
    \<open>ring_ok\<close>, and the locale \<open>event_loop\<close>, which is interpreted here and again wherever an
    invariant of the running system is shown.
  \<^item> \<^verbatim>\<open>Erps_Sim_Sys\<close>: the refinement for the running system. Each event is a \<open>table_step\<close> at every
    node, on one of its \<open>event_requests\<close>.
  \<^item> \<^verbatim>\<open>Erps_Boot\<close>: what initialisation establishes.
  \<^item> \<^verbatim>\<open>Erps_Net\<close>: a network of devices with the PDUs on the air (\<open>net_handle\<close>), and the invariant of
    a ring that starts (\<open>quiet_net\<close>). \<^verbatim>\<open>Erps_Settle\<close>: one device speaks and the others hear it
    (\<open>one_speaks\<close>), and the states such a round takes a ring from and to. \<^verbatim>\<open>Erps_Example\<close>: concrete
    environments and rings.
  \<^item> The properties are in \<^verbatim>\<open>Erps_Props_Fsm\<close>, \<^verbatim>\<open>Erps_Props_Wire\<close>, \<^verbatim>\<open>Erps_Props_Api\<close>,
    \<^verbatim>\<open>Erps_Props_Net\<close>, \<^verbatim>\<open>Erps_Props_Ring\<close> and here.

  \<^bold>\<open>Bounds.\<close> The only recursion that is not structural is that of the state machine through the
  timers it starts: \<open>erps_node_start_wtr\<close> posts \<open>ERPS_REQ_WTR_RUNNING\<close> back to it. It is modelled
  with fuel 2 (\<open>erps_fsm_post_locked_fuel\<close>). That is enough: a running timer is posted only by
  handlers of other requests and starts no timer itself; \<open>post_terminates\<close> shows that no fuel
  above 1 changes the result. All other loops are over the two ports, the nodes, or the characters
  of a string.

  \<^bold>\<open>What is shown.\<close> The state machine implements the table when drivers accept commands, for every
  state, role and request, and so does the running system for every event; in any environment it
  terminates, is never stuck, keeps its invariant, holds its mutex, and blocks before it opens.
  Initialisation blocks every port of every node before it opens any, and splits each ring at
  exactly one port of each node. From there on a ring of any number of devices always has a blocked
  port while nothing fails and nobody switches (\<open>startup_loop_free\<close>): until an owner of the RPL
  has blocked it, the device with the highest address keeps a port blocked, since the contest of
  node identifiers is the only thing that opens one. Three rounds, in each of which one device speaks
  and the others hear it, make a cycle: a ring that waits, as it does after its start
  (\<open>starts_waits\<close>), comes to rest with the RPL blocked and nothing else (\<open>ring_settles\<close>); a failure
  at rest leaves the failed port blocked and nothing else (\<open>ring_protects\<close>); and when the port
  recovers the ring waits again (\<open>ring_recovers\<close>), unless it is a port of the RPL, which the code
  counts as failed from then on (\<open>rpl_failure_sticks\<close>). The ends of the RPL never leave it open in
  IDLE. A frame is dropped or drives the table; what one node announces another one decodes, so a
  failure opens the RPL at the other side of the ring and its recovery closes it. Reception reads
  the opcode, the request, the status and the sender, and nothing else of a PDU
  (\<open>reception_reads_bytes\<close>); of two nodes that hear each other exactly the one with the smaller
  address opens its ports (\<open>nr_contest_one_yields\<close>). Every PDU sent is
  well-typed, the configuration of a running node is fixed, and packets are neither leaked nor
  released twice. The public interface and the shell reach the port they name, and
  \<open>parse_u8_accepts_iff\<close> says which strings the shell takes for a number.

  \<^bold>\<open>The network.\<close> In \<^verbatim>\<open>Erps_Net\<close> a device has an environment of its own and one node. The link to
  the others is what its packets carry: those handed to the stack by the transmit work item, the
  only code that sends, are on the air for good, and a packet received holds one of them. Loss,
  delay, repetition and reordering are thus included, corruption and foreign senders are not.

  \<^bold>\<open>Atomicity.\<close> An event is handled as one step. For the state machine that is the mutex
  (\<open>post_under_mutex\<close>); between two calls the environment may change, since its answers depend on
  the whole history, but two handlers of one node do not interleave. The few fields written
  outside the mutex (\<open>tx_burst\<close> by the transmit work item, \<open>bpr\<close> and \<open>last_node_id\<close> by the
  receiver) are therefore modelled without their data races, and the memory fences around them
  are left out.

  \<^bold>\<open>Not modelled.\<close> Log messages (nothing depends on them; \<open>erps_state_name\<close> and its like, used only
  there, are modelled). Registration with the system (\<open>SYS_INIT\<close>, \<open>ETH_NET_L3_REGISTER\<close>, the
  \<open>SHELL_*\<close> tables, \<open>LOG_MODULE_REGISTER\<close>), which generates tables for Zephyr. The linker script
  fragment, Kconfig and CMake files, the devicetree binding (its defaults reach the model as
  values of \<open>dt_node\<close>), the board overlay, the empty \<open>main\<close> of the sample, and the Python script
  that sends test PDUs.
\<close>

declare raps_req_states [simp del]

section \<open>Starting\<close>

lemma dt_ring_ids: "dt_ring_id dt_plain = Some 5" "dt_ring_id dt_owner = Some 5" "dt_ring_id dt_nbr = Some 5"
  by (simp_all add: dt_plain_def dt_owner_def dt_nbr_def)

text \<open>
  C7. Starting the nodes the devicetree describes, in an environment that accepts every call:
  initialisation returns 0, and every node is in PENDING with its RPL (or port 0, when it has
  none) blocked and the other port open, in the driver as in its flags, and announces R-APS(NR).
\<close>

theorem init_brings_rings_up:
  assumes "env_accepts z" and "ifaces_distinct z (erps_boot ds)"
    and "\<And>d. d \<in> set ds \<Longrightarrow> erps_node_build_asserts d \<and> dt_ring_id d \<noteq> None"
    and "\<And>dv. net_if_lookup_by_dev z dv \<noteq> None"
  shows "\<exists>t. erps_init z (erps_boot ds) = Some (0, t) \<and> nnodes t = length ds \<and>
    (\<forall>n < length ds. state (nodes t n) = ERPS_STATE_PENDING \<and>
      split_at z n (boot_port (nodes t n)) t \<and>
      pdu_mut (nodes t n) = \<lparr>mut_rs_sc = 0, mut_status = 0\<rparr>)"
  using boot_up [OF assms] by (auto simp: up_def announces_def)

theorem init_brings_rings_up_witness:
  "\<exists>t. erps_init calm0 ring3 = Some (0, t) \<and> state (nodes t 1) = ERPS_STATE_PENDING \<and>
    split_at calm0 1 (boot_port (nodes t 1)) t"
proof -
  have "ifaces_distinct calm0 (erps_boot [dt_plain, dt_owner, dt_nbr])"
    unfolding ring3_def [symmetric] by simp
  moreover have "net_if_lookup_by_dev calm0 dv \<noteq> None" for dv by (simp add: calm_lookup)
  moreover have "erps_node_build_asserts d \<and> dt_ring_id d \<noteq> None"
    if "d \<in> set [dt_plain, dt_owner, dt_nbr]" for d
    using that by (auto simp: dt_ring_ids)
  ultimately show ?thesis
    using init_brings_rings_up [of calm0 "[dt_plain, dt_owner, dt_nbr]"] unfolding ring3_def by force
qed

text \<open>
  C14. Initialisation has a result in any environment, and blocks before it opens: there is a point
  up to which nothing but switching ports off has happened; when initialisation fails it stops
  there, and when it goes on, every ring port is off at that point.
\<close>

theorem init_blocks_first:
  assumes "\<And>d. d \<in> set ds \<Longrightarrow> erps_node_build_asserts d"
  shows "\<exists>r t u. erps_init z (erps_boot ds) = Some (r, u) \<and> only_disables (erps_boot ds) t \<and>
    (if r \<noteq> 0 then u = t
     else (\<exists>h. hist u = h @ hist t) \<and> (\<forall>n < length ds. \<forall>p < 2. is_off z (n, p) t))"
proof -
  have n: "nnodes (erps_boot ds) = length ds" by (simp add: erps_boot_def)
  have "idx_ok (nodes (erps_boot ds) m) \<and> role_ok (nodes (erps_boot ds) m) \<and>
      (\<forall>p. \<not> blocked (lnk (erps_boot ds) (m, p)))" if "m < nnodes (erps_boot ds)" for m
    using erps_boot_fresh [of ds m] assms that n by simp
  then obtain t where t: "only_disables (erps_boot ds) t"
    "\<And>m p. m < length ds \<Longrightarrow> p < 2 \<Longrightarrow>
      fst (erps_init_block z [0..<length ds] (erps_boot ds)) = 0 \<Longrightarrow> is_off z (m, p) t"
    "fst (erps_init_block z [0..<length ds] (erps_boot ds)) \<noteq> 0 \<Longrightarrow> erps_init z (erps_boot ds) =
      Some (fst (erps_init_block z [0..<length ds] (erps_boot ds)), t)"
    "fst (erps_init_block z [0..<length ds] (erps_boot ds)) = 0 \<Longrightarrow>
      \<exists>u h. erps_init z (erps_boot ds) = Some (0, u) \<and> hist u = h @ hist t \<and> nnodes u = nnodes (erps_boot ds)"
    by (rule init_total [where z = z, unfolded n]) (simp_all add: n)
  show ?thesis
  proof (cases "fst (erps_init_block z [0..<length ds] (erps_boot ds)) = 0")
    case True
    with t(4) obtain u h where "erps_init z (erps_boot ds) = Some (0, u)" "hist u = h @ hist t"
      by blast
    then show ?thesis using t(1,2) True by auto
  next
    case False
    then show ?thesis using t(1,3) by auto
  qed
qed

theorem init_blocks_first_witness:
  "\<exists>t. only_disables ring3 t \<and> (\<exists>h. hist (started3 hdr5 (replicate 37 0)) = h @ hist t) \<and>
    (\<forall>n < 3. \<forall>p < 2. is_off calm0 (n, p) t)"
proof -
  have "erps_node_build_asserts d" if "d \<in> set [dt_plain, dt_owner, dt_nbr]" for d
    using that by auto
  then show ?thesis
    using init_blocks_first [of "[dt_plain, dt_owner, dt_nbr]" calm0, folded ring3_def]
      started3(1) [of hdr5 "replicate 37 0"]
    by (auto simp: numeral_3_eq_3 split: if_splits)
qed

text \<open>
  C24. In any environment, the state machine of a node starts by splitting the ring at exactly one
  port: when its initialisation returns 0, that port is blocked and the other one open, the
  drivers have been told so, and R-APS(NR) is announced; the configuration is as it was. But the
  node is in PENDING even when an error is returned.
\<close>

theorem fsm_init_splits_ring:
  assumes "idx_ok (nodes s n)" and "role_ok (nodes s n)" and "n < nnodes s" and "ifaces_distinct z s"
    and "\<not> blocked (lnk s (n, boot_port (nodes s n)))"
  shows "\<exists>r t. erps_fsm_init z n s = Some (r, t) \<and> state (nodes t n) = ERPS_STATE_PENDING \<and>
    node_cfg (nodes t n) = node_cfg (nodes s n) \<and>
    (r = 0 \<longrightarrow> split_at z n (boot_port (nodes s n)) t \<and> announces n 0 0 t)"
  using wp_fsm_init [OF assms(1,2,5), of z] assms(3,4)
  by (auto simp: wp_iff_Some keeps_cfg)

theorem fsm_init_splits_ring_witness:
  "\<exists>r t. erps_fsm_init calm0 1 ring3 = Some (r, t) \<and> state (nodes t 1) = ERPS_STATE_PENDING"
proof -
  have f: "fresh calm0 ring3 1" by (rule ring3_fresh) simp
  show ?thesis
    using fsm_init_splits_ring [of ring3 1 calm0] f by (auto simp: fresh_def good_def)
qed

section \<open>Running\<close>

text \<open>
  C8. The invariant of the nodes holds in every state the running system reaches, through the
  public interface, received frames, timers, transmissions and management events in any order,
  whatever the drivers answer: indices and roles are consistent, every node stays started, its
  top request is a local one, its PDU is one of the five, no port is said blocked or open that
  the driver was not last told so, and no mutex is left held.
\<close>

theorem reachable_ring_ok:
  assumes "ring_ok z s" and "reach (erps_handle z) (erps_ready z) s t"
  shows "ring_ok z t"
  using assms(2,1) by (rule erps.reach_ok)

theorem reachable_ring_ok_witness:
  "ring_ok calm0 (the (erps_handle calm0 (Ctl (Some 3) ERPS_SIGNAL_FAIL)
     (owner1 ERPS_STATE_IDLE ERPS_REQ_INVALID False True)))"
proof -
  let ?s = "owner1 ERPS_STATE_IDLE ERPS_REQ_INVALID False True"
  have ok: "ring_ok calm0 ?s" by (rule owner1_ring_ok) auto
  then obtain t where t: "erps_handle calm0 (Ctl (Some 3) ERPS_SIGNAL_FAIL) ?s = Some t"
    using erps_handle_ok [OF ok, of "Ctl (Some 3) ERPS_SIGNAL_FAIL"] by auto
  have "reach (erps_handle calm0) (erps_ready calm0) ?s t"
    by (rule reach_step [where ev = "Ctl (Some 3) ERPS_SIGNAL_FAIL", OF reach_refl]) (simp, rule t)
  from reachable_ring_ok [OF ok this] show ?thesis by (simp only: t option.sel)
qed

text \<open>
  C16. The running system is never stuck: from a well-formed ring, whatever has happened, every
  event that can come has a defined result. No assertion fails and no null pointer is
  dereferenced.
\<close>

theorem reachable_not_stuck:
  assumes "ring_ok z s" and "reach (erps_handle z) (erps_ready z) s t" and "erps_ready z t ev"
  shows "erps_handle z ev t \<noteq> None"
  using assms(2,1,3) by (rule erps.reach_not_stuck)

theorem reachable_not_stuck_witness:
  "erps_handle (calm hdr5 (raps_pdu_bytes (heard 0 0 (mac_if 9)))) (Frame (Some 4) 7)
     (owner1 ERPS_STATE_PROTECTION ERPS_REQ_INVALID False False) \<noteq> None"
  by (rule reachable_not_stuck [OF owner1_ring_ok reach_refl]) simp_all

text \<open>
  C17. From the devicetree to any later moment: after the rings have come up, and however the
  system has run since, a ring port is enabled in its driver exactly when its node does not hold
  it blocked.
\<close>

theorem ports_in_sync_from_boot:
  assumes "env_accepts z" and "ifaces_distinct z (erps_boot ds)"
    and "\<And>n. n < length ds \<Longrightarrow> fresh z (erps_boot ds) n \<and>
      ring_id (nodes (erps_boot ds) n) \<noteq> ERPS_INVALID_RING"
    and "erps_init z (erps_boot ds) = Some (r, s)"
    and "reach (erps_handle z) (erps_ready z) s t"
    and "n < nnodes t" and "p < 2" and "net_if_lookup_by_dev z (dev (lnk t (n, p))) = Some i"
  shows "port_enabled (hist t) i = Some (\<not> blocked (lnk t (n, p)))"
proof -
  have "nnodes (erps_boot ds) = length ds" by (simp add: erps_boot_def)
  then have "ring_ok z s"
    using init_all_up [OF assms(1,2)] assms(3,4) by auto
  then have "ring_ok z t" by (rule erps.reach_ok [OF assms(5)])
  then show ?thesis
    using ring_okD [OF _ assms(6)] assms(7,8) by (simp add: node_ok_def hw_sync_def)
qed

theorem ports_in_sync_from_boot_witness:
  "port_enabled (hist (started3 hdr5 (replicate 37 0)))  (the (net_if_lookup_by_dev calm0
      (dev (lnk (started3 hdr5 (replicate 37 0)) (1, 1))))) =
    Some (\<not> blocked (lnk (started3 hdr5 (replicate 37 0)) (1, 1)))"
proof (rule ports_in_sync_from_boot [of calm0 "[dt_plain, dt_owner, dt_nbr]", folded ring3_def])
  show "reach (erps_handle calm0) (erps_ready calm0) (started3 hdr5 (replicate 37 0))
    (started3 hdr5 (replicate 37 0))" by (rule reach_refl)
qed (simp_all add: started3 ring3_fresh ring3_ring_id ERPS_INVALID_RING_def calm_lookup)

section \<open>The mutex\<close>

text \<open>
  C15. Requests are handled under the node's mutex: when it cannot be taken within its time, its
  error is returned and nothing else has happened; otherwise it is taken first, held all the way,
  and given back last, on every path, and no other node is touched.
\<close>

theorem post_under_mutex:
  assumes "idx_ok (nodes s n)" and "role_ok (nodes s n)" and "p < 2"
    and "req = ERPS_REQ_RAPS_NR \<Longrightarrow> pdu \<noteq> None" and "c = k_mutex_lock z (hist s) n (K_MSEC 250)"
  shows "\<exists>r t. erps_fsm_post z (n, p) req pdu s = Some (r, t) \<and>
    (if c \<noteq> 0 then r = c \<and> t = emit (MutexLock n c) s
     else (\<exists>h. hist t = MutexUnlock n # h @ MutexLock n 0 # hist s \<and>
         mutex_held (h @ MutexLock n 0 # hist s) n) \<and> (\<forall>m. m \<noteq> n \<longrightarrow> nodes t m = nodes s m))"
proof -
  let ?l = "emit (MutexLock n 0) s"
  have node: "erps_link_get_node s (n, p) = n" using assms(1,3) by simp
  have "stable z n ?l ?l" using assms(1,2) by (intro stable_refl) simp_all
  then have "wp (erps_fsm_post_locked z (n, p) req pdu ?l) (\<lambda>_. stable z n ?l)"
    by (rule wp_post_locked [OF _ assms(3,4)])
  then obtain r t where t: "erps_fsm_post_locked z (n, p) req pdu ?l = Some (r, t)" "stable z n ?l t"
    by (auto simp: wp_iff_Some)
  note ev = stable_evolves [OF t(2)]
  obtain h where h: "hist t = h @ MutexLock n 0 # hist s"
    using ev by (auto simp: evolves_def)
  moreover have "mutex_held (hist t) n" "m \<noteq> n \<Longrightarrow> nodes t m = nodes s m" for m
    using ev by (simp_all add: evolves_def)
  ultimately show ?thesis
    using t(1) by (auto simp: erps_fsm_post_def node do_mutex_lock_def Let_def assms(5))
qed

theorem post_under_mutex_witness:
  "\<exists>r t h. erps_fsm_post calm0 (0, 0) ERPS_REQ_SF None (owner1 ERPS_STATE_IDLE ERPS_REQ_INVALID False True) =
      Some (r, t) \<and>
    hist t = MutexUnlock 0 # h @ MutexLock 0 0 # hist (owner1 ERPS_STATE_IDLE ERPS_REQ_INVALID False True)"
  using post_under_mutex [of "owner1 ERPS_STATE_IDLE ERPS_REQ_INVALID False True" 0 0 ERPS_REQ_SF None 0 calm0]
  by auto

end
